theory Spec2Isabelle
  imports Main "HOL-Library.Sublist"
begin

section \<open>Python values used by the agent\<close>

text \<open>
  A Python \<open>str\<close> is a \<open>string\<close>: a list of characters, each a code point below 256.
  Text files hold such strings; decoding a file never fails.

  Exceptions are values. Each constructor carries what \<open>str(e)\<close> needs: the missing key,
  the path or program of an \<open>OSError\<close>, or the message the exception was raised with.
\<close>

datatype py_error =
    KeyError string
  | FileNotFoundError string
  | PermissionError string
  | ValueError string
  | Exception string
  | IntegrityError string
  | ReError string

fun py_str :: "py_error \<Rightarrow> string" where
  "py_str (KeyError k) = [CHR 0x27] @ k @ [CHR 0x27]"
| "py_str (FileNotFoundError p) =
     ''[Errno 2] No such file or directory: '' @ [CHR 0x27] @ p @ [CHR 0x27]"
| "py_str (PermissionError p) =
     ''[Errno 13] Permission denied: '' @ [CHR 0x27] @ p @ [CHR 0x27]"
| "py_str (ValueError m) = m"
| "py_str (Exception m) = m"
| "py_str (IntegrityError m) = m"
| "py_str (ReError m) = m"

definition LF :: char where
  "LF = CHR 0x0A"

definition CR :: char where
  "CR = CHR 0x0D"

text \<open>\<open>str.isspace\<close> on one code point below 256.\<close>

definition py_isspace :: "char \<Rightarrow> bool" where
  "py_isspace c =
     (let n = (of_char c :: nat)
      in (9 \<le> n \<and> n \<le> 13) \<or> (28 \<le> n \<and> n \<le> 32) \<or> n = 133 \<or> n = 160)"

text \<open>\<open>s.strip()\<close>: whitespace removed at both ends.\<close>

definition py_strip :: "string \<Rightarrow> string" where
  "py_strip s = rev (dropWhile py_isspace (rev (dropWhile py_isspace s)))"

text \<open>\<open>x in s\<close> for two strings: \<open>x\<close> occurs in \<open>s\<close> as a contiguous run.\<close>

fun str_contains :: "string \<Rightarrow> string \<Rightarrow> bool" where
  "str_contains x [] = (x = [])"
| "str_contains x (c # cs) = (prefix x (c # cs) \<or> str_contains x cs)"

text \<open>\<open>sep.join(xs)\<close>.\<close>

fun py_join :: "string \<Rightarrow> string list \<Rightarrow> string" where
  "py_join sep [] = []"
| "py_join sep [x] = x"
| "py_join sep (x # y # ys) = x @ sep @ py_join sep (y # ys)"

text \<open>\<open>s.split('\n')\<close>: the pieces between line feeds; never the empty list.\<close>

function split_lf :: "string \<Rightarrow> string list" where
  "split_lf s =
     (case dropWhile (\<lambda>c. c \<noteq> LF) s of
        [] \<Rightarrow> [s]
      | _ # rest \<Rightarrow> takeWhile (\<lambda>c. c \<noteq> LF) s # split_lf rest)"
  by pat_completeness auto
termination
proof (relation "measure length")
  show "wf (measure length)" by simp
next
  fix s :: string and x rest
  assume "dropWhile (\<lambda>c. c \<noteq> LF) s = x # rest"
  then have "length (x # rest) \<le> length s"
    by (metis length_dropWhile_le)
  then show "(rest, s) \<in> measure length" by simp
qed

declare split_lf.simps [simp del]

text \<open>
  Reading a file in text mode translates line ends (universal newlines): \<open>\r\n\<close> and a
  lone \<open>\r\<close> both become \<open>\n\<close>.
\<close>

fun universal_newlines :: "string \<Rightarrow> string" where
  "universal_newlines [] = []"
| "universal_newlines [c] = (if c = CR then [LF] else [c])"
| "universal_newlines (c # d # cs) =
     (if c = CR \<and> d = LF then LF # universal_newlines cs
      else if c = CR then LF # universal_newlines (d # cs)
      else c # universal_newlines (d # cs))"

text \<open>\<open>f.readlines()\<close>: the lines of a text, each still ending in its line feed.\<close>

function readlines :: "string \<Rightarrow> string list" where
  "readlines s =
     (if s = [] then []
      else case dropWhile (\<lambda>c. c \<noteq> LF) s of
        [] \<Rightarrow> [s]
      | _ # rest \<Rightarrow> (takeWhile (\<lambda>c. c \<noteq> LF) s @ [LF]) # readlines rest)"
  by pat_completeness auto
termination
proof (relation "measure length")
  show "wf (measure length)" by simp
next
  fix s :: string and x rest
  assume "dropWhile (\<lambda>c. c \<noteq> LF) s = x # rest"
  then have "length (x # rest) \<le> length s"
    by (metis length_dropWhile_le)
  then show "(rest, s) \<in> measure length" by simp
qed

declare readlines.simps [simp del]

section \<open>Data model\<close>

text \<open>
  The agent passes dictionaries around. A dictionary with a fixed set of keys is a record;
  a key that the code tests with \<open>in\<close> or reads with \<open>.get\<close> is an optional field.
\<close>

record finding =
  severity :: string
  rule_id :: string
  title :: string
  status :: string
  description :: string
  fix_text :: string
  check_type :: string

text \<open>One entry of a remediation's \<open>"changes"\<close> list.\<close>

record change =
  regex :: "string option"
  replacement :: "string option"
  append_if_not_found :: "string option"

text \<open>
  A remediation: an entry of the catalog. \<open>settings\<close> is a dictionary whose iteration order
  is its insertion order, so it is a list of pairs with distinct keys.
\<close>

record remediation =
  rtype :: string
  package :: "string option"
  config_file :: "string option"
  settings :: "(string \<times> string) list option"
  file_path :: "string option"
  changes :: "change list option"
  service_restart :: "string option"
  service :: "string option"
  backup_required :: "bool option"

record plan_item =
  finding_id :: string
  item_title :: string
  item_severity :: string
  item_remediation :: remediation
  item_backup_required :: bool

record plan =
  scan_id :: "string option"
  items :: "plan_item list"
  created_at :: string
  plan_id :: "string option"

record scan_results =
  sr_scan_id :: "string option"
  findings :: "finding list"

record execution_result =
  res_finding_id :: string
  res_title :: string
  res_status :: string
  changes_made :: "string list"
  backup_path :: "string option"
  res_error :: "string option"

record execution =
  exec_plan_id :: string
  exec_timestamp :: string
  exec_items :: "execution_result list"
  exec_status :: string
  exec_error :: "string option"

section \<open>The remediation catalog\<close>

definition no_change :: change where
  "no_change = \<lparr>regex = None, replacement = None, append_if_not_found = None\<rparr>"

definition no_remediation :: remediation where
  "no_remediation =
     \<lparr>rtype = [], package = None, config_file = None, settings = None, file_path = None,
      changes = None, service_restart = None, service = None, backup_required = None\<rparr>"

definition V_72427 :: remediation where
  "V_72427 = no_remediation
     \<lparr>rtype := ''package_install'',
      package := Some ''libpam-pwquality'',
      config_file := Some ''/etc/security/pwquality.conf'',
      settings := Some [(''minlen'', ''14''), (''dcredit'', ''-1''), (''ucredit'', ''-1''),
                        (''lcredit'', ''-1''), (''ocredit'', ''-1'')],
      backup_required := Some True\<rparr>"

definition V_72433 :: remediation where
  "V_72433 = no_remediation
     \<lparr>rtype := ''file_edit'',
      file_path := Some ''/etc/ssh/sshd_config'',
      changes := Some [no_change\<lparr>regex := Some ''^Protocol.*'', replacement := Some ''Protocol 2''\<rparr>,
                       no_change\<lparr>append_if_not_found := Some ''Protocol 2''\<rparr>],
      service_restart := Some ''ssh'',
      backup_required := Some True\<rparr>"

definition V_72435 :: remediation where
  "V_72435 = no_remediation
     \<lparr>rtype := ''service_config'',
      service := Some ''ssh'',
      config_file := Some ''/etc/ssh/sshd_config'',
      changes := Some [no_change\<lparr>regex := Some ''^PermitRootLogin.*'',
                                  replacement := Some ''PermitRootLogin no''\<rparr>,
                       no_change\<lparr>append_if_not_found := Some ''PermitRootLogin no''\<rparr>],
      backup_required := Some True\<rparr>"

text \<open>\<open>remediation_map\<close>, the dictionary literal of \<open>_get_remediation_steps\<close>.\<close>

definition remediation_map :: "string \<rightharpoonup> remediation" where
  "remediation_map =
     [''V-72427'' \<mapsto> V_72427, ''V-72433'' \<mapsto> V_72433, ''V-72435'' \<mapsto> V_72435]"

definition get_remediation_steps :: "finding \<Rightarrow> remediation option" where
  "get_remediation_steps f = remediation_map (rule_id f)"


text \<open>
  \<open>create_plan\<close>, the loop over the findings. \<open>acc\<close> is \<open>plan_items\<close>. The test
  \<open>if remediation:\<close> holds for every catalog entry: each is a non-empty dictionary.
\<close>

definition make_plan_item :: "finding \<Rightarrow> remediation \<Rightarrow> plan_item" where
  "make_plan_item f r =
     \<lparr>finding_id = rule_id f, item_title = title f, item_severity = severity f,
      item_remediation = r,
      item_backup_required = (case backup_required r of None \<Rightarrow> True | Some b \<Rightarrow> b)\<rparr>"

primrec create_plan_items :: "finding list \<Rightarrow> plan_item list \<Rightarrow> plan_item list" where
  "create_plan_items [] acc = acc"
| "create_plan_items (f # fs) acc =
     create_plan_items fs
       (if status f = ''failed''
        then (case get_remediation_steps f of
                None \<Rightarrow> acc
              | Some r \<Rightarrow> acc @ [make_plan_item f r])
        else acc)"

section \<open>The host and the store\<close>

text \<open>
  \<open>datetime.now()\<close> is read from a clock that the program does not control: the
  \<open>n\<close>-th reading is \<open>clock n\<close>. A \<open>datetime\<close> has its fields within their ranges
  (a year of four digits); the two renderings the code uses print them in decimal.
\<close>

record datetime =
  year :: nat
  month :: nat
  day :: nat
  hour :: nat
  minute :: nat
  second :: nat
  microsecond :: nat

definition digit :: "nat \<Rightarrow> char" where
  "digit n = char_of (48 + n mod 10)"

definition pad2 :: "nat \<Rightarrow> string" where
  "pad2 n = [digit (n div 10), digit n]"

definition pad4 :: "nat \<Rightarrow> string" where
  "pad4 n = [digit (n div 1000), digit (n div 100), digit (n div 10), digit n]"

definition pad6 :: "nat \<Rightarrow> string" where
  "pad6 n = [digit (n div 100000), digit (n div 10000), digit (n div 1000),
             digit (n div 100), digit (n div 10), digit n]"

text \<open>\<open>d.strftime('%Y%m%d_%H%M%S')\<close>.\<close>

definition ymd_hms :: "datetime \<Rightarrow> string" where
  "ymd_hms d =
     pad4 (year d) @ pad2 (month d) @ pad2 (day d) @ ''_''
     @ pad2 (hour d) @ pad2 (minute d) @ pad2 (second d)"

text \<open>\<open>d.isoformat()\<close>; the microseconds are left out when they are zero.\<close>

definition isoformat :: "datetime \<Rightarrow> string" where
  "isoformat d =
     pad4 (year d) @ ''-'' @ pad2 (month d) @ ''-'' @ pad2 (day d) @ ''T''
     @ pad2 (hour d) @ '':'' @ pad2 (minute d) @ '':'' @ pad2 (second d)
     @ (if microsecond d = 0 then [] else ''.'' @ pad6 (microsecond d))"

text \<open>
  Every effect on the host or the store is also appended to \<open>trace\<close>, in program order.
  The program never reads the trace.
\<close>

datatype event =
    FileCopied string string
  | FileWritten string string
  | Spawned "string list"
  | PlanInserted string string
  | PlanStatusSet string string
  | ExecutionInserted string string

record plan_row =
  row_scan_id :: string
  row_timestamp :: string
  row_items :: "plan_item list"
  row_status :: string

record history_row =
  h_plan_id :: string
  h_timestamp :: string
  h_items :: "execution_result list"
  h_status :: string
  h_result :: string

text \<open>
  The world the agent runs in.
  \<^item> \<open>files\<close>: the regular files of the host, path to content (the empty path names no
    file, whatever \<open>files\<close> says there);
  \<^item> \<open>unwritable\<close>: the paths that cannot be opened for writing;
  \<^item> \<open>apt_get_install\<close>: what \<open>apt-get install -y\<close> does for a package on given files:
    its return code, its standard error and the files it leaves;
  \<^item> \<open>spawnable\<close>: the programs \<open>create_subprocess_exec\<close> can start;
  \<^item> \<open>re_other\<close>: \<open>re.compile(pattern, re.MULTILINE)\<close> outside the fragment modelled
    below: an error, or the compiled pattern's \<open>sub(repl, string)\<close>;
  \<^item> \<open>clock\<close>, \<open>ticks\<close>: the clock and the number of readings taken so far;
  \<^item> \<open>remediation_plans\<close>, \<open>remediation_history\<close>: the two tables, by primary key.
  The \<open>items\<close> column holds JSON text; \<open>json.loads\<close> of \<open>json.dumps\<close> gives the value
  back, so the column is modelled as the value.
\<close>

record world =
  files :: "string \<rightharpoonup> string"
  unwritable :: "string \<Rightarrow> bool"
  apt_get_install :: "string \<Rightarrow> (string \<rightharpoonup> string) \<Rightarrow> int \<times> string \<times> (string \<rightharpoonup> string)"
  spawnable :: "string \<Rightarrow> bool"
  re_other :: "string \<Rightarrow> py_error + (string \<Rightarrow> string \<Rightarrow> py_error + string)"
  clock :: "nat \<Rightarrow> datetime"
  ticks :: nat
  remediation_plans :: "string \<rightharpoonup> plan_row"
  remediation_history :: "string \<rightharpoonup> history_row"
  trace :: "event list"

definition now :: "world \<Rightarrow> datetime \<times> world" where
  "now w = (clock w (ticks w), w\<lparr>ticks := Suc (ticks w)\<rparr>)"

subsection \<open>Files and subprocesses\<close>

definition lookup_file :: "world \<Rightarrow> string \<Rightarrow> string option" where
  "lookup_file w p = (if p = [] then None else files w p)"

text \<open>\<open>os.path.exists(p)\<close>.\<close>

definition path_exists :: "world \<Rightarrow> string \<Rightarrow> bool" where
  "path_exists w p = (lookup_file w p \<noteq> None)"

text \<open>\<open>open(p, 'r').read()\<close>.\<close>

definition read_text :: "world \<Rightarrow> string \<Rightarrow> py_error + string" where
  "read_text w p =
     (case lookup_file w p of
        None \<Rightarrow> Inl (FileNotFoundError p)
      | Some c \<Rightarrow> Inr (universal_newlines c))"

text \<open>\<open>open(p, 'w').write(s)\<close>.\<close>

definition write_text :: "world \<Rightarrow> string \<Rightarrow> string \<Rightarrow> (py_error + unit) \<times> world" where
  "write_text w p s =
     (if p = [] then (Inl (FileNotFoundError p), w)
      else if unwritable w p then (Inl (PermissionError p), w)
      else (Inr (), w\<lparr>files := (files w)(p \<mapsto> s), trace := trace w @ [FileWritten p s]\<rparr>))"

text \<open>\<open>shutil.copy2(src, dst)\<close>; copying a file onto itself raises \<open>SameFileError\<close>.\<close>

definition copy2 :: "world \<Rightarrow> string \<Rightarrow> string \<Rightarrow> (py_error + unit) \<times> world" where
  "copy2 w src dst =
     (case lookup_file w src of
        None \<Rightarrow> (Inl (FileNotFoundError src), w)
      | Some c \<Rightarrow>
          if dst = [] then (Inl (FileNotFoundError dst), w)
          else if src = dst
          then (Inl (Exception ([CHR 0x27] @ src @ [CHR 0x27] @ '' and '' @ [CHR 0x27] @ dst
                                @ [CHR 0x27] @ '' are the same file'')), w)
          else if unwritable w dst then (Inl (PermissionError dst), w)
          else (Inr (), w\<lparr>files := (files w)(dst \<mapsto> c), trace := trace w @ [FileCopied src dst]\<rparr>))"

text \<open>
  \<open>create_subprocess_exec("apt-get", "install", "-y", package)\<close> and \<open>communicate()\<close>:
  the return code and the standard error.
\<close>

definition run_apt_get :: "world \<Rightarrow> string \<Rightarrow> (py_error + int \<times> string) \<times> world" where
  "run_apt_get w pkg =
     (if \<not> spawnable w ''apt-get'' then (Inl (FileNotFoundError ''apt-get''), w)
      else (case apt_get_install w pkg (files w) of
              (rc, err, fs) \<Rightarrow>
                (Inr (rc, err),
                 w\<lparr>files := fs,
                   trace := trace w @ [Spawned [''apt-get'', ''install'', ''-y'', pkg]]\<rparr>)))"

text \<open>
  \<open>create_subprocess_exec("systemctl", verb, service)\<close> and \<open>communicate()\<close>. The return
  code is never looked at. \<open>systemctl\<close> changes none of the files of the model.
\<close>

definition run_systemctl :: "world \<Rightarrow> string \<Rightarrow> string \<Rightarrow> (py_error + unit) \<times> world" where
  "run_systemctl w verb svc =
     (if \<not> spawnable w ''systemctl'' then (Inl (FileNotFoundError ''systemctl''), w)
      else (Inr (), w\<lparr>trace := trace w @ [Spawned [''systemctl'', verb, svc]]\<rparr>))"

definition restart_service :: "world \<Rightarrow> string \<Rightarrow> (py_error + unit) \<times> world" where
  "restart_service w svc = run_systemctl w ''restart'' svc"

definition enable_service :: "world \<Rightarrow> string \<Rightarrow> (py_error + unit) \<times> world" where
  "enable_service w svc = run_systemctl w ''enable'' svc"

subsection \<open>DatabaseManager\<close>

text \<open>
  An \<open>INSERT\<close> fails with \<open>IntegrityError\<close> on a \<open>NULL\<close> in a \<open>NOT NULL\<close> column and on a
  primary key that is already there. Each \<open>datetime.now()\<close> is one reading of the clock.
\<close>

definition store_remediation_plan :: "world \<Rightarrow> plan \<Rightarrow> (py_error + string) \<times> world" where
  "store_remediation_plan w p =
     (let (t1, w1) = now w;
          (t2, w2) = now w1;
          pid = ''plan_'' @ ymd_hms t1 @ ''_''
                @ (case scan_id p of None \<Rightarrow> ''None'' | Some s \<Rightarrow> s)
      in case scan_id p of
             None \<Rightarrow>
               (Inl (IntegrityError ''NOT NULL constraint failed: remediation_plans.scan_id''), w2)
           | Some sid \<Rightarrow>
               if remediation_plans w2 pid \<noteq> None
               then (Inl (IntegrityError ''UNIQUE constraint failed: remediation_plans.plan_id''), w2)
               else (Inr pid,
                     w2\<lparr>remediation_plans := (remediation_plans w2)
                           (pid \<mapsto> \<lparr>row_scan_id = sid, row_timestamp = isoformat t2,
                                    row_items = items p, row_status = ''pending''\<rparr>),
                        trace := trace w2 @ [PlanInserted pid ''pending'']\<rparr>))"

text \<open>\<open>UPDATE remediation_plans SET status = ? WHERE plan_id = ?\<close>.\<close>

definition update_remediation_status :: "world \<Rightarrow> string \<Rightarrow> string \<Rightarrow> world" where
  "update_remediation_status w pid st =
     (case remediation_plans w pid of
        None \<Rightarrow> w
      | Some row \<Rightarrow>
          w\<lparr>remediation_plans := (remediation_plans w)(pid \<mapsto> row\<lparr>row_status := st\<rparr>),
            trace := trace w @ [PlanStatusSet pid st]\<rparr>)"

definition store_remediation_execution ::
  "world \<Rightarrow> execution \<Rightarrow> (py_error + string) \<times> world" where
  "store_remediation_execution w ex =
     (let (t1, w1) = now w;
          (t2, w2) = now w1;
          eid = ''exec_'' @ ymd_hms t1 @ ''_'' @ exec_plan_id ex
      in if remediation_history w2 eid \<noteq> None
           then (Inl (IntegrityError ''UNIQUE constraint failed: remediation_history.execution_id''), w2)
           else (Inr eid,
                 w2\<lparr>remediation_history := (remediation_history w2)
                       (eid \<mapsto> \<lparr>h_plan_id = exec_plan_id ex, h_timestamp = isoformat t2,
                                h_items = exec_items ex, h_status = exec_status ex,
                                h_result = ''{}''\<rparr>),
                    trace := trace w2 @ [ExecutionInserted eid (exec_status ex)]\<rparr>))"

text \<open>
  Modelled from the spec: \<open>get_remediation_plan\<close>, which \<open>_get_plan\<close> calls and
  \<open>DatabaseManager\<close> does not define. The spec gives \<open>get_plan(plan_id) \<rightarrow> Plan | NotFound\<close>;
  the columns are read back as \<open>get_scan_results\<close> reads a scan, and an absent row is
  \<open>None\<close>, which \<open>execute_plan\<close> tests with \<open>if not plan\<close>.
\<close>

definition get_remediation_plan :: "world \<Rightarrow> string \<Rightarrow> plan option" where
  "get_remediation_plan w pid =
     (case remediation_plans w pid of
        None \<Rightarrow> None
      | Some row \<Rightarrow>
          Some \<lparr>scan_id = Some (row_scan_id row), items = row_items row,
                created_at = row_timestamp row, plan_id = Some pid\<rparr>)"

section \<open>RemediationManager\<close>

definition create_plan :: "world \<Rightarrow> scan_results \<Rightarrow> (py_error + plan) \<times> world" where
  "create_plan w sr =
     (let (t0, w0) = now w;
          p = \<lparr>scan_id = sr_scan_id sr, items = create_plan_items (findings sr) [],
               created_at = isoformat t0, plan_id = None\<rparr>
      in case store_remediation_plan w0 p of
             (Inl e, w1) \<Rightarrow> (Inl e, w1)
           | (Inr pid, w1) \<Rightarrow> (Inr (p\<lparr>plan_id := Some pid\<rparr>), w1))"


subsection \<open>Regular expressions\<close>

text \<open>
  The catalog's patterns are \<open>^Protocol.*\<close> and \<open>^PermitRootLogin.*\<close>: a line start, a
  literal text and the rest of the line. For the patterns of this shape (a non-empty
  literal with no special character and no line feed) the library's behaviour is written
  out. Under \<open>re.MULTILINE\<close>, \<open>^\<close> matches at the start of the text and after each line
  feed, and \<open>.\<close> matches any character but a line feed: the matches are the lines that
  start with the literal, each whole. \<open>sub\<close> is called without \<open>count\<close>, so it
  replaces every match; a replacement without a backslash is inserted as it is.
  Everything else is left to \<open>re_other\<close>.
\<close>

definition regex_special :: "char \<Rightarrow> bool" where
  "regex_special c = (c \<in> set (''.^$*+?{}[]|()'' @ [CHR 0x5C]))"

definition line_start_literal :: "string \<Rightarrow> string option" where
  "line_start_literal pattern =
     (case pattern of
        [] \<Rightarrow> None
      | c # rest \<Rightarrow>
          let lit = take (length rest - 2) rest
          in if c = CHR ''^'' \<and> 2 < length rest \<and> drop (length rest - 2) rest = ''.*''
                \<and> list_all (\<lambda>x. \<not> regex_special x \<and> x \<noteq> LF) lit
             then Some lit else None)"

definition sub_lines :: "string \<Rightarrow> string \<Rightarrow> string \<Rightarrow> string" where
  "sub_lines lit repl s =
     py_join [LF] (map (\<lambda>l. if prefix lit l then repl else l) (split_lf s))"

definition re_compile_multiline ::
  "world \<Rightarrow> string \<Rightarrow> py_error + (string \<Rightarrow> string \<Rightarrow> py_error + string)" where
  "re_compile_multiline w pattern =
     (case line_start_literal pattern of
        None \<Rightarrow> re_other w pattern
      | Some lit \<Rightarrow>
          Inr (\<lambda>repl s.
                 if CHR 0x5C \<in> set repl
                 then (case re_other w pattern of Inl e \<Rightarrow> Inl e | Inr f \<Rightarrow> f repl s)
                 else Inr (sub_lines lit repl s)))"

subsection \<open>Applying a remediation\<close>

text \<open>
  One round of the loop over \<open>remediation["changes"]\<close> in \<open>_handle_file_edit\<close>: the two
  \<open>if\<close>s, in order, on \<open>new_content\<close>.
\<close>

definition apply_change :: "world \<Rightarrow> change \<Rightarrow> string \<Rightarrow> py_error + string" where
  "apply_change w c s =
     (case (case regex c of
              None \<Rightarrow> Inr s
            | Some pat \<Rightarrow>
                (case re_compile_multiline w pat of
                   Inl e \<Rightarrow> Inl e
                 | Inr pattern_sub \<Rightarrow>
                     (case replacement c of
                        None \<Rightarrow> Inl (KeyError ''replacement'')
                      | Some repl \<Rightarrow> pattern_sub repl s))) of
        Inl e \<Rightarrow> Inl e
      | Inr s1 \<Rightarrow>
          (case append_if_not_found c of
             None \<Rightarrow> Inr s1
           | Some a \<Rightarrow> if \<not> str_contains a s1 then Inr (s1 @ [LF] @ a) else Inr s1))"

fun apply_changes :: "world \<Rightarrow> change list \<Rightarrow> string \<Rightarrow> py_error + string" where
  "apply_changes w [] s = Inr s"
| "apply_changes w (c # cs) s =
     (case apply_change w c s of Inl e \<Rightarrow> Inl e | Inr s1 \<Rightarrow> apply_changes w cs s1)"

text \<open>
  The handlers change \<open>result\<close> in place, so what they appended to \<open>changes_made\<close> before
  an exception stays: each handler returns its outcome, the result and the world.
\<close>

type_synonym handler_outcome = "(py_error + unit) \<times> execution_result \<times> world"

definition add_change :: "execution_result \<Rightarrow> string \<Rightarrow> execution_result" where
  "add_change res m = res\<lparr>changes_made := changes_made res @ [m]\<rparr>"

text \<open>The block \<open>if new_content != content\<close> of \<open>_handle_file_edit\<close>.\<close>

definition write_if_changed ::
  "world \<Rightarrow> string \<Rightarrow> string \<Rightarrow> string \<Rightarrow> execution_result \<Rightarrow> handler_outcome" where
  "write_if_changed w fp content new_content res =
     (if new_content \<noteq> content
      then (case write_text w fp new_content of
              (Inl e, w1) \<Rightarrow> (Inl e, res, w1)
            | (Inr u, w1) \<Rightarrow> (Inr (), add_change res (''Updated '' @ fp), w1))
      else (Inr (), res, w))"

text \<open>The block \<open>if "service_restart" in remediation\<close> of \<open>_handle_file_edit\<close>.\<close>

definition restart_if_required ::
  "world \<Rightarrow> remediation \<Rightarrow> execution_result \<Rightarrow> handler_outcome" where
  "restart_if_required w r res =
     (case service_restart r of
        None \<Rightarrow> (Inr (), res, w)
      | Some svc \<Rightarrow>
          (case restart_service w svc of
             (Inl e, w1) \<Rightarrow> (Inl e, res, w1)
           | (Inr u, w1) \<Rightarrow> (Inr (), add_change res (''Restarted service '' @ svc), w1)))"

definition handle_file_edit ::
  "world \<Rightarrow> remediation \<Rightarrow> execution_result \<Rightarrow> handler_outcome" where
  "handle_file_edit w r res =
     (case file_path r of
        None \<Rightarrow> (Inl (KeyError ''file''), res, w)
      | Some fp \<Rightarrow>
          (case read_text w fp of
             Inl e \<Rightarrow> (Inl e, res, w)
           | Inr content \<Rightarrow>
               (case changes r of
                  None \<Rightarrow> (Inl (KeyError ''changes''), res, w)
                | Some cs \<Rightarrow>
                    (case apply_changes w cs content of
                       Inl e \<Rightarrow> (Inl e, res, w)
                     | Inr new_content \<Rightarrow>
                         (case write_if_changed w fp content new_content res of
                            (Inl e, res1, w1) \<Rightarrow> (Inl e, res1, w1)
                          | (Inr u, res1, w1) \<Rightarrow> restart_if_required w1 r res1)))))"

definition handle_service_config ::
  "world \<Rightarrow> remediation \<Rightarrow> execution_result \<Rightarrow> handler_outcome" where
  "handle_service_config w r res =
     (case handle_file_edit w r res of
        (Inl e, res1, w1) \<Rightarrow> (Inl e, res1, w1)
      | (Inr u, res1, w1) \<Rightarrow>
          (case service r of
             None \<Rightarrow> (Inl (KeyError ''service''), res1, w1)
           | Some svc \<Rightarrow>
               (case enable_service w1 svc of
                  (Inl e, w2) \<Rightarrow> (Inl e, res1, w2)
                | (Inr u', w2) \<Rightarrow> (Inr (), add_change res1 (''Enabled service '' @ svc), w2))))"

text \<open>
  \<open>_update_config_file\<close>, first loop: over the lines read, with \<open>updated_lines\<close>,
  \<open>settings_found\<close> and the change descriptions appended so far.
\<close>

fun update_lines ::
  "string \<Rightarrow> (string \<times> string) list \<Rightarrow> string list
     \<Rightarrow> string list \<times> string set \<times> string list
     \<Rightarrow> string list \<times> string set \<times> string list" where
  "update_lines fp st [] acc = acc"
| "update_lines fp st (raw_line # rest) (updated_lines, settings_found, msgs) =
     (let line = py_strip raw_line
      in if CHR ''='' \<in> set line
         then (let key = py_strip (takeWhile (\<lambda>c. c \<noteq> CHR ''='') line)
               in case map_of st key of
                    Some v \<Rightarrow>
                      update_lines fp st rest
                        (updated_lines @ [key @ '' = '' @ v], insert key settings_found,
                         msgs @ [''Updated '' @ key @ '' in '' @ fp])
                  | None \<Rightarrow>
                      update_lines fp st rest (updated_lines @ [line], settings_found, msgs))
         else update_lines fp st rest (updated_lines @ [line], settings_found, msgs))"

text \<open>Second loop: over \<open>settings.items()\<close>, adding what the first loop did not find.\<close>

fun add_missing ::
  "string \<Rightarrow> string set \<Rightarrow> (string \<times> string) list
     \<Rightarrow> string list \<times> string list \<Rightarrow> string list \<times> string list" where
  "add_missing fp settings_found [] acc = acc"
| "add_missing fp settings_found ((key, v) # rest) (updated_lines, msgs) =
     (if key \<notin> settings_found
      then add_missing fp settings_found rest
             (updated_lines @ [key @ '' = '' @ v], msgs @ [''Added '' @ key @ '' to '' @ fp])
      else add_missing fp settings_found rest (updated_lines, msgs))"

definition update_config_file ::
  "world \<Rightarrow> string \<Rightarrow> (string \<times> string) list \<Rightarrow> execution_result \<Rightarrow> handler_outcome" where
  "update_config_file w fp st res =
     (case read_text w fp of
        Inl e \<Rightarrow> (Inl e, res, w)
      | Inr content \<Rightarrow>
          (case update_lines fp st (readlines content) ([], {}, []) of
             (updated_lines, settings_found, msgs) \<Rightarrow>
               (case add_missing fp settings_found st (updated_lines, msgs) of
                  (updated_lines', msgs') \<Rightarrow>
                    (case write_text w fp (py_join [LF] updated_lines') of
                       (Inl e, w1) \<Rightarrow>
                         (Inl e, res\<lparr>changes_made := changes_made res @ msgs'\<rparr>, w1)
                     | (Inr u, w1) \<Rightarrow>
                         (Inr (), res\<lparr>changes_made := changes_made res @ msgs'\<rparr>, w1)))))"

definition handle_package_installation ::
  "world \<Rightarrow> remediation \<Rightarrow> execution_result \<Rightarrow> handler_outcome" where
  "handle_package_installation w r res =
     (case package r of
        None \<Rightarrow> (Inl (KeyError ''package''), res, w)
      | Some pkg \<Rightarrow>
          (case run_apt_get w pkg of
             (Inl e, w1) \<Rightarrow> (Inl e, res, w1)
           | (Inr (returncode, stderr), w1) \<Rightarrow>
               if returncode \<noteq> 0
               then (Inl (Exception (''Failed to install package '' @ pkg @ '': '' @ stderr)),
                     res, w1)
               else (let res1 = add_change res (''Installed package '' @ pkg)
                     in case (config_file r, settings r) of
                          (Some cf, Some st) \<Rightarrow> update_config_file w1 cf st res1
                        | _ \<Rightarrow> (Inr (), res1, w1))))"

subsection \<open>Backup and restore\<close>

definition backup_dir :: string where
  "backup_dir = ''/var/lib/stig-agent/backups''"

text \<open>\<open>os.path.basename\<close>: what follows the last slash.\<close>

definition basename :: "string \<Rightarrow> string" where
  "basename p = rev (takeWhile (\<lambda>c. c \<noteq> CHR ''/'') (rev p))"

text \<open>The file \<open>_create_backup\<close> copies: \<open>config_file\<close> if the key is there, else \<open>file\<close>.\<close>

definition backup_source :: "remediation \<Rightarrow> string option" where
  "backup_source r =
     (case config_file r of
        Some cf \<Rightarrow> Some cf
      | None \<Rightarrow> file_path r)"

definition backup_path_for :: "string \<Rightarrow> datetime \<Rightarrow> string" where
  "backup_path_for source t = backup_dir @ ''/'' @ basename source @ ''.'' @ ymd_hms t @ ''.bak''"

definition create_backup :: "world \<Rightarrow> remediation \<Rightarrow> (py_error + string option) \<times> world" where
  "create_backup w r =
     (case backup_source r of
        None \<Rightarrow> (Inr None, w)
      | Some source \<Rightarrow>
          if \<not> path_exists w source then (Inr None, w)
          else (let (t, w1) = now w;
                    bp = backup_path_for source t
                in case copy2 w1 source bp of
                     (Inl e, w2) \<Rightarrow> (Inl e, w2)
                   | (Inr u, w2) \<Rightarrow> (Inr (Some bp), w2)))"

text \<open>
  The file \<open>_restore_from_backup\<close> writes:
  \<open>remediation.get("config_file") or remediation.get("file")\<close>, if that is a non-empty
  string.
\<close>

definition restore_target :: "remediation \<Rightarrow> string option" where
  "restore_target r =
     (case (case config_file r of
              Some cf \<Rightarrow> if cf \<noteq> [] then Some cf else file_path r
            | None \<Rightarrow> file_path r) of
        None \<Rightarrow> None
      | Some t \<Rightarrow> if t \<noteq> [] then Some t else None)"

definition restore_from_backup ::
  "world \<Rightarrow> string \<Rightarrow> remediation \<Rightarrow> (py_error + unit) \<times> world" where
  "restore_from_backup w bp r =
     (if bp = [] \<or> \<not> path_exists w bp then (Inr (), w)
      else (case restore_target r of
              None \<Rightarrow> (Inr (), w)
            | Some target \<Rightarrow> copy2 w bp target))"

subsection \<open>Executing an item and a plan\<close>

definition initial_result :: "plan_item \<Rightarrow> execution_result" where
  "initial_result item =
     \<lparr>res_finding_id = finding_id item, res_title = item_title item, res_status = ''failed'',
      changes_made = [], backup_path = None, res_error = None\<rparr>"

text \<open>The \<open>if\<close>/\<open>elif\<close> chain on \<open>remediation["type"]\<close>; no \<open>else\<close>.\<close>

definition apply_remediation ::
  "world \<Rightarrow> remediation \<Rightarrow> execution_result \<Rightarrow> handler_outcome" where
  "apply_remediation w r res =
     (if rtype r = ''package_install'' then handle_package_installation w r res
      else if rtype r = ''file_edit'' then handle_file_edit w r res
      else if rtype r = ''service_config'' then handle_service_config w r res
      else (Inr (), res, w))"

text \<open>
  The \<open>try\<close> block of \<open>_execute_remediation_item\<close> up to, and without,
  \<open>result["status"] = "success"\<close>.
\<close>

definition try_remediation ::
  "world \<Rightarrow> remediation \<Rightarrow> execution_result \<Rightarrow> handler_outcome" where
  "try_remediation w r res =
     (if backup_required r = Some True
      then (case create_backup w r of
              (Inl e, w1) \<Rightarrow> (Inl e, res, w1)
            | (Inr bp, w1) \<Rightarrow> apply_remediation w1 r (res\<lparr>backup_path := bp\<rparr>))
      else apply_remediation w r res)"

text \<open>
  \<open>_execute_remediation_item\<close>. An exception of the \<open>try\<close> block is caught; one raised by
  \<open>_restore_from_backup\<close> inside the handler leaves the function.
\<close>

definition execute_remediation_item ::
  "world \<Rightarrow> plan_item \<Rightarrow> (py_error + execution_result) \<times> world" where
  "execute_remediation_item w item =
     (case try_remediation w (item_remediation item) (initial_result item) of
        (Inr u, res, w1) \<Rightarrow> (Inr (res\<lparr>res_status := ''success''\<rparr>), w1)
      | (Inl e, res, w1) \<Rightarrow>
          (let res1 = res\<lparr>res_error := Some (py_str e)\<rparr>
           in case backup_path res1 of
                None \<Rightarrow> (Inr res1, w1)
              | Some bp \<Rightarrow>
                  if bp = [] then (Inr res1, w1)
                  else (case restore_from_backup w1 bp (item_remediation item) of
                          (Inl e', w2) \<Rightarrow> (Inl e', w2)
                        | (Inr u, w2) \<Rightarrow> (Inr res1, w2))))"

text \<open>
  The loop of \<open>execute_plan\<close>: \<open>acc\<close> is \<open>execution_results["items"]\<close>. An exception that
  leaves an item ends the loop; the results appended so far stay.
\<close>

fun execute_items ::
  "world \<Rightarrow> plan_item list \<Rightarrow> string list \<Rightarrow> execution_result list
     \<Rightarrow> py_error option \<times> execution_result list \<times> world" where
  "execute_items w [] approved_items acc = (None, acc, w)"
| "execute_items w (item # rest) approved_items acc =
     (if finding_id item \<in> set approved_items
      then (case execute_remediation_item w item of
              (Inl e, w1) \<Rightarrow> (Some e, acc, w1)
            | (Inr res, w1) \<Rightarrow> execute_items w1 rest approved_items (acc @ [res]))
      else execute_items w rest approved_items acc)"

definition execute_plan ::
  "world \<Rightarrow> string \<Rightarrow> string list \<Rightarrow> (py_error + execution) \<times> world" where
  "execute_plan w pid approved_items =
     (case get_remediation_plan w pid of
        None \<Rightarrow> (Inl (ValueError (''Plan '' @ pid @ '' not found'')), w)
      | Some p \<Rightarrow>
          (let (t, w0) = now w;
               ex0 = \<lparr>exec_plan_id = pid, exec_timestamp = isoformat t, exec_items = [],
                      exec_status = ''in_progress'', exec_error = None\<rparr>
           in case execute_items w0 (items p) approved_items [] of
                (raised, results, w1) \<Rightarrow>
                  (let ex1 = (case raised of
                                None \<Rightarrow> ex0\<lparr>exec_items := results, exec_status := ''completed''\<rparr>
                              | Some e \<Rightarrow> ex0\<lparr>exec_items := results, exec_status := ''failed'',
                                               exec_error := Some (py_str e)\<rparr>)
                   in case store_remediation_execution w1 ex1 of
                        (Inl e, w2) \<Rightarrow> (Inl e, w2)
                      | (Inr eid, w2) \<Rightarrow>
                          (Inr ex1, update_remediation_status w2 pid (exec_status ex1)))))"


section \<open>SecurityConfigScanner\<close>

text \<open>
  Each sub-check reads one file inside \<open>try\<close>; whatever the read raises is turned into a
  finding by the \<open>except\<close> branch.
\<close>

definition check_password_policy :: "world \<Rightarrow> finding list" where
  "check_password_policy w =
     (case read_text w ''/etc/pam.d/common-password'' of
        Inr pam_config \<Rightarrow>
          (if \<not> str_contains ''pam_pwquality.so'' pam_config
           then [\<lparr>severity = ''high'', rule_id = ''V-72427'',
                  title = ''Password Quality Requirements'', status = ''failed'',
                  description = ''Password quality requirements are not properly configured.'',
                  fix_text = ''Install and configure pam_pwquality module.'',
                  check_type = ''password_policy''\<rparr>]
           else [])
      | Inl e \<Rightarrow>
          [\<lparr>severity = ''error'', rule_id = ''CHECK-ERROR'',
            title = ''Password Policy Check Error'', status = ''error'',
            description = ''Error checking password policy: '' @ py_str e,
            fix_text = ''Ensure proper permissions to read PAM configuration.'',
            check_type = ''password_policy''\<rparr>])"

definition check_ssh_config :: "world \<Rightarrow> finding list" where
  "check_ssh_config w =
     (case read_text w ''/etc/ssh/sshd_config'' of
        Inr ssh_config \<Rightarrow>
          (if \<not> str_contains ''Protocol 2'' ssh_config
           then [\<lparr>severity = ''high'', rule_id = ''V-72433'',
                  title = ''SSH Protocol Version'', status = ''failed'',
                  description = ''SSH must be configured to use Protocol version 2.'',
                  fix_text = ''Set '' @ [CHR 0x22] @ ''Protocol 2'' @ [CHR 0x22]
                             @ '' in /etc/ssh/sshd_config'',
                  check_type = ''ssh_config''\<rparr>]
           else [])
          @ (if str_contains ''PermitRootLogin yes'' ssh_config
             then [\<lparr>severity = ''high'', rule_id = ''V-72435'',
                    title = ''SSH Root Login'', status = ''failed'',
                    description = ''Direct root login via SSH must be disabled.'',
                    fix_text = ''Set '' @ [CHR 0x22] @ ''PermitRootLogin no'' @ [CHR 0x22]
                               @ '' in /etc/ssh/sshd_config'',
                    check_type = ''ssh_config''\<rparr>]
             else [])
      | Inl e \<Rightarrow>
          [\<lparr>severity = ''error'', rule_id = ''CHECK-ERROR'',
            title = ''SSH Configuration Check Error'', status = ''error'',
            description = ''Error checking SSH configuration: '' @ py_str e,
            fix_text = ''Ensure proper permissions to read SSH configuration.'',
            check_type = ''ssh_config''\<rparr>])"

definition check_system_security :: "world \<Rightarrow> finding list" where
  "check_system_security w =
     (case read_text w ''/etc/security/limits.conf'' of
        Inr limits_config \<Rightarrow>
          (if \<not> str_contains ''*     hard    core    0'' limits_config
           then [\<lparr>severity = ''medium'', rule_id = ''V-72439'',
                  title = ''Core Dumps'', status = ''failed'',
                  description = ''Core dumps must be disabled for all users.'',
                  fix_text = ''Add '' @ [CHR 0x22] @ ''*     hard    core    0'' @ [CHR 0x22]
                             @ '' to /etc/security/limits.conf'',
                  check_type = ''system_security''\<rparr>]
           else [])
      | Inl e \<Rightarrow>
          [\<lparr>severity = ''error'', rule_id = ''CHECK-ERROR'',
            title = ''System Security Check Error'', status = ''error'',
            description = ''Error checking system security settings: '' @ py_str e,
            fix_text = ''Ensure proper permissions to read system configuration files.'',
            check_type = ''system_security''\<rparr>])"

definition scan :: "world \<Rightarrow> finding list" where
  "scan w = check_password_policy w @ check_ssh_config w @ check_system_security w"


section \<open>Example hosts\<close>

definition example_clock :: "nat \<Rightarrow> datetime" where
  "example_clock n =
     \<lparr>year = 2024, month = 1, day = 1, hour = 12, minute = 0, second = 0, microsecond = 0\<rparr>"

text \<open>
  A host with no files, where every path is writable, every program starts, \<open>apt-get\<close>
  succeeds and touches no file, and the store is empty.
\<close>

definition empty_host :: world where
  "empty_host =
     \<lparr>files = Map.empty, unwritable = (\<lambda>p. False),
      apt_get_install = (\<lambda>pkg fs. (0, [], fs)), spawnable = (\<lambda>prog. True),
      re_other = (\<lambda>pat. Inl (ReError ''unsupported pattern'')),
      clock = example_clock, ticks = 0,
      remediation_plans = Map.empty, remediation_history = Map.empty, trace = []\<rparr>"

definition sshd_config :: string where
  "sshd_config = ''/etc/ssh/sshd_config''"

definition failed_finding :: "string \<Rightarrow> finding" where
  "failed_finding rid =
     \<lparr>severity = ''high'', rule_id = rid, title = ''Finding '' @ rid, status = ''failed'',
      description = [], fix_text = [], check_type = ''ssh_config''\<rparr>"


section \<open>The planner: one item per remediable finding\<close>

text \<open>
  What the specification says of \<open>create_plan\<close>, in its own words: the item a finding
  yields, if any; the findings that yield one; and the identifier the store gives the
  next plan of a scan.
\<close>

definition plan_item_for :: "finding \<Rightarrow> plan_item option" where
  "plan_item_for f =
     (if status f = ''failed'' then map_option (make_plan_item f) (remediation_map (rule_id f))
      else None)"

definition remediable :: "finding \<Rightarrow> bool" where
  "remediable f = (status f = ''failed'' \<and> remediation_map (rule_id f) \<noteq> None)"

definition next_plan_id :: "world \<Rightarrow> string \<Rightarrow> string" where
  "next_plan_id w sid = ''plan_'' @ ymd_hms (clock w (Suc (ticks w))) @ ''_'' @ sid"

definition example_findings :: "finding list" where
  "example_findings =
     [failed_finding ''V-72435'', failed_finding ''V-99999'',
      (failed_finding ''V-72433'')\<lparr>status := ''passed''\<rparr>, failed_finding ''V-72433'']"

lemma create_plan_items_acc:
  "create_plan_items fs acc = acc @ List.map_filter plan_item_for fs"
  by (induction fs arbitrary: acc)
     (auto simp: plan_item_for_def get_remediation_steps_def split: option.splits)

lemma map_filter_ids:
  "map finding_id (List.map_filter plan_item_for fs) = map rule_id (filter remediable fs)"
  by (induction fs)
     (auto simp: plan_item_for_def remediable_def make_plan_item_def split: option.splits)

lemma create_plan_outcome:
  "(case create_plan w sr of
      (Inr p, w') \<Rightarrow> items p = create_plan_items (findings sr) []
    | (Inl e, w') \<Rightarrow> (\<exists>m. e = IntegrityError m))"
  by (auto simp: create_plan_def store_remediation_plan_def now_def Let_def split: option.splits prod.splits sum.splits)

lemma create_plan_returns:
  assumes "sr_scan_id sr = Some sid"
    and "remediation_plans w (next_plan_id w sid) = None"
  shows "\<exists>p w'. create_plan w sr = (Inr p, w') \<and> items p = create_plan_items (findings sr) []
     \<and> map_option row_items (remediation_plans w' (next_plan_id w sid)) = Some (items p)
     \<and> map_option row_status (remediation_plans w' (next_plan_id w sid)) = Some ''pending''"
  using assms
  by (auto simp: create_plan_def store_remediation_plan_def now_def Let_def next_plan_id_def split: option.splits prod.splits sum.splits)

text \<open>
  C3. The items of a plan are exactly one item for each finding whose status is
  \<open>"failed"\<close> and whose rule is in the catalog, in the order of the findings; a failed
  finding with an unknown rule and a finding with another status yield nothing. This holds
  of the list the loop builds, of every plan \<open>create_plan\<close> returns, and of the row it
  stores. \<open>create_plan\<close> raises nothing but the store's \<open>IntegrityError\<close>, and returns
  when the scan has an identifier and the store does not hold the new plan's identifier.
\<close>

theorem create_plan_one_item_per_remediable_finding:
  "create_plan_items fs [] = List.map_filter plan_item_for fs
   \<and> map finding_id (create_plan_items fs []) = map rule_id (filter remediable fs)
   \<and> (case create_plan w sr of
         (Inr p, w') \<Rightarrow> items p = create_plan_items (findings sr) []
       | (Inl e, w') \<Rightarrow> (\<exists>m. e = IntegrityError m))
   \<and> (sr_scan_id sr = Some sid \<and> remediation_plans w (next_plan_id w sid) = None
        \<longrightarrow> (\<exists>p w'. create_plan w sr = (Inr p, w')
               \<and> items p = create_plan_items (findings sr) []
               \<and> map_option row_items (remediation_plans w' (next_plan_id w sid)) = Some (items p)))"
proof -
  have "create_plan_items fs [] = List.map_filter plan_item_for fs"
    by (simp add: create_plan_items_acc)
  moreover have "map finding_id (create_plan_items fs []) = map rule_id (filter remediable fs)"
    by (simp add: create_plan_items_acc map_filter_ids)
  moreover note create_plan_outcome [where w = w and sr = sr]
  moreover have "sr_scan_id sr = Some sid \<and> remediation_plans w (next_plan_id w sid) = None
        \<longrightarrow> (\<exists>p w'. create_plan w sr = (Inr p, w')
               \<and> items p = create_plan_items (findings sr) []
               \<and> map_option row_items (remediation_plans w' (next_plan_id w sid)) = Some (items p))"
    using create_plan_returns [where w = w and sr = sr and sid = sid] by blast
  ultimately show ?thesis by blast
qed

lemma remediation_map_simps:
  "remediation_map ''V-72427'' = Some V_72427"
  "remediation_map ''V-72433'' = Some V_72433"
  "remediation_map ''V-72435'' = Some V_72435"
  "remediation_map ''V-99999'' = None"
  by (simp_all add: remediation_map_def)

theorem create_plan_one_item_per_remediable_finding_witness:
  "map finding_id (create_plan_items example_findings []) = [''V-72435'', ''V-72433'']
   \<and> (\<exists>p w'. create_plan empty_host \<lparr>sr_scan_id = Some ''scan_1'', findings = example_findings\<rparr>
                 = (Inr p, w')
        \<and> map finding_id (items p) = [''V-72435'', ''V-72433''])"
proof -
  let ?sr = "\<lparr>sr_scan_id = Some ''scan_1'', findings = example_findings\<rparr>"
  have ids: "map rule_id (filter remediable example_findings) = [''V-72435'', ''V-72433'']"
    by (simp add: example_findings_def remediable_def failed_finding_def remediation_map_simps)
  have h: "sr_scan_id ?sr = Some ''scan_1''
           \<and> remediation_plans empty_host (next_plan_id empty_host ''scan_1'') = None"
    by (simp add: empty_host_def)
  note inst = create_plan_one_item_per_remediable_finding
         [where fs = example_findings and w = empty_host and sr = ?sr and sid = "''scan_1''"]
  from inst have "map finding_id (create_plan_items example_findings [])
                  = map rule_id (filter remediable example_findings)"
    by blast
  with ids have a: "map finding_id (create_plan_items example_findings [])
                    = [''V-72435'', ''V-72433'']"
    by simp
  from inst h obtain p w' where p: "create_plan empty_host ?sr = (Inr p, w')"
      "items p = create_plan_items (findings ?sr) []"
    by blast
  from p a have b: "map finding_id (items p) = [''V-72435'', ''V-72433'']"
    by simp
  from p(1) b have "create_plan empty_host ?sr = (Inr p, w')
                    \<and> map finding_id (items p) = [''V-72435'', ''V-72433'']"
    by (rule conjI)
  then have "\<exists>p w'. create_plan empty_host ?sr = (Inr p, w')
                    \<and> map finding_id (items p) = [''V-72435'', ''V-72433'']"
    by (intro exI)
  with a show ?thesis by (rule conjI)
qed



section \<open>What running items leaves alone\<close>

text \<open>
  The events of the host, as opposed to those of the store; and the relation between a
  world and a later one when only the host was touched: both tables, the environment and
  the clock are as before, the clock was read some more times, and the trace grew by host
  events only.
\<close>

fun host_event :: "event \<Rightarrow> bool" where
  "host_event (FileCopied src dst) = True"
| "host_event (FileWritten p s) = True"
| "host_event (Spawned argv) = True"
| "host_event (PlanInserted pid st) = False"
| "host_event (PlanStatusSet pid st) = False"
| "host_event (ExecutionInserted eid st) = False"

definition host_step :: "world \<Rightarrow> world \<Rightarrow> bool" where
  "host_step w w' =
     (remediation_plans w' = remediation_plans w
      \<and> remediation_history w' = remediation_history w
      \<and> unwritable w' = unwritable w \<and> spawnable w' = spawnable w
      \<and> apt_get_install w' = apt_get_install w \<and> re_other w' = re_other w
      \<and> clock w' = clock w \<and> ticks w \<le> ticks w'
      \<and> (\<exists>es. trace w' = trace w @ es \<and> list_all host_event es))"

lemma host_step_refl: "host_step w w"
  by (simp add: host_step_def)

lemma host_step_trans: "host_step w w1 \<Longrightarrow> host_step w1 w2 \<Longrightarrow> host_step w w2"
  by (auto simp: host_step_def)

lemma now_step: "now w = (t, w') \<Longrightarrow> host_step w w'"
  by (auto simp: now_def host_step_def)

lemma write_text_step: "write_text w p s = (r, w') \<Longrightarrow> host_step w w'"
  by (auto simp: write_text_def host_step_def split: if_splits)

lemma copy2_step: "copy2 w src dst = (r, w') \<Longrightarrow> host_step w w'"
  by (auto simp: copy2_def host_step_def lookup_file_def split: if_splits option.splits)

lemma run_apt_get_step: "run_apt_get w pkg = (r, w') \<Longrightarrow> host_step w w'"
  by (auto simp: run_apt_get_def host_step_def split: if_splits prod.splits)

lemma run_systemctl_step: "run_systemctl w verb svc = (r, w') \<Longrightarrow> host_step w w'"
  by (auto simp: run_systemctl_def host_step_def split: if_splits)

lemma write_if_changed_step:
  "write_if_changed w fp c nc res = (r, res', w') \<Longrightarrow> host_step w w'"
  by (auto simp: write_if_changed_def host_step_refl split: if_splits prod.splits sum.splits
           dest: write_text_step)

lemma restart_if_required_step:
  "restart_if_required w rm res = (r, res', w') \<Longrightarrow> host_step w w'"
  by (auto simp: restart_if_required_def restart_service_def host_step_refl
           split: option.splits prod.splits sum.splits dest: run_systemctl_step)

lemma handle_file_edit_step:
  "handle_file_edit w rm res = (r, res', w') \<Longrightarrow> host_step w w'"
  by (auto simp: handle_file_edit_def host_step_refl
           split: option.splits prod.splits sum.splits
           dest!: write_if_changed_step restart_if_required_step intro: host_step_trans)

lemma handle_service_config_step:
  "handle_service_config w rm res = (r, res', w') \<Longrightarrow> host_step w w'"
  by (auto simp: handle_service_config_def enable_service_def host_step_refl
           split: option.splits prod.splits sum.splits
           dest!: handle_file_edit_step run_systemctl_step intro: host_step_trans)

lemma update_config_file_step:
  "update_config_file w fp st res = (r, res', w') \<Longrightarrow> host_step w w'"
  by (auto simp: update_config_file_def host_step_refl
           split: option.splits prod.splits sum.splits
           dest!: write_text_step)

lemma handle_package_installation_step:
  "handle_package_installation w rm res = (r, res', w') \<Longrightarrow> host_step w w'"
  by (auto simp: handle_package_installation_def host_step_refl Let_def
           split: option.splits prod.splits sum.splits if_splits
           dest!: run_apt_get_step update_config_file_step intro: host_step_trans)

lemma apply_remediation_step:
  "apply_remediation w rm res = (r, res', w') \<Longrightarrow> host_step w w'"
  by (auto simp: apply_remediation_def host_step_refl split: if_splits
           dest!: handle_package_installation_step handle_file_edit_step handle_service_config_step)

lemma create_backup_step: "create_backup w rm = (r, w') \<Longrightarrow> host_step w w'"
  by (auto simp: create_backup_def host_step_refl Let_def
           split: option.splits prod.splits sum.splits if_splits
           dest!: now_step copy2_step intro: host_step_trans)

lemma try_remediation_step:
  "try_remediation w rm res = (r, res', w') \<Longrightarrow> host_step w w'"
  by (auto simp: try_remediation_def split: if_splits prod.splits sum.splits
           dest!: create_backup_step apply_remediation_step intro: host_step_trans)

lemma restore_from_backup_step: "restore_from_backup w bp rm = (r, w') \<Longrightarrow> host_step w w'"
  by (auto simp: restore_from_backup_def host_step_refl split: if_splits option.splits
           dest!: copy2_step)

lemma execute_remediation_item_step:
  "execute_remediation_item w item = (r, w') \<Longrightarrow> host_step w w'"
  by (auto simp: execute_remediation_item_def Let_def
           split: if_splits option.splits prod.splits sum.splits
           dest!: try_remediation_step restore_from_backup_step intro: host_step_trans)

lemma execute_items_step:
  "execute_items w its appr acc = (raised, results, w') \<Longrightarrow> host_step w w'"
proof (induction its arbitrary: w acc)
  case Nil
  then show ?case by (simp add: host_step_refl)
next
  case (Cons item rest)
  show ?case
  proof (cases "finding_id item \<in> set appr")
    case False
    with Cons show ?thesis by simp
  next
    case True
    obtain r w1 where ex: "execute_remediation_item w item = (r, w1)"
      by (cases "execute_remediation_item w item")
    then have s1: "host_step w w1" by (rule execute_remediation_item_step)
    show ?thesis
    proof (cases r)
      case (Inl e)
      with True ex Cons.prems have "w' = w1" by simp
      with s1 show ?thesis by simp
    next
      case (Inr res)
      with True ex Cons.prems have "execute_items w1 rest appr (acc @ [res]) = (raised, results, w')"
        by simp
      then have "host_step w1 w'" by (rule Cons.IH)
      with s1 show ?thesis by (rule host_step_trans)
    qed
  qed
qed

lemma execute_items_none_approved:
  "\<forall>i \<in> set its. finding_id i \<notin> set appr \<Longrightarrow> execute_items w its appr acc = (None, acc, w)"
  by (induction its arbitrary: w acc) auto



section \<open>Timestamps and backup paths\<close>

text \<open>
  A timestamp is made of digits and an underscore, so the name of a backup has no slash
  and is longer than the name of the file it copies: a backup path is never the path of
  its source.
\<close>

lemma of_char_digit: "of_char (digit n) = (48 + n mod 10 :: nat)"
  by (simp add: digit_def)

lemma digit_not_slash: "digit n \<noteq> CHR ''/''"
proof
  assume "digit n = CHR ''/''"
  then have "(of_char (digit n) :: nat) = of_char (CHR ''/'')" by simp
  then show False by (simp add: of_char_digit)
qed

lemma no_slash_ymd_hms: "CHR ''/'' \<notin> set (ymd_hms d)"
  using digit_not_slash [symmetric]
  by (auto simp: ymd_hms_def pad2_def pad4_def)

lemma example_ymd_hms: "ymd_hms (example_clock n) = ''20240101_120000''"
  by code_simp

lemma example_isoformat: "isoformat (example_clock n) = ''2024-01-01T12:00:00''"
  by code_simp

lemma basename_no_slash: "CHR ''/'' \<notin> set (basename p)"
  using set_takeWhileD [of "CHR ''/''" "\<lambda>c. c \<noteq> CHR ''/''" "rev p"]
  by (auto simp: basename_def)

lemma basename_append_slash:
  "CHR ''/'' \<notin> set name \<Longrightarrow> basename (d @ ''/'' @ name) = name"
  by (simp add: basename_def takeWhile_append)

lemma backup_path_for_basename:
  "basename (backup_path_for src t) = basename src @ ''.'' @ ymd_hms t @ ''.bak''"
  unfolding backup_path_for_def
  by (rule basename_append_slash) (simp add: basename_no_slash no_slash_ymd_hms)

lemma backup_path_for_neq: "backup_path_for src t \<noteq> src"
proof
  assume "backup_path_for src t = src"
  then have "basename (backup_path_for src t) = basename src" by simp
  then show False by (simp add: backup_path_for_basename)
qed

lemma backup_path_for_nonempty: "backup_path_for src t \<noteq> []"
  by (simp add: backup_path_for_def backup_dir_def)



section \<open>The store after a run\<close>

text \<open>
  The identifier \<open>store_remediation_execution\<close> gives an execution stored in a world, and
  the persisted status of a plan.
\<close>

definition next_execution_id :: "world \<Rightarrow> string \<Rightarrow> string" where
  "next_execution_id w pid = ''exec_'' @ ymd_hms (clock w (ticks w)) @ ''_'' @ pid"

definition plan_status :: "world \<Rightarrow> string \<Rightarrow> string option" where
  "plan_status w pid = map_option row_status (remediation_plans w pid)"

lemma get_remediation_plan_Some:
  "get_remediation_plan w pid = Some p \<Longrightarrow>
     \<exists>row. remediation_plans w pid = Some row \<and> items p = row_items row"
  by (auto simp: get_remediation_plan_def split: option.splits)

lemma store_remediation_execution_fresh:
  assumes "remediation_history w (next_execution_id w (exec_plan_id ex)) = None"
  shows "\<exists>w'. store_remediation_execution w ex = (Inr (next_execution_id w (exec_plan_id ex)), w')
           \<and> files w' = files w \<and> remediation_plans w' = remediation_plans w
           \<and> trace w' = trace w @ [ExecutionInserted (next_execution_id w (exec_plan_id ex))
                                      (exec_status ex)]"
  using assms
  by (simp add: store_remediation_execution_def now_def next_execution_id_def Let_def)

lemma store_remediation_execution_taken:
  assumes "remediation_history w (next_execution_id w (exec_plan_id ex)) \<noteq> None"
  shows "\<exists>w'. store_remediation_execution w ex
             = (Inl (IntegrityError ''UNIQUE constraint failed: remediation_history.execution_id''), w')
           \<and> files w' = files w \<and> remediation_plans w' = remediation_plans w
           \<and> trace w' = trace w"
  using assms
  by (simp add: store_remediation_execution_def now_def next_execution_id_def Let_def)

lemma update_remediation_status_row:
  "remediation_plans w pid = Some row \<Longrightarrow>
     plan_status (update_remediation_status w pid st) pid = Some st
     \<and> files (update_remediation_status w pid st) = files w
     \<and> trace (update_remediation_status w pid st) = trace w @ [PlanStatusSet pid st]"
  by (simp add: update_remediation_status_def plan_status_def)

text \<open>The Execution that \<open>execute_plan\<close> builds from the outcome of its loop.\<close>

definition execution_of ::
  "world \<Rightarrow> string \<Rightarrow> py_error option \<Rightarrow> execution_result list \<Rightarrow> execution" where
  "execution_of w pid raised results =
     \<lparr>exec_plan_id = pid, exec_timestamp = isoformat (clock w (ticks w)), exec_items = results,
      exec_status = (if raised = None then ''completed'' else ''failed''),
      exec_error = map_option py_str raised\<rparr>"

lemma execute_plan_unfold:
  assumes plan: "get_remediation_plan w pid = Some p"
    and loop: "execute_items (snd (now w)) (items p) approved [] = (raised, results, w1)"
  shows "execute_plan w pid approved =
           (case store_remediation_execution w1 (execution_of w pid raised results) of
              (Inl e, w2) \<Rightarrow> (Inl e, w2)
            | (Inr eid, w2) \<Rightarrow>
                (Inr (execution_of w pid raised results),
                 update_remediation_status w2 pid
                   (exec_status (execution_of w pid raised results))))"
proof -
  from loop have "execute_items (w\<lparr>ticks := Suc (ticks w)\<rparr>) (items p) approved []
                  = (raised, results, w1)"
    by (simp add: now_def)
  with plan show ?thesis
    by (cases raised)
       (auto simp: execute_plan_def execution_of_def now_def Let_def
             split: prod.splits sum.splits)
qed

lemma execute_plan_returns:
  assumes plan: "get_remediation_plan w pid = Some p"
    and loop: "execute_items (snd (now w)) (items p) approved [] = (raised, results, w1)"
    and fresh: "remediation_history w1 (next_execution_id w1 pid) = None"
  shows "\<exists>w'. execute_plan w pid approved = (Inr (execution_of w pid raised results), w')
           \<and> plan_status w' pid = Some (if raised = None then ''completed'' else ''failed'')
           \<and> files w' = files w1
           \<and> trace w' = trace w1 @
                [ExecutionInserted (next_execution_id w1 pid)
                   (if raised = None then ''completed'' else ''failed''),
                 PlanStatusSet pid (if raised = None then ''completed'' else ''failed'')]"
proof -
  let ?ex = "execution_of w pid raised results"
  let ?st = "if raised = None then ''completed'' else ''failed''"
  have st: "exec_status ?ex = ?st" and pid: "exec_plan_id ?ex = pid"
    by (simp_all add: execution_of_def)
  from plan obtain row where row: "remediation_plans w pid = Some row"
    by (auto dest: get_remediation_plan_Some)
  have "host_step w (snd (now w))" by (rule now_step [of w "fst (now w)"]) simp
  moreover from loop have "host_step (snd (now w)) w1" by (rule execute_items_step)
  ultimately have "host_step w w1" by (rule host_step_trans)
  then have plans1: "remediation_plans w1 = remediation_plans w" by (simp add: host_step_def)
  from fresh pid obtain w2 where
    store: "store_remediation_execution w1 ?ex = (Inr (next_execution_id w1 pid), w2)"
    and w2: "files w2 = files w1" "remediation_plans w2 = remediation_plans w1"
      "trace w2 = trace w1 @ [ExecutionInserted (next_execution_id w1 pid) (exec_status ?ex)]"
    using store_remediation_execution_fresh [of w1 ?ex] by auto
  from row plans1 w2 have row2: "remediation_plans w2 pid = Some row" by simp
  have ex: "execute_plan w pid approved = (Inr ?ex, update_remediation_status w2 pid ?st)"
    using execute_plan_unfold [OF plan loop] store st by simp
  from update_remediation_status_row [OF row2, of ?st] w2 st
  have "plan_status (update_remediation_status w2 pid ?st) pid = Some ?st
        \<and> files (update_remediation_status w2 pid ?st) = files w1
        \<and> trace (update_remediation_status w2 pid ?st) = trace w1 @
             [ExecutionInserted (next_execution_id w1 pid) ?st, PlanStatusSet pid ?st]"
    by simp
  with ex show ?thesis by blast
qed




section \<open>What a handler does to the result\<close>

text \<open>A handler appends change descriptions to the result and changes nothing else of it.\<close>

definition only_changes_added :: "execution_result \<Rightarrow> execution_result \<Rightarrow> bool" where
  "only_changes_added res res' =
     (\<exists>ms. res' = res\<lparr>changes_made := changes_made res @ ms\<rparr>)"

lemma only_changes_added_refl: "only_changes_added res res"
  unfolding only_changes_added_def by (rule exI [of _ "[]"]) simp

lemma only_changes_added_trans:
  "only_changes_added a b \<Longrightarrow> only_changes_added b c \<Longrightarrow> only_changes_added a c"
  by (auto simp: only_changes_added_def)

lemma only_changes_added_add_change: "only_changes_added res (add_change res m)"
  by (auto simp: only_changes_added_def add_change_def)

lemma only_changes_added_append:
  "only_changes_added res (res\<lparr>changes_made := changes_made res @ ms\<rparr>)"
  by (auto simp: only_changes_added_def)

lemma only_changes_added_backup_path:
  "only_changes_added res res' \<Longrightarrow> backup_path res' = backup_path res"
  by (auto simp: only_changes_added_def)

lemma write_if_changed_result:
  "write_if_changed w fp c nc res = (r, res', w') \<Longrightarrow> only_changes_added res res'"
  by (auto simp: write_if_changed_def only_changes_added_refl only_changes_added_add_change
           split: if_splits prod.splits sum.splits)

lemma restart_if_required_result:
  "restart_if_required w rm res = (r, res', w') \<Longrightarrow> only_changes_added res res'"
  by (auto simp: restart_if_required_def only_changes_added_refl only_changes_added_add_change
           split: option.splits prod.splits sum.splits)

lemma handle_file_edit_result:
  "handle_file_edit w rm res = (r, res', w') \<Longrightarrow> only_changes_added res res'"
  by (auto simp: handle_file_edit_def only_changes_added_refl
           split: option.splits prod.splits sum.splits
           dest!: write_if_changed_result restart_if_required_result
           intro: only_changes_added_trans)

lemma handle_service_config_result:
  "handle_service_config w rm res = (r, res', w') \<Longrightarrow> only_changes_added res res'"
  by (auto simp: handle_service_config_def only_changes_added_refl
           split: option.splits prod.splits sum.splits
           dest!: handle_file_edit_result
           intro: only_changes_added_trans only_changes_added_add_change)

lemma update_config_file_result:
  "update_config_file w fp st res = (r, res', w') \<Longrightarrow> only_changes_added res res'"
  by (auto simp: update_config_file_def only_changes_added_refl only_changes_added_append
           split: option.splits prod.splits sum.splits)

lemma handle_package_installation_result:
  "handle_package_installation w rm res = (r, res', w') \<Longrightarrow> only_changes_added res res'"
  by (auto simp: handle_package_installation_def only_changes_added_refl Let_def
           split: option.splits prod.splits sum.splits if_splits
           dest!: update_config_file_result
           intro: only_changes_added_trans only_changes_added_add_change)

lemma apply_remediation_result:
  "apply_remediation w rm res = (r, res', w') \<Longrightarrow> only_changes_added res res'"
  by (auto simp: apply_remediation_def only_changes_added_refl split: if_splits
           dest!: handle_package_installation_result handle_file_edit_result
                  handle_service_config_result)




section \<open>Copying, backing up\<close>

lemma copy2_ok:
  assumes "copy2 w src dst = (Inr u, w')"
  shows "\<exists>c. lookup_file w src = Some c \<and> dst \<noteq> [] \<and> src \<noteq> dst \<and> \<not> unwritable w dst
           \<and> w' = w\<lparr>files := (files w)(dst \<mapsto> c), trace := trace w @ [FileCopied src dst]\<rparr>"
proof (cases "lookup_file w src")
  case None
  with assms show ?thesis by (simp add: copy2_def)
next
  case (Some c)
  with assms show ?thesis by (simp add: copy2_def split: if_splits)
qed

lemma copy2_error: "copy2 w src dst = (Inl e, w') \<Longrightarrow> w' = w"
  by (cases "lookup_file w src") (simp_all add: copy2_def split: if_splits)

lemma copy2_succeeds:
  assumes "lookup_file w src = Some c" "dst \<noteq> []" "src \<noteq> dst" "\<not> unwritable w dst"
  shows "copy2 w src dst =
           (Inr (), w\<lparr>files := (files w)(dst \<mapsto> c), trace := trace w @ [FileCopied src dst]\<rparr>)"
  using assms by (simp add: copy2_def)

text \<open>What a backup that was taken tells.\<close>

lemma backup_source_restore_target:
  "backup_source rm = Some src \<Longrightarrow> src \<noteq> [] \<Longrightarrow> restore_target rm = Some src"
  by (cases "config_file rm") (simp_all add: backup_source_def restore_target_def)

lemma create_backup_unfold:
  "backup_source rm = Some src \<Longrightarrow> lookup_file w src = Some c \<Longrightarrow>
   create_backup w rm =
     (case copy2 (w\<lparr>ticks := Suc (ticks w)\<rparr>) src (backup_path_for src (clock w (ticks w))) of
        (Inl e, w2) \<Rightarrow> (Inl e, w2)
      | (Inr u, w2) \<Rightarrow> (Inr (Some (backup_path_for src (clock w (ticks w)))), w2))"
  by (simp add: create_backup_def path_exists_def now_def Let_def)

lemma create_backup_no_source:
  "backup_source rm = None \<Longrightarrow> create_backup w rm = (Inr None, w)"
  by (simp add: create_backup_def)

lemma create_backup_absent:
  "backup_source rm = Some src \<Longrightarrow> lookup_file w src = None \<Longrightarrow>
   create_backup w rm = (Inr None, w)"
  by (simp add: create_backup_def path_exists_def)

lemma lookup_file_tick [simp]: "lookup_file (w\<lparr>ticks := n\<rparr>) p = lookup_file w p"
  by (simp add: lookup_file_def)

lemma create_backup_Some:
  assumes "create_backup w rm = (Inr (Some bp), w')"
  shows "\<exists>src c. backup_source rm = Some src \<and> restore_target rm = Some src
           \<and> lookup_file w src = Some c \<and> bp = backup_path_for src (clock w (ticks w))
           \<and> files w' = (files w)(bp \<mapsto> c) \<and> trace w' = trace w @ [FileCopied src bp]"
proof (cases "backup_source rm")
  case None
  with assms show ?thesis by (simp add: create_backup_no_source)
next
  case (Some src)
  show ?thesis
  proof (cases "lookup_file w src")
    case None
    with Some assms show ?thesis by (simp add: create_backup_absent)
  next
    case c: (Some c)
    let ?bp = "backup_path_for src (clock w (ticks w))"
    let ?w1 = "w\<lparr>ticks := Suc (ticks w)\<rparr>"
    obtain r w2 where cp: "copy2 ?w1 src ?bp = (r, w2)" by (cases "copy2 ?w1 src ?bp")
    from assms Some c cp obtain u where r: "r = Inr u" and bp: "bp = ?bp" and w': "w' = w2"
      by (cases r) (simp_all add: create_backup_unfold)
    from cp r have "w2 = ?w1\<lparr>files := (files ?w1)(?bp \<mapsto> c),
                              trace := trace ?w1 @ [FileCopied src ?bp]\<rparr>"
      using copy2_ok [of ?w1 src ?bp u w2] c by simp
    moreover from c have "src \<noteq> []" by (auto simp: lookup_file_def split: if_splits)
    ultimately show ?thesis
      using Some c bp w' by (simp add: backup_source_restore_target)
  qed
qed

lemma create_backup_None:
  assumes "create_backup w rm = (Inr None, w')"
  shows "w' = w \<and> (case backup_source rm of None \<Rightarrow> True | Some src \<Rightarrow> lookup_file w src = None)"
proof (cases "backup_source rm")
  case None
  with assms show ?thesis by (simp add: create_backup_no_source)
next
  case (Some src)
  show ?thesis
  proof (cases "lookup_file w src")
    case None
    with Some assms show ?thesis by (simp add: create_backup_absent)
  next
    case c: (Some c)
    with Some assms show ?thesis
      by (simp add: create_backup_unfold split: prod.splits sum.splits)
  qed
qed

lemma create_backup_error:
  assumes "create_backup w rm = (Inl e, w')"
  shows "files w' = files w \<and> trace w' = trace w"
proof (cases "backup_source rm")
  case None
  with assms show ?thesis by (simp add: create_backup_no_source)
next
  case (Some src)
  show ?thesis
  proof (cases "lookup_file w src")
    case None
    with Some assms show ?thesis by (simp add: create_backup_absent)
  next
    case c: (Some c)
    with Some assms show ?thesis
      by (auto simp: create_backup_unfold split: prod.splits sum.splits dest!: copy2_error)
  qed
qed



section \<open>Restoring, and what leaves an item\<close>

lemma restore_from_backup_copies:
  assumes "lookup_file w bp = Some c" "restore_target rm = Some target" "bp \<noteq> target"
    "\<not> unwritable w target"
  shows "restore_from_backup w bp rm =
           (Inr (), w\<lparr>files := (files w)(target \<mapsto> c), trace := trace w @ [FileCopied bp target]\<rparr>)"
proof -
  from assms(1) have "bp \<noteq> []" by (auto simp: lookup_file_def split: if_splits)
  moreover from assms(2) have "target \<noteq> []"
    by (auto simp: restore_target_def split: option.splits if_splits)
  ultimately show ?thesis
    using assms by (simp add: restore_from_backup_def path_exists_def copy2_succeeds)
qed

lemma restore_from_backup_raises:
  assumes "restore_from_backup w bp rm = (Inl e, w')"
  shows "w' = w \<and> (\<exists>target. restore_target rm = Some target
                      \<and> (bp = target \<or> (unwritable w target \<and> e = PermissionError target)))"
proof (cases "bp = [] \<or> \<not> path_exists w bp")
  case True
  with assms show ?thesis by (simp add: restore_from_backup_def)
next
  case False
  then obtain c where c: "lookup_file w bp = Some c" by (auto simp: path_exists_def)
  show ?thesis
  proof (cases "restore_target rm")
    case None
    with False assms show ?thesis by (simp add: restore_from_backup_def)
  next
    case (Some target)
    then have "target \<noteq> []" by (auto simp: restore_target_def split: option.splits if_splits)
    with False Some assms c show ?thesis
      by (auto simp: restore_from_backup_def copy2_def split: if_splits)
  qed
qed

text \<open>The three ways through the \<open>try\<close> block.\<close>

lemma try_remediation_cases:
  assumes "try_remediation w rm res = (out, res', w')"
  shows "(backup_required rm \<noteq> Some True \<and> apply_remediation w rm res = (out, res', w'))
       \<or> (backup_required rm = Some True
           \<and> (\<exists>e. create_backup w rm = (Inl e, w') \<and> out = Inl e \<and> res' = res))
       \<or> (backup_required rm = Some True
           \<and> (\<exists>bp w1. create_backup w rm = (Inr bp, w1)
                 \<and> apply_remediation w1 rm (res\<lparr>backup_path := bp\<rparr>) = (out, res', w')))"
proof (cases "backup_required rm = Some True")
  case False
  with assms show ?thesis by (simp add: try_remediation_def)
next
  case True
  obtain r w1 where cb: "create_backup w rm = (r, w1)" by (cases "create_backup w rm")
  with True assms show ?thesis by (cases r) (auto simp: try_remediation_def)
qed

lemma try_remediation_backup_path:
  assumes t: "try_remediation w rm res = (out, res', w')"
    and none: "backup_path res = None" and some: "backup_path res' = Some bp"
  shows "\<exists>w1 src c. create_backup w rm = (Inr (Some bp), w1)
           \<and> apply_remediation w1 rm (res\<lparr>backup_path := Some bp\<rparr>) = (out, res', w')
           \<and> backup_source rm = Some src \<and> restore_target rm = Some src
           \<and> lookup_file w src = Some c \<and> bp = backup_path_for src (clock w (ticks w))"
proof -
  from try_remediation_cases [OF t] consider
      (plain) "apply_remediation w rm res = (out, res', w')"
    | (failed) "res' = res"
    | (backed) b w1 where "create_backup w rm = (Inr b, w1)"
        "apply_remediation w1 rm (res\<lparr>backup_path := b\<rparr>) = (out, res', w')"
    by blast
  then show ?thesis
  proof cases
    case plain
    then have "backup_path res' = backup_path res"
      by (auto dest!: apply_remediation_result only_changes_added_backup_path)
    with none some show ?thesis by simp
  next
    case failed
    with none some show ?thesis by simp
  next
    case backed
    from backed(2) have "backup_path res' = b"
      by (auto dest!: apply_remediation_result only_changes_added_backup_path)
    with some have b: "b = Some bp" by simp
    with backed create_backup_Some [of w rm bp w1] show ?thesis by auto
  qed
qed

lemma initial_result_backup_path [simp]: "backup_path (initial_result item) = None"
  by (simp add: initial_result_def)

text \<open>An exception leaves an item only when the restore meets an unwritable target.\<close>

lemma execute_remediation_item_raises:
  assumes "execute_remediation_item w item = (Inl e, w')"
  shows "\<exists>target. restore_target (item_remediation item) = Some target
           \<and> unwritable w target \<and> e = PermissionError target"
proof -
  let ?rm = "item_remediation item"
  obtain out res w1 where t: "try_remediation w ?rm (initial_result item) = (out, res, w1)"
    by (cases "try_remediation w ?rm (initial_result item)")
  from assms t obtain e0 bp where out: "out = Inl e0" and bp: "backup_path res = Some bp"
    and r: "restore_from_backup w1 bp ?rm = (Inl e, w')"
    by (cases out; cases "backup_path res")
       (auto simp: execute_remediation_item_def Let_def split: if_splits prod.splits sum.splits)
  from try_remediation_backup_path [OF t _ bp] obtain src where
    src: "restore_target ?rm = Some src" "bp = backup_path_for src (clock w (ticks w))"
    by auto
  then have "bp \<noteq> src" by (simp add: backup_path_for_neq)
  with restore_from_backup_raises [OF r] src
  have "unwritable w1 src \<and> e = PermissionError src" by auto
  moreover from t have "host_step w w1" by (rule try_remediation_step)
  then have "unwritable w1 = unwritable w" by (simp add: host_step_def)
  ultimately show ?thesis using src by auto
qed

lemma execute_items_raises:
  "execute_items w its appr acc = (Some e, results, w') \<Longrightarrow>
     \<exists>target. unwritable w target \<and> e = PermissionError target"
proof (induction its arbitrary: w acc)
  case Nil
  then show ?case by simp
next
  case (Cons item rest)
  show ?case
  proof (cases "finding_id item \<in> set appr")
    case False
    with Cons show ?thesis by simp
  next
    case True
    obtain r w1 where ex: "execute_remediation_item w item = (r, w1)"
      by (cases "execute_remediation_item w item")
    show ?thesis
    proof (cases r)
      case (Inl e')
      with True ex Cons.prems have "e' = e" by simp
      with Inl ex execute_remediation_item_raises [of w item e w1] show ?thesis by auto
    next
      case (Inr res)
      with True ex Cons.prems have "execute_items w1 rest appr (acc @ [res]) = (Some e, results, w')"
        by simp
      then obtain target where "unwritable w1 target" "e = PermissionError target"
        using Cons.IH by blast
      moreover from ex have "host_step w w1" by (rule execute_remediation_item_step)
      then have "unwritable w1 = unwritable w" by (simp add: host_step_def)
      ultimately show ?thesis by auto
    qed
  qed
qed

lemma execute_items_prefix:
  "execute_items w its appr acc = (raised, results, w') \<Longrightarrow> prefix acc results"
proof (induction its arbitrary: w acc)
  case Nil
  then show ?case by simp
next
  case (Cons item rest)
  show ?case
  proof (cases "finding_id item \<in> set appr")
    case False
    with Cons show ?thesis by simp
  next
    case True
    obtain r w1 where ex: "execute_remediation_item w item = (r, w1)"
      by (cases "execute_remediation_item w item")
    show ?thesis
    proof (cases r)
      case (Inl e')
      with True ex Cons.prems show ?thesis by simp
    next
      case (Inr res)
      with True ex Cons.prems have "execute_items w1 rest appr (acc @ [res]) = (raised, results, w')"
        by simp
      then have "prefix (acc @ [res]) results" by (rule Cons.IH)
      then show ?thesis by (rule append_prefixD)
    qed
  qed
qed



section \<open>The overall status of a run\<close>

text \<open>
  The overall status as the specification words it: \<open>completed\<close> if and only if every
  processed item succeeded, else \<open>failed\<close>.
\<close>

definition spec_overall_status :: "execution_result list \<Rightarrow> string" where
  "spec_overall_status results =
     (if list_all (\<lambda>r. res_status r = ''success'') results then ''completed'' else ''failed'')"

text \<open>A store that holds one pending plan, \<open>plan_1\<close>, on the empty host.\<close>

definition stored_plan_host :: "plan_item list \<Rightarrow> world" where
  "stored_plan_host its =
     empty_host\<lparr>remediation_plans :=
       [''plan_1'' \<mapsto> \<lparr>row_scan_id = ''scan_1'', row_timestamp = ''2024-01-01T12:00:00'',
                        row_items = its, row_status = ''pending''\<rparr>]\<rparr>"

definition item_V_72433 :: plan_item where
  "item_V_72433 = make_plan_item (failed_finding ''V-72433'') V_72433"

definition item_V_72435 :: plan_item where
  "item_V_72435 = make_plan_item (failed_finding ''V-72435'') V_72435"

lemma file_edit_absent:
  assumes "rtype (item_remediation item) = ''file_edit''"
    and "config_file (item_remediation item) = None"
    and "file_path (item_remediation item) = Some fp"
    and "lookup_file w fp = None"
  shows "execute_remediation_item w item =
           (Inr ((initial_result item)\<lparr>res_error := Some (py_str (FileNotFoundError fp))\<rparr>), w)"
  using assms
  by (simp add: execute_remediation_item_def try_remediation_def create_backup_def
        backup_source_def path_exists_def apply_remediation_def handle_file_edit_def
        read_text_def initial_result_def)

lemma item_V_72433_simps:
  "rtype (item_remediation item_V_72433) = ''file_edit''"
  "config_file (item_remediation item_V_72433) = None"
  "file_path (item_remediation item_V_72433) = Some sshd_config"
  "finding_id item_V_72433 = ''V-72433''"
  by (simp_all add: item_V_72433_def make_plan_item_def V_72433_def no_remediation_def
        failed_finding_def sshd_config_def)

lemma stored_plan_host_plan:
  "get_remediation_plan (stored_plan_host its) ''plan_1'' =
     Some \<lparr>scan_id = Some ''scan_1'', items = its, created_at = ''2024-01-01T12:00:00'',
           plan_id = Some ''plan_1''\<rparr>"
  by (simp add: get_remediation_plan_def stored_plan_host_def)

definition absent_file_result :: execution_result where
  "absent_file_result =
     \<lparr>res_finding_id = ''V-72433'', res_title = ''Finding V-72433'', res_status = ''failed'',
      changes_made = [], backup_path = None,
      res_error = Some (py_str (FileNotFoundError sshd_config))\<rparr>"

lemma absent_file_loop:
  "execute_items (snd (now (stored_plan_host [item_V_72433]))) [item_V_72433] [''V-72433''] [] =
     (None, [absent_file_result], snd (now (stored_plan_host [item_V_72433])))"
proof -
  have "lookup_file (snd (now (stored_plan_host [item_V_72433]))) sshd_config = None"
    by (simp add: lookup_file_def now_def stored_plan_host_def empty_host_def)
  moreover have "(initial_result item_V_72433)
                   \<lparr>res_error := Some (py_str (FileNotFoundError sshd_config))\<rparr>
                 = absent_file_result"
    by (simp add: initial_result_def absent_file_result_def item_V_72433_def make_plan_item_def
          failed_finding_def)
  ultimately show ?thesis
    by (simp add: file_edit_absent item_V_72433_simps)
qed

lemma stored_plan_host_no_history:
  "remediation_history (snd (now (stored_plan_host its))) eid = None"
  by (simp add: now_def stored_plan_host_def empty_host_def)

text \<open>
  C1, as stated, fails. The plan holds the \<open>V-72433\<close> item and \<open>/etc/ssh/sshd_config\<close>
  is absent: the item's result is \<open>failed\<close> with no backup path, and the Execution and the
  persisted Plan status are both \<open>completed\<close>, where the specification's rule gives
  \<open>failed\<close>.
\<close>

theorem execute_plan_failed_item_still_completed:
  "fst (execute_plan (stored_plan_host [item_V_72433]) ''plan_1'' [''V-72433''])
     = Inr \<lparr>exec_plan_id = ''plan_1'', exec_timestamp = ''2024-01-01T12:00:00'',
            exec_items = [absent_file_result], exec_status = ''completed'', exec_error = None\<rparr>
   \<and> plan_status (snd (execute_plan (stored_plan_host [item_V_72433]) ''plan_1'' [''V-72433'']))
        ''plan_1'' = Some ''completed''
   \<and> res_status absent_file_result = ''failed''
   \<and> spec_overall_status [absent_file_result] = ''failed''"
proof -
  let ?w = "stored_plan_host [item_V_72433]"
  have plan: "get_remediation_plan ?w ''plan_1'' =
                Some \<lparr>scan_id = Some ''scan_1'', items = [item_V_72433],
                      created_at = ''2024-01-01T12:00:00'', plan_id = Some ''plan_1''\<rparr>"
    by (rule stored_plan_host_plan)
  have loop: "execute_items (snd (now ?w))
                (items \<lparr>scan_id = Some ''scan_1'', items = [item_V_72433],
                        created_at = ''2024-01-01T12:00:00'', plan_id = Some ''plan_1''\<rparr>)
                [''V-72433''] [] = (None, [absent_file_result], snd (now ?w))"
    using absent_file_loop by simp
  have iso: "isoformat (clock ?w (ticks ?w)) = ''2024-01-01T12:00:00''"
    by (simp add: stored_plan_host_def empty_host_def example_isoformat)
  from execute_plan_returns [OF plan loop stored_plan_host_no_history]
  obtain w' where "execute_plan ?w ''plan_1'' [''V-72433'']
                     = (Inr (execution_of ?w ''plan_1'' None [absent_file_result]), w')"
    and "plan_status w' ''plan_1'' = Some ''completed''"
    by auto
  then show ?thesis
    by (simp add: execution_of_def iso absent_file_result_def spec_overall_status_def)
qed


lemma re_compile_multiline_cong:
  assumes "re_other w' = re_other w"
  shows "re_compile_multiline w' pat = re_compile_multiline w pat"
  unfolding re_compile_multiline_def assms by (rule refl)

lemma apply_change_cong:
  assumes "re_other w' = re_other w"
  shows "apply_change w' c s = apply_change w c s"
  unfolding apply_change_def re_compile_multiline_cong [OF assms] by (rule refl)

lemma apply_changes_cong:
  assumes "re_other w' = re_other w"
  shows "apply_changes w' cs s = apply_changes w cs s"
  by (induction cs arbitrary: s) (simp_all add: apply_change_cong [OF assms] split: sum.splits)

lemma create_backup_succeeds:
  assumes "backup_source rm = Some src" "lookup_file w src = Some c"
    and "\<not> unwritable w (backup_path_for src (clock w (ticks w)))"
  shows "create_backup w rm =
           (Inr (Some (backup_path_for src (clock w (ticks w)))),
            w\<lparr>ticks := Suc (ticks w),
              files := (files w)(backup_path_for src (clock w (ticks w)) \<mapsto> c),
              trace := trace w @ [FileCopied src (backup_path_for src (clock w (ticks w)))]\<rparr>)"
proof -
  let ?bp = "backup_path_for src (clock w (ticks w))"
  have "copy2 (w\<lparr>ticks := Suc (ticks w)\<rparr>) src ?bp =
          (Inr (), w\<lparr>ticks := Suc (ticks w)\<rparr>
                     \<lparr>files := (files (w\<lparr>ticks := Suc (ticks w)\<rparr>))(?bp \<mapsto> c),
                      trace := trace (w\<lparr>ticks := Suc (ticks w)\<rparr>) @ [FileCopied src ?bp]\<rparr>)"
    using assms
    by (intro copy2_succeeds) (simp_all add: backup_path_for_nonempty backup_path_for_neq [symmetric])
  with assms show ?thesis by (simp add: create_backup_unfold)
qed


lemma file_edit_unwritable_escapes:
  assumes rm: "rtype (item_remediation item) = ''file_edit''"
      "config_file (item_remediation item) = None"
      "file_path (item_remediation item) = Some fp"
      "backup_required (item_remediation item) = Some True"
      "changes (item_remediation item) = Some cs"
    and there: "lookup_file w fp = Some c"
    and changed: "apply_changes w cs (universal_newlines c) = Inr nc" "nc \<noteq> universal_newlines c"
    and ro: "unwritable w fp" "\<not> unwritable w (backup_path_for fp (clock w (ticks w)))"
  shows "fst (execute_remediation_item w item) = Inl (PermissionError fp)"
proof -
  let ?rm = "item_remediation item"
  let ?bp = "backup_path_for fp (clock w (ticks w))"
  let ?w1 = "w\<lparr>ticks := Suc (ticks w), files := (files w)(?bp \<mapsto> c),
               trace := trace w @ [FileCopied fp ?bp]\<rparr>"
  let ?res1 = "(initial_result item)\<lparr>backup_path := Some ?bp\<rparr>"
  from there have fp: "fp \<noteq> []" by (auto simp: lookup_file_def split: if_splits)
  have src: "backup_source ?rm = Some fp" using rm by (simp add: backup_source_def)
  have tgt: "restore_target ?rm = Some fp" using rm fp by (simp add: restore_target_def)
  have cb: "create_backup w ?rm = (Inr (Some ?bp), ?w1)"
    using src there ro(2) by (rule create_backup_succeeds)
  have neq: "?bp \<noteq> fp" by (rule backup_path_for_neq)
  have read: "read_text ?w1 fp = Inr (universal_newlines c)"
    using there neq fp by (simp add: read_text_def lookup_file_def)
  have ch: "apply_changes ?w1 cs (universal_newlines c) = Inr nc"
    using changed(1) by (simp add: apply_changes_cong [of ?w1 w])
  have wr: "write_if_changed ?w1 fp (universal_newlines c) nc ?res1
              = (Inl (PermissionError fp), ?res1, ?w1)"
    using changed(2) ro(1) fp by (simp add: write_if_changed_def write_text_def)
  have hf: "handle_file_edit ?w1 ?rm ?res1 = (Inl (PermissionError fp), ?res1, ?w1)"
    using rm read ch wr by (simp add: handle_file_edit_def)
  have tr: "try_remediation w ?rm (initial_result item) = (Inl (PermissionError fp), ?res1, ?w1)"
    using rm cb hf by (simp add: try_remediation_def apply_remediation_def)
  have bpfile: "lookup_file ?w1 ?bp = Some c"
    by (simp add: lookup_file_def backup_path_for_nonempty)
  have "restore_from_backup ?w1 ?bp ?rm = (Inl (PermissionError fp), ?w1)"
    using bpfile tgt neq ro(1) fp
    by (simp add: restore_from_backup_def path_exists_def copy2_def backup_path_for_nonempty)
  with tr show ?thesis
    by (simp add: execute_remediation_item_def backup_path_for_nonempty)
qed


lemma execute_plan_store_rejects:
  assumes plan: "get_remediation_plan w pid = Some p"
    and loop: "execute_items (snd (now w)) (items p) approved [] = (raised, results, w1)"
    and taken: "remediation_history w1 (next_execution_id w1 pid) \<noteq> None"
  shows "\<exists>w'. execute_plan w pid approved
             = (Inl (IntegrityError ''UNIQUE constraint failed: remediation_history.execution_id''), w')
           \<and> files w' = files w1 \<and> trace w' = trace w1
           \<and> remediation_plans w' = remediation_plans w1"
proof -
  let ?ex = "execution_of w pid raised results"
  have "exec_plan_id ?ex = pid" by (simp add: execution_of_def)
  with taken store_remediation_execution_taken [of w1 ?ex] obtain w2 where
    "store_remediation_execution w1 ?ex
       = (Inl (IntegrityError ''UNIQUE constraint failed: remediation_history.execution_id''), w2)"
    "files w2 = files w1" "remediation_plans w2 = remediation_plans w1" "trace w2 = trace w1"
    by auto
  then show ?thesis
    using execute_plan_unfold [OF plan loop] by simp
qed

text \<open>
  C10. For a stored plan and a list of approved ids that matches none of its items,
  \<open>execute_plan\<close> changes no file and runs nothing on the host. When the store accepts the
  Execution record it returns an Execution with no item result and status \<open>completed\<close>,
  and the persisted Plan status becomes \<open>completed\<close>: the trace grows by the insertion of
  the record and the status update, nothing else. When the store already holds the record's
  identifier its \<open>IntegrityError\<close> leaves \<open>execute_plan\<close> and the plan is as before.
\<close>

theorem execute_plan_nothing_approved:
  assumes plan: "get_remediation_plan w pid = Some p"
    and none: "\<forall>i \<in> set (items p). finding_id i \<notin> set approved"
  shows "(remediation_history w (next_execution_id (snd (now w)) pid) = None \<longrightarrow>
            (\<exists>ex w'. execute_plan w pid approved = (Inr ex, w')
               \<and> exec_items ex = [] \<and> exec_status ex = ''completed'' \<and> exec_error ex = None
               \<and> plan_status w' pid = Some ''completed'' \<and> files w' = files w
               \<and> trace w' = trace w @
                    [ExecutionInserted (next_execution_id (snd (now w)) pid) ''completed'',
                     PlanStatusSet pid ''completed'']))
       \<and> (remediation_history w (next_execution_id (snd (now w)) pid) \<noteq> None \<longrightarrow>
            (\<exists>e w'. execute_plan w pid approved = (Inl (IntegrityError e), w')
               \<and> files w' = files w \<and> trace w' = trace w
               \<and> plan_status w' pid = plan_status w pid))"
proof -
  let ?w0 = "snd (now w)"
  have loop: "execute_items ?w0 (items p) approved [] = (None, [], ?w0)"
    using none by (rule execute_items_none_approved)
  have w0: "files ?w0 = files w" "trace ?w0 = trace w"
    "remediation_history ?w0 = remediation_history w" "remediation_plans ?w0 = remediation_plans w"
    by (simp_all add: now_def)
  have "remediation_history w (next_execution_id ?w0 pid) = None \<longrightarrow>
          (\<exists>ex w'. execute_plan w pid approved = (Inr ex, w')
             \<and> exec_items ex = [] \<and> exec_status ex = ''completed'' \<and> exec_error ex = None
             \<and> plan_status w' pid = Some ''completed'' \<and> files w' = files w
             \<and> trace w' = trace w @
                  [ExecutionInserted (next_execution_id ?w0 pid) ''completed'',
                   PlanStatusSet pid ''completed''])"
  proof
    assume "remediation_history w (next_execution_id ?w0 pid) = None"
    then have "remediation_history ?w0 (next_execution_id ?w0 pid) = None" by (simp add: w0)
    from execute_plan_returns [OF plan loop this] w0 show
      "\<exists>ex w'. execute_plan w pid approved = (Inr ex, w')
             \<and> exec_items ex = [] \<and> exec_status ex = ''completed'' \<and> exec_error ex = None
             \<and> plan_status w' pid = Some ''completed'' \<and> files w' = files w
             \<and> trace w' = trace w @
                  [ExecutionInserted (next_execution_id ?w0 pid) ''completed'',
                   PlanStatusSet pid ''completed'']"
      by (auto simp: execution_of_def)
  qed
  moreover have "remediation_history w (next_execution_id ?w0 pid) \<noteq> None \<longrightarrow>
            (\<exists>e w'. execute_plan w pid approved = (Inl (IntegrityError e), w')
               \<and> files w' = files w \<and> trace w' = trace w
               \<and> plan_status w' pid = plan_status w pid)"
  proof
    assume "remediation_history w (next_execution_id ?w0 pid) \<noteq> None"
    then have "remediation_history ?w0 (next_execution_id ?w0 pid) \<noteq> None" by (simp add: w0)
    from execute_plan_store_rejects [OF plan loop this] w0 show
      "\<exists>e w'. execute_plan w pid approved = (Inl (IntegrityError e), w')
               \<and> files w' = files w \<and> trace w' = trace w
               \<and> plan_status w' pid = plan_status w pid"
      by (auto simp: plan_status_def)
  qed
  ultimately show ?thesis by (rule conjI)
qed

theorem execute_plan_nothing_approved_witness:
  "\<exists>ex w'. execute_plan (stored_plan_host [item_V_72433]) ''plan_1'' [] = (Inr ex, w')
      \<and> exec_items ex = [] \<and> exec_status ex = ''completed''
      \<and> plan_status w' ''plan_1'' = Some ''completed''
      \<and> files w' = files (stored_plan_host [item_V_72433])"
proof -
  let ?w = "stored_plan_host [item_V_72433]"
  have h1: "get_remediation_plan ?w ''plan_1'' =
              Some \<lparr>scan_id = Some ''scan_1'', items = [item_V_72433],
                    created_at = ''2024-01-01T12:00:00'', plan_id = Some ''plan_1''\<rparr>"
    by (rule stored_plan_host_plan)
  have h2: "\<forall>i \<in> set (items \<lparr>scan_id = Some ''scan_1'', items = [item_V_72433],
                    created_at = ''2024-01-01T12:00:00'', plan_id = Some ''plan_1''\<rparr>).
              finding_id i \<notin> set []"
    by simp
  have h3: "remediation_history ?w (next_execution_id (snd (now ?w)) ''plan_1'') = None"
    by (simp add: stored_plan_host_def empty_host_def)
  from execute_plan_nothing_approved [OF h1 h2] h3 show ?thesis by blast
qed


text \<open>
  C1, amended. When the store accepts the Execution record, \<open>execute_plan\<close> returns an
  Execution that holds the results of the loop; its status is \<open>completed\<close> exactly when no
  exception left an item, whatever the statuses of the results, and \<open>failed\<close> exactly when
  one did; the persisted Plan status is that same value. An exception leaves an item only
  as the \<open>PermissionError\<close> of a restore onto an unwritable target.
\<close>

theorem execute_plan_overall_status:
  assumes plan: "get_remediation_plan w pid = Some p"
    and loop: "execute_items (snd (now w)) (items p) approved [] = (raised, results, w1)"
    and fresh: "remediation_history w1 (next_execution_id w1 pid) = None"
  shows "\<exists>ex w'. execute_plan w pid approved = (Inr ex, w')
           \<and> exec_items ex = results
           \<and> (exec_status ex = ''completed'' \<longleftrightarrow> raised = None)
           \<and> (exec_status ex = ''failed'' \<longleftrightarrow> raised \<noteq> None)
           \<and> plan_status w' pid = Some (exec_status ex)
           \<and> (raised \<noteq> None \<longrightarrow>
                 (\<exists>target. unwritable w target \<and> raised = Some (PermissionError target)))"
proof -
  let ?ex = "execution_of w pid raised results"
  from execute_plan_returns [OF plan loop fresh] obtain w' where
    run: "execute_plan w pid approved = (Inr ?ex, w')"
    and st: "plan_status w' pid = Some (if raised = None then ''completed'' else ''failed'')"
    by blast
  have ex: "exec_items ?ex = results"
    "exec_status ?ex = (if raised = None then ''completed'' else ''failed'')"
    by (simp_all add: execution_of_def)
  have why: "raised \<noteq> None \<longrightarrow>
          (\<exists>target. unwritable w target \<and> raised = Some (PermissionError target))"
  proof
    assume "raised \<noteq> None"
    then obtain e where e: "raised = Some e" by auto
    with loop execute_items_raises [of "snd (now w)" "items p" approved "[]" e results w1]
    obtain target where "unwritable (snd (now w)) target" "e = PermissionError target" by auto
    with e show "\<exists>target. unwritable w target \<and> raised = Some (PermissionError target)"
      by (auto simp: now_def)
  qed
  have "exec_items ?ex = results
        \<and> (exec_status ?ex = ''completed'' \<longleftrightarrow> raised = None)
        \<and> (exec_status ?ex = ''failed'' \<longleftrightarrow> raised \<noteq> None)
        \<and> plan_status w' pid = Some (exec_status ?ex)"
    using ex st by simp
  with run why show ?thesis by blast
qed

text \<open>The same store on a host whose \<open>sshd_config\<close> exists and cannot be written.\<close>

definition read_only_host :: world where
  "read_only_host =
     (stored_plan_host [item_V_72433])
       \<lparr>files := [sshd_config \<mapsto> ''PermitRootLogin yes''],
        unwritable := (\<lambda>p. p = sshd_config)\<rparr>"

lemma line_start_literal_Protocol: "line_start_literal ''^Protocol.*'' = Some ''Protocol''"
  by (simp add: line_start_literal_def regex_special_def LF_def)

lemma line_start_literal_PermitRootLogin:
  "line_start_literal ''^PermitRootLogin.*'' = Some ''PermitRootLogin''"
  by (simp add: line_start_literal_def regex_special_def LF_def)

lemma split_lf_no_lf: "LF \<notin> set s \<Longrightarrow> split_lf s = [s]"
proof -
  assume "LF \<notin> set s"
  then have d: "dropWhile (\<lambda>c. c \<noteq> LF) s = []" by (auto simp: dropWhile_eq_Nil_conv)
  show ?thesis by (subst split_lf.simps) (simp only: d list.case)
qed

lemma V_72433_changes_example:
  "apply_changes w [no_change\<lparr>regex := Some ''^Protocol.*'', replacement := Some ''Protocol 2''\<rparr>,
                    no_change\<lparr>append_if_not_found := Some ''Protocol 2''\<rparr>]
     ''PermitRootLogin yes'' = Inr (''PermitRootLogin yes'' @ [LF] @ ''Protocol 2'')"
proof -
  have "split_lf ''PermitRootLogin yes'' = [''PermitRootLogin yes'']"
    by (rule split_lf_no_lf) (simp add: LF_def)
  then show ?thesis
    by (simp add: apply_change_def no_change_def re_compile_multiline_def
          line_start_literal_Protocol sub_lines_def)
qed


lemma read_only_host_escapes:
  "fst (execute_remediation_item (snd (now read_only_host)) item_V_72433)
     = Inl (PermissionError sshd_config)"
proof (rule file_edit_unwritable_escapes [where c = "''PermitRootLogin yes''"
         and nc = "''PermitRootLogin yes'' @ [LF] @ ''Protocol 2''"])
  show "changes (item_remediation item_V_72433)
          = Some [no_change\<lparr>regex := Some ''^Protocol.*'', replacement := Some ''Protocol 2''\<rparr>,
                  no_change\<lparr>append_if_not_found := Some ''Protocol 2''\<rparr>]"
    by (simp add: item_V_72433_def make_plan_item_def V_72433_def no_remediation_def)
  show "backup_required (item_remediation item_V_72433) = Some True"
    by (simp add: item_V_72433_def make_plan_item_def V_72433_def no_remediation_def)
  show "lookup_file (snd (now read_only_host)) sshd_config = Some ''PermitRootLogin yes''"
    by (simp add: lookup_file_def now_def read_only_host_def sshd_config_def)
  show "apply_changes (snd (now read_only_host))
          [no_change\<lparr>regex := Some ''^Protocol.*'', replacement := Some ''Protocol 2''\<rparr>,
           no_change\<lparr>append_if_not_found := Some ''Protocol 2''\<rparr>]
          (universal_newlines ''PermitRootLogin yes'')
        = Inr (''PermitRootLogin yes'' @ [LF] @ ''Protocol 2'')"
    using V_72433_changes_example [of "snd (now read_only_host)"] by (simp add: CR_def)
  show "''PermitRootLogin yes'' @ [LF] @ ''Protocol 2'' \<noteq> universal_newlines ''PermitRootLogin yes''"
    by (simp add: CR_def)
  show "unwritable (snd (now read_only_host)) sshd_config"
    by (simp add: now_def read_only_host_def)
  show "\<not> unwritable (snd (now read_only_host))
           (backup_path_for sshd_config
              (clock (snd (now read_only_host)) (ticks (snd (now read_only_host)))))"
    using backup_path_for_neq [of sshd_config]
    by (simp add: now_def read_only_host_def)
qed (simp_all add: item_V_72433_simps)

theorem execute_plan_overall_status_witness:
  "\<exists>ex w'. execute_plan read_only_host ''plan_1'' [''V-72433''] = (Inr ex, w')
      \<and> exec_items ex = [] \<and> exec_status ex = ''failed''
      \<and> plan_status w' ''plan_1'' = Some ''failed''"
proof -
  let ?w = "read_only_host"
  let ?p = "\<lparr>scan_id = Some ''scan_1'', items = [item_V_72433],
             created_at = ''2024-01-01T12:00:00'', plan_id = Some ''plan_1''\<rparr>"
  have plan: "get_remediation_plan ?w ''plan_1'' = Some ?p"
    by (simp add: get_remediation_plan_def read_only_host_def stored_plan_host_def)
  obtain w1 where item: "execute_remediation_item (snd (now ?w)) item_V_72433
                           = (Inl (PermissionError sshd_config), w1)"
    using read_only_host_escapes
    by (cases "execute_remediation_item (snd (now ?w)) item_V_72433") simp
  have loop: "execute_items (snd (now ?w)) (items ?p) [''V-72433''] []
                = (Some (PermissionError sshd_config), [], w1)"
    using item by (simp add: item_V_72433_simps)
  have "host_step (snd (now ?w)) w1"
    using item by (rule execute_remediation_item_step)
  then have "remediation_history w1 = remediation_history (snd (now ?w))"
    by (simp add: host_step_def)
  then have fresh: "remediation_history w1 (next_execution_id w1 ''plan_1'') = None"
    by (simp add: now_def read_only_host_def stored_plan_host_def empty_host_def)
  from execute_plan_overall_status [OF plan loop fresh] show ?thesis
    by auto
qed



section \<open>The persisted status of a plan\<close>

text \<open>
  The statuses written to the store for one plan, oldest first: the one it was inserted
  with and each one an update set.
\<close>

fun status_writes :: "string \<Rightarrow> event list \<Rightarrow> string list" where
  "status_writes pid [] = []"
| "status_writes pid (PlanInserted p st # es) =
     (if p = pid then st # status_writes pid es else status_writes pid es)"
| "status_writes pid (PlanStatusSet p st # es) =
     (if p = pid then st # status_writes pid es else status_writes pid es)"
| "status_writes pid (e # es) = status_writes pid es"

text \<open>
  The sequences the specification allows: \<open>pending\<close>, \<open>in_progress\<close>, then \<open>completed\<close>
  or \<open>failed\<close>, and what they start with.
\<close>

definition spec_status_sequence :: "string list \<Rightarrow> bool" where
  "spec_status_sequence log =
     (prefix log [''pending'', ''in_progress'', ''completed'']
      \<or> prefix log [''pending'', ''in_progress'', ''failed''])"

definition terminal_status :: "string \<Rightarrow> bool" where
  "terminal_status st = (st = ''completed'' \<or> st = ''failed'')"

text \<open>
  The invariant of the store: a plan that is not stored has no status written, and a
  stored plan was written \<open>pending\<close> first and \<open>completed\<close> or \<open>failed\<close> ever after, the
  row holding the last status written.
\<close>

definition status_log_ok :: "world \<Rightarrow> bool" where
  "status_log_ok w =
     (\<forall>pid. (remediation_plans w pid = None \<longrightarrow> status_writes pid (trace w) = [])
          \<and> (\<forall>row. remediation_plans w pid = Some row \<longrightarrow>
                 (\<exists>rest. status_writes pid (trace w) = ''pending'' # rest
                        \<and> list_all terminal_status rest
                        \<and> row_status row = last (''pending'' # rest))))"

text \<open>
  The steps of the engine: \<open>create_plan\<close> and \<open>execute_plan\<close>, returning or raising, and
  anything the environment does that leaves the plans and the trace as they are. The
  reachable worlds start from an empty table of plans.
\<close>

inductive engine_step :: "world \<Rightarrow> world \<Rightarrow> bool" where
  plan: "create_plan w sr = (r, w') \<Longrightarrow> engine_step w w'"
| execute: "execute_plan w pid approved = (r', w') \<Longrightarrow> engine_step w w'"
| environment:
    "remediation_plans w' = remediation_plans w \<Longrightarrow> trace w' = trace w \<Longrightarrow> engine_step w w'"

inductive reachable :: "world \<Rightarrow> bool" where
  start: "remediation_plans w = Map.empty \<Longrightarrow> trace w = [] \<Longrightarrow> reachable w"
| step: "reachable w \<Longrightarrow> engine_step w w' \<Longrightarrow> reachable w'"

lemma status_writes_append:
  "status_writes pid (es @ es') = status_writes pid es @ status_writes pid es'"
  by (induction pid es rule: status_writes.induct) simp_all

lemma status_writes_host_events:
  "list_all host_event es \<Longrightarrow> status_writes pid es = []"
  by (induction pid es rule: status_writes.induct) simp_all

lemma host_step_status_writes:
  "host_step w w' \<Longrightarrow> status_writes pid (trace w') = status_writes pid (trace w)"
  by (auto simp: host_step_def status_writes_append status_writes_host_events)

lemma host_step_status_log_ok: "host_step w w' \<Longrightarrow> status_log_ok w \<Longrightarrow> status_log_ok w'"
proof -
  assume h: "host_step w w'" and ok: "status_log_ok w"
  from h have "remediation_plans w' = remediation_plans w" by (simp add: host_step_def)
  with ok host_step_status_writes [OF h] show ?thesis by (simp add: status_log_ok_def)
qed

lemma store_remediation_plan_cases:
  assumes "store_remediation_plan w p = (r, w')"
  shows "(remediation_plans w' = remediation_plans w \<and> trace w' = trace w)
       \<or> (\<exists>pid row. remediation_plans w pid = None \<and> row_status row = ''pending''
             \<and> remediation_plans w' = (remediation_plans w)(pid \<mapsto> row)
             \<and> trace w' = trace w @ [PlanInserted pid ''pending''])"
proof (cases "scan_id p")
  case None
  with assms show ?thesis by (auto simp: store_remediation_plan_def now_def Let_def)
next
  case (Some sid)
  let ?pid = "''plan_'' @ ymd_hms (clock w (ticks w)) @ ''_'' @ sid"
  show ?thesis
  proof (cases "remediation_plans w ?pid")
    case (Some row)
    with \<open>scan_id p = Some sid\<close> assms show ?thesis
      by (auto simp: store_remediation_plan_def now_def Let_def)
  next
    case None
    let ?row = "\<lparr>row_scan_id = sid, row_timestamp = isoformat (clock w (Suc (ticks w))),
                 row_items = items p, row_status = ''pending''\<rparr>"
    from None \<open>scan_id p = Some sid\<close> assms
    have "remediation_plans w' = (remediation_plans w)(?pid \<mapsto> ?row)
          \<and> trace w' = trace w @ [PlanInserted ?pid ''pending'']"
      by (auto simp: store_remediation_plan_def now_def Let_def)
    with None have "remediation_plans w ?pid = None \<and> row_status ?row = ''pending''
          \<and> remediation_plans w' = (remediation_plans w)(?pid \<mapsto> ?row)
          \<and> trace w' = trace w @ [PlanInserted ?pid ''pending'']"
      by simp
    then show ?thesis by blast
  qed
qed

lemma status_log_ok_insert:
  assumes ok: "status_log_ok w" and fresh: "remediation_plans w pid = None"
    and row: "row_status row = ''pending''"
    and plans: "remediation_plans w' = (remediation_plans w)(pid \<mapsto> row)"
    and tr: "trace w' = trace w @ [PlanInserted pid ''pending'']"
  shows "status_log_ok w'"
proof -
  from ok fresh have "status_writes pid (trace w) = []" by (simp add: status_log_ok_def)
  with ok row plans tr show ?thesis
    by (auto simp: status_log_ok_def status_writes_append)
qed

lemma status_log_ok_same:
  "remediation_plans w' = remediation_plans w \<Longrightarrow> trace w' = trace w \<Longrightarrow>
   status_log_ok w \<Longrightarrow> status_log_ok w'"
  by (simp add: status_log_ok_def)

lemma create_plan_status_log_ok:
  assumes "create_plan w sr = (r, w')" and ok: "status_log_ok w"
  shows "status_log_ok w'"
proof -
  let ?w0 = "w\<lparr>ticks := Suc (ticks w)\<rparr>"
  let ?p = "\<lparr>scan_id = sr_scan_id sr, items = create_plan_items (findings sr) [],
             created_at = isoformat (clock w (ticks w)), plan_id = None\<rparr>"
  obtain r0 w1 where st: "store_remediation_plan ?w0 ?p = (r0, w1)"
    by (cases "store_remediation_plan ?w0 ?p")
  with assms(1) have w': "w' = w1"
    by (cases r0) (simp_all add: create_plan_def now_def)
  have ok0: "status_log_ok ?w0" using ok by (simp add: status_log_ok_def)
  from store_remediation_plan_cases [OF st] show ?thesis
  proof
    assume "remediation_plans w1 = remediation_plans ?w0 \<and> trace w1 = trace ?w0"
    then have "status_log_ok w1"
      using ok0 by (intro status_log_ok_same [of w1 ?w0]) simp_all
    with w' show ?thesis by simp
  next
    assume "\<exists>pid row. remediation_plans ?w0 pid = None \<and> row_status row = ''pending''
             \<and> remediation_plans w1 = (remediation_plans ?w0)(pid \<mapsto> row)
             \<and> trace w1 = trace ?w0 @ [PlanInserted pid ''pending'']"
    then obtain pid row where "remediation_plans ?w0 pid = None" "row_status row = ''pending''"
      "remediation_plans w1 = (remediation_plans ?w0)(pid \<mapsto> row)"
      "trace w1 = trace ?w0 @ [PlanInserted pid ''pending'']"
      by blast
    then have "status_log_ok w1"
      using ok0 by (intro status_log_ok_insert [of ?w0 pid row w1]) simp_all
    with w' show ?thesis by simp
  qed
qed


lemma status_log_ok_update:
  assumes ok: "status_log_ok w" and st: "terminal_status st"
  shows "status_log_ok (update_remediation_status w pid st)"
proof (cases "remediation_plans w pid")
  case None
  with ok show ?thesis by (simp add: update_remediation_status_def)
next
  case (Some row)
  with ok obtain rest where rest: "status_writes pid (trace w) = ''pending'' # rest"
      "list_all terminal_status rest"
    by (auto simp: status_log_ok_def)
  with ok Some st show ?thesis
    by (auto simp: status_log_ok_def update_remediation_status_def status_writes_append)
qed

lemma store_remediation_execution_status_log_ok:
  assumes "store_remediation_execution w ex = (r, w')" and ok: "status_log_ok w"
  shows "status_log_ok w'"
proof (cases "remediation_history w (next_execution_id w (exec_plan_id ex))")
  case None
  from store_remediation_execution_fresh [OF None] assms(1)
  have "remediation_plans w' = remediation_plans w"
    "trace w' = trace w @ [ExecutionInserted (next_execution_id w (exec_plan_id ex)) (exec_status ex)]"
    by auto
  with ok show ?thesis by (simp add: status_log_ok_def status_writes_append)
next
  case (Some row)
  then have "remediation_history w (next_execution_id w (exec_plan_id ex)) \<noteq> None" by simp
  from store_remediation_execution_taken [OF this] assms(1)
  have "remediation_plans w' = remediation_plans w" "trace w' = trace w" by auto
  with ok show ?thesis by (simp add: status_log_ok_same)
qed

lemma execute_plan_status_log_ok:
  assumes run: "execute_plan w pid approved = (r, w')" and ok: "status_log_ok w"
  shows "status_log_ok w'"
proof (cases "get_remediation_plan w pid")
  case None
  with run have "w' = w" by (simp add: execute_plan_def)
  with ok show ?thesis by simp
next
  case (Some p)
  obtain raised results w1 where
    loop: "execute_items (snd (now w)) (items p) approved [] = (raised, results, w1)"
    by (cases "execute_items (snd (now w)) (items p) approved []")
  let ?ex = "execution_of w pid raised results"
  have "host_step w (snd (now w))" by (rule now_step [of w "fst (now w)"]) simp
  moreover from loop have "host_step (snd (now w)) w1" by (rule execute_items_step)
  ultimately have "host_step w w1" by (rule host_step_trans)
  then have ok1: "status_log_ok w1" using ok by (rule host_step_status_log_ok)
  obtain r2 w2 where store: "store_remediation_execution w1 ?ex = (r2, w2)"
    by (cases "store_remediation_execution w1 ?ex")
  then have ok2: "status_log_ok w2" using ok1 by (rule store_remediation_execution_status_log_ok)
  have fin: "terminal_status (exec_status ?ex)"
    by (simp add: execution_of_def terminal_status_def)
  show ?thesis
  proof (cases r2)
    case (Inl e)
    with run store execute_plan_unfold [OF Some loop] have "w' = w2" by simp
    with ok2 show ?thesis by simp
  next
    case (Inr eid)
    with run store execute_plan_unfold [OF Some loop]
    have "w' = update_remediation_status w2 pid (exec_status ?ex)" by simp
    with ok2 fin show ?thesis by (simp add: status_log_ok_update)
  qed
qed

lemma engine_step_status_log_ok: "engine_step w w' \<Longrightarrow> status_log_ok w \<Longrightarrow> status_log_ok w'"
  by (induction rule: engine_step.induct)
     (auto intro: create_plan_status_log_ok execute_plan_status_log_ok status_log_ok_same)

lemma reachable_status_log_ok: "reachable w \<Longrightarrow> status_log_ok w"
proof (induction rule: reachable.induct)
  case (start w)
  then show ?case by (simp add: status_log_ok_def)
next
  case (step w w')
  from step.hyps(2) step.IH show ?case by (rule engine_step_status_log_ok)
qed


lemma create_plan_stores:
  assumes sid: "sr_scan_id sr = Some sid"
    and fresh: "remediation_plans w (next_plan_id w sid) = None"
  shows "create_plan w sr =
           (Inr \<lparr>scan_id = Some sid, items = create_plan_items (findings sr) [],
                 created_at = isoformat (clock w (ticks w)),
                 plan_id = Some (next_plan_id w sid)\<rparr>,
            w\<lparr>ticks := Suc (Suc (Suc (ticks w))),
              remediation_plans := (remediation_plans w)
                (next_plan_id w sid \<mapsto>
                   \<lparr>row_scan_id = sid,
                    row_timestamp = isoformat (clock w (Suc (Suc (ticks w)))),
                    row_items = create_plan_items (findings sr) [],
                    row_status = ''pending''\<rparr>),
              trace := trace w @ [PlanInserted (next_plan_id w sid) ''pending'']\<rparr>)"
  using assms
  by (simp add: create_plan_def store_remediation_plan_def now_def Let_def next_plan_id_def)

lemma execute_plan_trace:
  assumes run: "execute_plan w pid approved = (Inr ex, w')"
  shows "\<exists>es eid. trace w' = trace w @ es @ [ExecutionInserted eid (exec_status ex),
                                               PlanStatusSet pid (exec_status ex)]
           \<and> list_all host_event es \<and> terminal_status (exec_status ex)"
proof (cases "get_remediation_plan w pid")
  case None
  with run show ?thesis by (simp add: execute_plan_def)
next
  case (Some p)
  obtain raised results w1 where
    loop: "execute_items (snd (now w)) (items p) approved [] = (raised, results, w1)"
    by (cases "execute_items (snd (now w)) (items p) approved []")
  let ?ex = "execution_of w pid raised results"
  let ?st = "if raised = None then ''completed'' else ''failed''"
  have "host_step w (snd (now w))" by (rule now_step [of w "fst (now w)"]) simp
  moreover from loop have "host_step (snd (now w)) w1" by (rule execute_items_step)
  ultimately have "host_step w w1" by (rule host_step_trans)
  then obtain es where es: "trace w1 = trace w @ es" "list_all host_event es"
    by (auto simp: host_step_def)
  show ?thesis
  proof (cases "remediation_history w1 (next_execution_id w1 pid)")
    case (Some row)
    then have "remediation_history w1 (next_execution_id w1 pid) \<noteq> None" by simp
    from execute_plan_store_rejects [OF \<open>get_remediation_plan w pid = Some p\<close> loop this] run
    show ?thesis by auto
  next
    case None
    from execute_plan_returns [OF \<open>get_remediation_plan w pid = Some p\<close> loop None] run
    have "ex = ?ex" and "trace w' = trace w1 @
            [ExecutionInserted (next_execution_id w1 pid) ?st, PlanStatusSet pid ?st]"
      by auto
    moreover have "exec_status ?ex = ?st" by (simp add: execution_of_def)
    ultimately have "trace w' = trace w @ es @
            [ExecutionInserted (next_execution_id w1 pid) (exec_status ex),
             PlanStatusSet pid (exec_status ex)]"
      and "terminal_status (exec_status ex)"
      using es by (simp_all add: terminal_status_def)
    with es(2) show ?thesis by blast
  qed
qed

text \<open>
  C9, amended. In every reachable world, the statuses persisted for a stored plan are
  \<open>pending\<close> followed only by \<open>completed\<close> and \<open>failed\<close>, and the row holds the last of
  them: \<open>in_progress\<close> is never persisted and \<open>pending\<close> is never written again. An
  \<open>execute_plan\<close> that returns writes the status once, as the last effect of the call:
  after every effect of the items on the host and after the Execution record.
\<close>

theorem persisted_status_history:
  assumes "reachable w"
  shows "(\<forall>pid. (remediation_plans w pid = None \<longrightarrow> status_writes pid (trace w) = [])
             \<and> (\<forall>row. remediation_plans w pid = Some row \<longrightarrow>
                    (\<exists>rest. status_writes pid (trace w) = ''pending'' # rest
                           \<and> list_all terminal_status rest
                           \<and> row_status row = last (''pending'' # rest))))
       \<and> (\<forall>pid approved ex w'. execute_plan w pid approved = (Inr ex, w') \<longrightarrow>
             (\<exists>es eid. trace w' = trace w @ es @ [ExecutionInserted eid (exec_status ex),
                                                    PlanStatusSet pid (exec_status ex)]
                \<and> list_all host_event es \<and> terminal_status (exec_status ex)))"
proof -
  from assms have "status_log_ok w" by (rule reachable_status_log_ok)
  then show ?thesis
    unfolding status_log_ok_def using execute_plan_trace by blast
qed

definition example_scan :: scan_results where
  "example_scan = \<lparr>sr_scan_id = Some ''scan_1'', findings = [failed_finding ''V-72433'']\<rparr>"

definition example_plan_id :: string where
  "example_plan_id = ''plan_20240101_120000_scan_1''"

definition planned_host :: world where
  "planned_host = snd (create_plan empty_host example_scan)"

definition executed_host :: world where
  "executed_host = snd (execute_plan planned_host example_plan_id [''V-72433''])"

lemma next_plan_id_empty_host: "next_plan_id empty_host ''scan_1'' = example_plan_id"
  by (simp add: next_plan_id_def empty_host_def example_ymd_hms example_plan_id_def)

lemma example_scan_items: "create_plan_items (findings example_scan) [] = [item_V_72433]"
  by (simp add: example_scan_def get_remediation_steps_def remediation_map_simps
        failed_finding_def item_V_72433_def)

lemma planned_host_eq:
  "planned_host =
     empty_host\<lparr>ticks := 3,
       remediation_plans :=
         [example_plan_id \<mapsto> \<lparr>row_scan_id = ''scan_1'', row_timestamp = ''2024-01-01T12:00:00'',
                               row_items = [item_V_72433], row_status = ''pending''\<rparr>],
       trace := [PlanInserted example_plan_id ''pending'']\<rparr>"
proof -
  have "sr_scan_id example_scan = Some ''scan_1''" by (simp add: example_scan_def)
  moreover have "remediation_plans empty_host (next_plan_id empty_host ''scan_1'') = None"
    by (simp add: empty_host_def)
  ultimately have "create_plan empty_host example_scan = (Inr \<lparr>scan_id = Some ''scan_1'', items = create_plan_items (findings example_scan) [],
                 created_at = isoformat (clock empty_host (ticks empty_host)),
                 plan_id = Some (next_plan_id empty_host ''scan_1'')\<rparr>,
            empty_host\<lparr>ticks := Suc (Suc (Suc (ticks empty_host))),
              remediation_plans := (remediation_plans empty_host)
                (next_plan_id empty_host ''scan_1'' \<mapsto>
                   \<lparr>row_scan_id = ''scan_1'',
                    row_timestamp = isoformat (clock empty_host (Suc (Suc (ticks empty_host)))),
                    row_items = create_plan_items (findings example_scan) [],
                    row_status = ''pending''\<rparr>),
              trace := trace empty_host @ [PlanInserted (next_plan_id empty_host ''scan_1'') ''pending'']\<rparr>)"
    by (rule create_plan_stores)
  then show ?thesis
    by (simp add: planned_host_def next_plan_id_empty_host example_scan_items)
       (simp add: empty_host_def example_isoformat)
qed


lemma executed_host_run:
  "\<exists>ex. execute_plan planned_host example_plan_id [''V-72433''] = (Inr ex, executed_host)
        \<and> exec_status ex = ''completed''
        \<and> plan_status executed_host example_plan_id = Some ''completed''
        \<and> trace executed_host =
            [PlanInserted example_plan_id ''pending'',
             ExecutionInserted (next_execution_id (snd (now planned_host)) example_plan_id)
               ''completed'',
             PlanStatusSet example_plan_id ''completed'']"
proof -
  let ?p = "\<lparr>scan_id = Some ''scan_1'', items = [item_V_72433],
             created_at = ''2024-01-01T12:00:00'', plan_id = Some example_plan_id\<rparr>"
  let ?w0 = "snd (now planned_host)"
  have plan: "get_remediation_plan planned_host example_plan_id = Some ?p"
    by (simp add: get_remediation_plan_def planned_host_eq)
  have "lookup_file ?w0 sshd_config = None"
    by (simp add: lookup_file_def now_def planned_host_eq empty_host_def)
  then have loop: "execute_items ?w0 (items ?p) [''V-72433''] []
                     = (None, [(initial_result item_V_72433)
                                 \<lparr>res_error := Some (py_str (FileNotFoundError sshd_config))\<rparr>], ?w0)"
    by (simp add: file_edit_absent item_V_72433_simps)
  have fresh: "remediation_history ?w0 (next_execution_id ?w0 example_plan_id) = None"
    by (simp add: now_def planned_host_eq empty_host_def)
  have tr: "trace ?w0 = [PlanInserted example_plan_id ''pending'']"
    by (simp add: now_def planned_host_eq)
  from execute_plan_returns [OF plan loop fresh] tr show ?thesis
    by (auto simp: executed_host_def execution_of_def)
qed

text \<open>
  C9, as stated, fails. A plan is created on the empty host and executed with its item
  approved: the statuses persisted for it are \<open>pending\<close> and \<open>completed\<close>, with no
  \<open>in_progress\<close> between them.
\<close>

theorem in_progress_never_persisted:
  "status_writes example_plan_id (trace executed_host) = [''pending'', ''completed'']
   \<and> \<not> spec_status_sequence (status_writes example_plan_id (trace executed_host))"
proof -
  from executed_host_run
  have "status_writes example_plan_id (trace executed_host) = [''pending'', ''completed'']"
    by auto
  then show ?thesis by (simp add: spec_status_sequence_def)
qed

theorem persisted_status_history_witness:
  "reachable executed_host
   \<and> (\<exists>row rest. remediation_plans executed_host example_plan_id = Some row
         \<and> status_writes example_plan_id (trace executed_host) = ''pending'' # rest
         \<and> list_all terminal_status rest \<and> row_status row = last (''pending'' # rest))"
proof -
  have "reachable empty_host" by (rule reachable.start) (simp_all add: empty_host_def)
  moreover have "engine_step empty_host planned_host"
    by (rule engine_step.plan [of empty_host example_scan "fst (create_plan empty_host example_scan)"])
       (simp add: planned_host_def)
  ultimately have "reachable planned_host" by (rule reachable.step)
  moreover have "engine_step planned_host executed_host"
    by (rule engine_step.execute [of planned_host example_plan_id "[''V-72433'']"
          "fst (execute_plan planned_host example_plan_id [''V-72433''])"])
       (simp add: executed_host_def)
  ultimately have r: "reachable executed_host" by (rule reachable.step)
  from executed_host_run obtain row where
    row: "remediation_plans executed_host example_plan_id = Some row"
    by (auto simp: plan_status_def)
  from persisted_status_history [OF r] row
  have "\<exists>rest. status_writes example_plan_id (trace executed_host) = ''pending'' # rest
                 \<and> list_all terminal_status rest \<and> row_status row = last (''pending'' # rest)"
    by blast
  with r row show ?thesis by blast
qed



section \<open>Backup before mutation, restore after failure\<close>

lemma lookup_file_files: "files w' = files w \<Longrightarrow> lookup_file w' p = lookup_file w p"
  by (simp add: lookup_file_def)

lemma write_if_changed_files:
  "write_if_changed w fp c nc res = (r, res', w') \<Longrightarrow> p \<noteq> fp \<Longrightarrow> files w' p = files w p"
  by (auto simp: write_if_changed_def write_text_def split: if_splits)

lemma restart_if_required_files:
  "restart_if_required w rm res = (r, res', w') \<Longrightarrow> files w' = files w"
  by (auto simp: restart_if_required_def restart_service_def run_systemctl_def
           split: option.splits if_splits)

lemma handle_file_edit_files:
  assumes "handle_file_edit w rm res = (r, res', w')" and "file_path rm \<noteq> Some p"
  shows "files w' p = files w p"
proof (cases "file_path rm")
  case None
  with assms show ?thesis by (simp add: handle_file_edit_def)
next
  case (Some fp)
  with assms(2) have neq: "p \<noteq> fp" by auto
  show ?thesis
  proof (cases "read_text w fp")
    case (Inl e)
    with Some assms show ?thesis by (simp add: handle_file_edit_def)
  next
    case (Inr content)
    show ?thesis
    proof (cases "changes rm")
      case None
      with Some Inr assms show ?thesis by (simp add: handle_file_edit_def)
    next
      case cs: (Some cs)
      show ?thesis
      proof (cases "apply_changes w cs content")
        case (Inl e)
        with Some Inr cs assms show ?thesis by (simp add: handle_file_edit_def)
      next
        case nc: (Inr new_content)
        obtain r1 res1 w1 where
          wr: "write_if_changed w fp content new_content res = (r1, res1, w1)"
          by (cases "write_if_changed w fp content new_content res")
        then have f1: "files w1 p = files w p" using neq by (rule write_if_changed_files)
        show ?thesis
        proof (cases r1)
          case (Inl e)
          with Some Inr cs nc wr assms f1 show ?thesis by (simp add: handle_file_edit_def)
        next
          case (Inr u)
          with Some \<open>read_text w fp = Inr content\<close> cs nc wr assms
          have "restart_if_required w1 rm res1 = (r, res', w')"
            by (simp add: handle_file_edit_def)
          then have "files w' = files w1" by (rule restart_if_required_files)
          with f1 show ?thesis by simp
        qed
      qed
    qed
  qed
qed

lemma handle_service_config_files:
  assumes "handle_service_config w rm res = (r, res', w')" and "file_path rm \<noteq> Some p"
  shows "files w' p = files w p"
proof -
  obtain r1 res1 w1 where fe: "handle_file_edit w rm res = (r1, res1, w1)"
    by (cases "handle_file_edit w rm res")
  then have f1: "files w1 p = files w p" using assms(2) by (rule handle_file_edit_files)
  from assms(1) fe have "files w' = files w1"
    by (cases r1; cases "service rm")
       (auto simp: handle_service_config_def enable_service_def run_systemctl_def
             split: if_splits)
  with f1 show ?thesis by simp
qed

text \<open>The \<open>try\<close> block once the backup is taken.\<close>

lemma try_remediation_backed_up:
  assumes "backup_required rm = Some True" "backup_source rm = Some src"
    "lookup_file w src = Some c"
    "\<not> unwritable w (backup_path_for src (clock w (ticks w)))"
  shows "try_remediation w rm res =
           apply_remediation
             (w\<lparr>ticks := Suc (ticks w),
                files := (files w)(backup_path_for src (clock w (ticks w)) \<mapsto> c),
                trace := trace w @ [FileCopied src (backup_path_for src (clock w (ticks w)))]\<rparr>)
             rm (res\<lparr>backup_path := Some (backup_path_for src (clock w (ticks w)))\<rparr>)"
  using assms by (simp add: try_remediation_def create_backup_succeeds)

lemma create_backup_unwritable:
  assumes "backup_source rm = Some src" "lookup_file w src = Some c"
    "unwritable w (backup_path_for src (clock w (ticks w)))"
  shows "create_backup w rm =
           (Inl (PermissionError (backup_path_for src (clock w (ticks w)))),
            w\<lparr>ticks := Suc (ticks w)\<rparr>)"
  using assms
  by (simp add: create_backup_unfold copy2_def backup_path_for_nonempty
        backup_path_for_neq [symmetric])

lemma try_remediation_not_backed_up:
  assumes "backup_required rm = Some True" "backup_source rm = Some src"
    "lookup_file w src = None"
  shows "try_remediation w rm res = apply_remediation w rm (res\<lparr>backup_path := None\<rparr>)"
  using assms by (simp add: try_remediation_def create_backup_absent)

lemma execute_remediation_item_backup_path:
  assumes run: "execute_remediation_item w item = (Inr res, w')"
    and t: "try_remediation w (item_remediation item) (initial_result item)
              = apply_remediation w1 (item_remediation item) ((initial_result item)\<lparr>backup_path := b\<rparr>)"
  shows "backup_path res = b"
proof -
  let ?rm = "item_remediation item"
  obtain out res1 w2 where
    a: "apply_remediation w1 ?rm ((initial_result item)\<lparr>backup_path := b\<rparr>) = (out, res1, w2)"
    by (cases "apply_remediation w1 ?rm ((initial_result item)\<lparr>backup_path := b\<rparr>)")
  then have "backup_path res1 = b"
    by (auto dest!: apply_remediation_result only_changes_added_backup_path)
  with run t a show ?thesis
    by (cases out)
       (auto simp: execute_remediation_item_def Let_def split: option.splits if_splits prod.splits sum.splits)
qed


lemma execute_remediation_item_after_try:
  assumes "try_remediation w (item_remediation item) (initial_result item) = (out, res1, w2)"
  shows "host_step w2 (snd (execute_remediation_item w item))"
proof (cases out)
  case (Inr u)
  with assms show ?thesis by (simp add: execute_remediation_item_def host_step_refl)
next
  case (Inl e)
  show ?thesis
  proof (cases "backup_path res1")
    case None
    with Inl assms show ?thesis by (simp add: execute_remediation_item_def host_step_refl)
  next
    case (Some bp)
    obtain r w3 where r: "restore_from_backup w2 bp (item_remediation item) = (r, w3)"
      by (cases "restore_from_backup w2 bp (item_remediation item)")
    then have "host_step w2 w3" by (rule restore_from_backup_step)
    with Inl Some assms r show ?thesis
      by (cases r) (auto simp: execute_remediation_item_def host_step_refl Let_def)
  qed
qed

text \<open>
  C6. Take an item whose remediation has \<open>backup_required\<close> true and names a file to back
  up (\<open>config_file\<close>, else \<open>file\<close>). If the file exists and the backup can be written, the
  backup is taken first: it holds the file's content, the file is as it was, the copy is
  the first effect of the item, and the apply step starts from that world with
  \<open>backup_path\<close> already recorded, so every mutation comes after it. If the backup cannot
  be written, the item fails and nothing was mutated. If the file does not exist, no backup
  is made, \<open>backup_path\<close> stays unset and the apply step runs all the same.
\<close>

theorem backup_taken_before_mutation:
  assumes req: "backup_required (item_remediation item) = Some True"
    and src: "backup_source (item_remediation item) = Some src"
    and bp: "bp = backup_path_for src (clock w (ticks w))"
  shows "(lookup_file w src = Some c \<and> \<not> unwritable w bp \<longrightarrow>
            (\<exists>w1. create_backup w (item_remediation item) = (Inr (Some bp), w1)
               \<and> lookup_file w1 bp = Some c \<and> lookup_file w1 src = Some c
               \<and> trace w1 = trace w @ [FileCopied src bp]
               \<and> try_remediation w (item_remediation item) (initial_result item)
                   = apply_remediation w1 (item_remediation item)
                       ((initial_result item)\<lparr>backup_path := Some bp\<rparr>)
               \<and> (\<forall>res w'. execute_remediation_item w item = (Inr res, w')
                      \<longrightarrow> backup_path res = Some bp)
               \<and> (\<exists>es. trace (snd (execute_remediation_item w item))
                          = trace w @ FileCopied src bp # es)))
       \<and> (lookup_file w src = Some c \<and> unwritable w bp \<longrightarrow>
            execute_remediation_item w item
              = (Inr ((initial_result item)\<lparr>res_error := Some (py_str (PermissionError bp))\<rparr>),
                 w\<lparr>ticks := Suc (ticks w)\<rparr>))
       \<and> (lookup_file w src = None \<longrightarrow>
            create_backup w (item_remediation item) = (Inr None, w)
            \<and> try_remediation w (item_remediation item) (initial_result item)
                = apply_remediation w (item_remediation item) (initial_result item)
            \<and> (\<forall>res w'. execute_remediation_item w item = (Inr res, w')
                   \<longrightarrow> backup_path res = None))"
proof (intro conjI impI)
  let ?rm = "item_remediation item"
  assume a: "lookup_file w src = Some c \<and> \<not> unwritable w bp"
  let ?w1 = "w\<lparr>ticks := Suc (ticks w), files := (files w)(bp \<mapsto> c),
               trace := trace w @ [FileCopied src bp]\<rparr>"
  from a have srcne: "src \<noteq> []" by (auto simp: lookup_file_def split: if_splits)
  have neq: "bp \<noteq> src" "bp \<noteq> []"
    by (simp_all add: bp backup_path_for_neq backup_path_for_nonempty)
  have cb: "create_backup w ?rm = (Inr (Some bp), ?w1)"
    using src a create_backup_succeeds [of ?rm src w c] by (simp add: bp)
  have l1: "lookup_file ?w1 bp = Some c" "lookup_file ?w1 src = Some c"
    using a neq by (auto simp: lookup_file_def split: if_splits)
  have t: "try_remediation w ?rm (initial_result item)
             = apply_remediation ?w1 ?rm ((initial_result item)\<lparr>backup_path := Some bp\<rparr>)"
    using req src a try_remediation_backed_up [of ?rm src w c "initial_result item"]
    by (simp add: bp)
  have b: "\<forall>res w'. execute_remediation_item w item = (Inr res, w') \<longrightarrow> backup_path res = Some bp"
    using execute_remediation_item_backup_path [OF _ t] by blast
  obtain out res1 w2 where
    ap: "apply_remediation ?w1 ?rm ((initial_result item)\<lparr>backup_path := Some bp\<rparr>)
           = (out, res1, w2)"
    by (cases "apply_remediation ?w1 ?rm ((initial_result item)\<lparr>backup_path := Some bp\<rparr>)")
  then have "host_step ?w1 w2" by (rule apply_remediation_step)
  moreover from t ap have "host_step w2 (snd (execute_remediation_item w item))"
    by (intro execute_remediation_item_after_try) simp
  ultimately have "host_step ?w1 (snd (execute_remediation_item w item))"
    by (rule host_step_trans)
  then obtain es where "trace (snd (execute_remediation_item w item)) = trace ?w1 @ es"
    by (auto simp: host_step_def)
  then have tr: "\<exists>es. trace (snd (execute_remediation_item w item))
                        = trace w @ FileCopied src bp # es"
    by simp
  from cb l1 t b tr show
    "\<exists>w1. create_backup w ?rm = (Inr (Some bp), w1)
       \<and> lookup_file w1 bp = Some c \<and> lookup_file w1 src = Some c
       \<and> trace w1 = trace w @ [FileCopied src bp]
       \<and> try_remediation w ?rm (initial_result item)
           = apply_remediation w1 ?rm ((initial_result item)\<lparr>backup_path := Some bp\<rparr>)
       \<and> (\<forall>res w'. execute_remediation_item w item = (Inr res, w') \<longrightarrow> backup_path res = Some bp)
       \<and> (\<exists>es. trace (snd (execute_remediation_item w item)) = trace w @ FileCopied src bp # es)"
    by (intro exI [of _ ?w1]) simp
next
  let ?rm = "item_remediation item"
  assume a: "lookup_file w src = Some c \<and> unwritable w bp"
  then have "create_backup w ?rm = (Inl (PermissionError bp), w\<lparr>ticks := Suc (ticks w)\<rparr>)"
    using src create_backup_unwritable [of ?rm src w c] by (simp add: bp)
  with req show "execute_remediation_item w item
              = (Inr ((initial_result item)\<lparr>res_error := Some (py_str (PermissionError bp))\<rparr>),
                 w\<lparr>ticks := Suc (ticks w)\<rparr>)"
    by (simp add: execute_remediation_item_def try_remediation_def)
next
  let ?rm = "item_remediation item"
  assume a: "lookup_file w src = None"
  with src show "create_backup w ?rm = (Inr None, w)" by (simp add: create_backup_absent)
next
  let ?rm = "item_remediation item"
  assume a: "lookup_file w src = None"
  with req src show "try_remediation w ?rm (initial_result item)
                       = apply_remediation w ?rm (initial_result item)"
    by (simp add: try_remediation_not_backed_up initial_result_def)
next
  let ?rm = "item_remediation item"
  assume a: "lookup_file w src = None"
  with req src have "try_remediation w ?rm (initial_result item)
                       = apply_remediation w ?rm ((initial_result item)\<lparr>backup_path := None\<rparr>)"
    by (simp add: try_remediation_not_backed_up)
  from execute_remediation_item_backup_path [OF _ this]
  show "\<forall>res w'. execute_remediation_item w item = (Inr res, w') \<longrightarrow> backup_path res = None"
    by blast
qed


text \<open>The empty host with an \<open>sshd_config\<close> that permits root login.\<close>

definition ssh_host :: world where
  "ssh_host = empty_host\<lparr>files := [sshd_config \<mapsto> ''PermitRootLogin yes'']\<rparr>"

definition example_backup_path :: string where
  "example_backup_path = ''/var/lib/stig-agent/backups/sshd_config.20240101_120000.bak''"

lemma example_backup_path_for:
  "backup_path_for sshd_config (example_clock n) = example_backup_path"
  by (simp add: backup_path_for_def backup_dir_def basename_def sshd_config_def
        example_ymd_hms example_backup_path_def)

theorem backup_taken_before_mutation_witness:
  "\<exists>w1. create_backup ssh_host (item_remediation item_V_72433)
            = (Inr (Some example_backup_path), w1)
      \<and> lookup_file w1 example_backup_path = Some ''PermitRootLogin yes''
      \<and> lookup_file w1 sshd_config = Some ''PermitRootLogin yes''
      \<and> trace w1 = trace ssh_host @ [FileCopied sshd_config example_backup_path]
      \<and> try_remediation ssh_host (item_remediation item_V_72433) (initial_result item_V_72433)
          = apply_remediation w1 (item_remediation item_V_72433)
              ((initial_result item_V_72433)\<lparr>backup_path := Some example_backup_path\<rparr>)"
proof -
  have req: "backup_required (item_remediation item_V_72433) = Some True"
    by (simp add: item_V_72433_def make_plan_item_def V_72433_def no_remediation_def)
  have src: "backup_source (item_remediation item_V_72433) = Some sshd_config"
    by (simp add: backup_source_def item_V_72433_simps)
  have bp: "example_backup_path = backup_path_for sshd_config (clock ssh_host (ticks ssh_host))"
    by (simp add: ssh_host_def empty_host_def example_backup_path_for)
  have there: "lookup_file ssh_host sshd_config = Some ''PermitRootLogin yes''
               \<and> \<not> unwritable ssh_host example_backup_path"
    by (simp add: lookup_file_def ssh_host_def empty_host_def sshd_config_def)
  from backup_taken_before_mutation [OF req src bp, of "''PermitRootLogin yes''"] there
  show ?thesis by blast
qed


lemma only_changes_added_status:
  "only_changes_added res res' \<Longrightarrow> res_status res' = res_status res"
  by (auto simp: only_changes_added_def)

lemma try_remediation_status:
  assumes "try_remediation w rm res = (out, res', w')"
  shows "res_status res' = res_status res"
proof -
  from try_remediation_cases [OF assms] consider
      (plain) "apply_remediation w rm res = (out, res', w')"
    | (failed) "res' = res"
    | (backed) b w1 where "apply_remediation w1 rm (res\<lparr>backup_path := b\<rparr>) = (out, res', w')"
    by blast
  then show ?thesis
  proof cases
    case plain
    then show ?thesis by (auto dest!: apply_remediation_result only_changes_added_status)
  next
    case failed
    then show ?thesis by simp
  next
    case backed
    then show ?thesis by (auto dest!: apply_remediation_result only_changes_added_status)
  qed
qed

lemma apply_remediation_files:
  assumes "apply_remediation w rm res = (out, res', w')"
    and "rtype rm = ''file_edit'' \<or> rtype rm = ''service_config''"
    and "file_path rm \<noteq> Some p"
  shows "files w' p = files w p"
  using assms
  by (auto simp: apply_remediation_def split: if_splits
           dest: handle_file_edit_files handle_service_config_files)

text \<open>
  C7, amended. Let the \<open>try\<close> block of an item raise, and let the file a restore would
  write be writable. Then the item returns a result with status \<open>failed\<close> and the message
  of the exception. If a backup path is recorded, the file that was backed up gets the
  content the backup holds at that moment; for \<open>file_edit\<close> and \<open>service_config\<close>, whose
  apply step writes no file but \<open>file\<close>, that is the content the file had before the
  item ran. Whatever the items do, the results appended earlier in a run stay as they are.
\<close>

theorem item_failure_contained:
  assumes raised: "try_remediation w (item_remediation item) (initial_result item) = (Inl e, res, w1)"
    and writable: "\<forall>t. restore_target (item_remediation item) = Some t \<longrightarrow> \<not> unwritable w t"
  shows "(\<exists>w'. execute_remediation_item w item = (Inr (res\<lparr>res_error := Some (py_str e)\<rparr>), w')
            \<and> res_status res = ''failed''
            \<and> (backup_path res = None \<longrightarrow> w' = w1)
            \<and> (\<forall>bp. backup_path res = Some bp \<longrightarrow>
                  (\<exists>src c. restore_target (item_remediation item) = Some src
                     \<and> lookup_file w src = Some c
                     \<and> (\<forall>c'. lookup_file w1 bp = Some c' \<longrightarrow> lookup_file w' src = Some c')
                     \<and> ((rtype (item_remediation item) = ''file_edit''
                          \<or> rtype (item_remediation item) = ''service_config'')
                         \<and> file_path (item_remediation item) \<noteq> Some bp
                         \<longrightarrow> lookup_file w' src = Some c))))
       \<and> (\<forall>w0 its approved acc raised' results w''.
             execute_items w0 its approved acc = (raised', results, w'') \<longrightarrow> prefix acc results)"
proof (rule conjI)
  let ?rm = "item_remediation item"
  let ?res = "res\<lparr>res_error := Some (py_str e)\<rparr>"
  have st: "res_status res = ''failed''"
    using try_remediation_status [OF raised] by (simp add: initial_result_def)
  from raised have "host_step w w1" by (rule try_remediation_step)
  then have unw: "unwritable w1 = unwritable w" by (simp add: host_step_def)
  show "\<exists>w'. execute_remediation_item w item = (Inr ?res, w')
            \<and> res_status res = ''failed''
            \<and> (backup_path res = None \<longrightarrow> w' = w1)
            \<and> (\<forall>bp. backup_path res = Some bp \<longrightarrow>
                  (\<exists>src c. restore_target ?rm = Some src
                     \<and> lookup_file w src = Some c
                     \<and> (\<forall>c'. lookup_file w1 bp = Some c' \<longrightarrow> lookup_file w' src = Some c')
                     \<and> ((rtype ?rm = ''file_edit'' \<or> rtype ?rm = ''service_config'')
                         \<and> file_path ?rm \<noteq> Some bp
                         \<longrightarrow> lookup_file w' src = Some c)))"
  proof (cases "backup_path res")
    case None
    with raised st show ?thesis by (simp add: execute_remediation_item_def)
  next
    case (Some bp)
    have "\<exists>b wb. create_backup w ?rm = (Inr b, wb)
            \<and> apply_remediation wb ?rm ((initial_result item)\<lparr>backup_path := b\<rparr>) = (Inl e, res, w1)"
    proof -
      from try_remediation_cases [OF raised] consider
          (plain) "apply_remediation w ?rm (initial_result item) = (Inl e, res, w1)"
        | (failed) "res = initial_result item"
        | (backed) b wb where "create_backup w ?rm = (Inr b, wb)"
            "apply_remediation wb ?rm ((initial_result item)\<lparr>backup_path := b\<rparr>) = (Inl e, res, w1)"
        by blast
      then show ?thesis
      proof cases
        case plain
        then have "backup_path res = backup_path (initial_result item)"
          by (auto dest!: apply_remediation_result only_changes_added_backup_path)
        with Some show ?thesis by simp
      next
        case failed
        with Some show ?thesis by simp
      next
        case backed
        then show ?thesis by blast
      qed
    qed
    then obtain b wb where
      cb: "create_backup w ?rm = (Inr b, wb)"
      and ap: "apply_remediation wb ?rm ((initial_result item)\<lparr>backup_path := b\<rparr>) = (Inl e, res, w1)"
      by blast
    from ap have "backup_path res = b"
      by (auto dest!: apply_remediation_result only_changes_added_backup_path)
    with Some have b: "b = Some bp" by simp
    from create_backup_Some [of w ?rm bp wb] cb b obtain src c where
      src: "restore_target ?rm = Some src" "lookup_file w src = Some c"
        "bp = backup_path_for src (clock w (ticks w))" "files wb = (files w)(bp \<mapsto> c)"
      by auto
    have neq: "bp \<noteq> src" "bp \<noteq> []"
      by (simp_all add: src(3) backup_path_for_neq backup_path_for_nonempty)
    from src(2) have srcne: "src \<noteq> []" by (auto simp: lookup_file_def split: if_splits)
    from writable src(1) unw have wr: "\<not> unwritable w1 src" by simp
    show ?thesis
    proof (cases "lookup_file w1 bp")
      case None
      then have "restore_from_backup w1 bp ?rm = (Inr (), w1)"
        by (simp add: restore_from_backup_def path_exists_def)
      with raised Some neq have run: "execute_remediation_item w item = (Inr ?res, w1)"
        by (simp add: execute_remediation_item_def)
      have "(rtype ?rm = ''file_edit'' \<or> rtype ?rm = ''service_config'')
              \<and> file_path ?rm \<noteq> Some bp \<longrightarrow> lookup_file w1 src = Some c"
      proof
        assume h: "(rtype ?rm = ''file_edit'' \<or> rtype ?rm = ''service_config'')
                     \<and> file_path ?rm \<noteq> Some bp"
        with ap have "files w1 bp = files wb bp" by (intro apply_remediation_files) auto
        with src(4) neq None show "lookup_file w1 src = Some c"
          by (simp add: lookup_file_def)
      qed
      with run st Some src None show ?thesis by auto
    next
      case c': (Some c')
      let ?w' = "w1\<lparr>files := (files w1)(src \<mapsto> c'), trace := trace w1 @ [FileCopied bp src]\<rparr>"
      from c' src(1) neq(1) wr have "restore_from_backup w1 bp ?rm = (Inr (), ?w')"
        by (rule restore_from_backup_copies)
      with raised Some neq have run: "execute_remediation_item w item = (Inr ?res, ?w')"
        by (simp add: execute_remediation_item_def)
      have l: "lookup_file ?w' src = Some c'" using srcne by (simp add: lookup_file_def)
      have "(rtype ?rm = ''file_edit'' \<or> rtype ?rm = ''service_config'')
              \<and> file_path ?rm \<noteq> Some bp \<longrightarrow> c' = c"
      proof
        assume h: "(rtype ?rm = ''file_edit'' \<or> rtype ?rm = ''service_config'')
                     \<and> file_path ?rm \<noteq> Some bp"
        with ap have "files w1 bp = files wb bp" by (intro apply_remediation_files) auto
        with src(4) neq c' show "c' = c" by (simp add: lookup_file_def)
      qed
      with run st Some src c' l show ?thesis by auto
    qed
  qed
next
  show "\<forall>w0 its approved acc raised' results w''.
          execute_items w0 its approved acc = (raised', results, w'') \<longrightarrow> prefix acc results"
    using execute_items_prefix by blast
qed


lemma file_edit_unwritable_try:
  assumes rm: "rtype (item_remediation item) = ''file_edit''"
      "config_file (item_remediation item) = None"
      "file_path (item_remediation item) = Some fp"
      "backup_required (item_remediation item) = Some True"
      "changes (item_remediation item) = Some cs"
    and there: "lookup_file w fp = Some c"
    and changed: "apply_changes w cs (universal_newlines c) = Inr nc" "nc \<noteq> universal_newlines c"
    and ro: "unwritable w fp" "\<not> unwritable w (backup_path_for fp (clock w (ticks w)))"
  shows "\<exists>w1. try_remediation w (item_remediation item) (initial_result item)
           = (Inl (PermissionError fp),
              (initial_result item)\<lparr>backup_path := Some (backup_path_for fp (clock w (ticks w)))\<rparr>,
              w1)"
proof -
  let ?rm = "item_remediation item"
  let ?bp = "backup_path_for fp (clock w (ticks w))"
  let ?w1 = "w\<lparr>ticks := Suc (ticks w), files := (files w)(?bp \<mapsto> c),
               trace := trace w @ [FileCopied fp ?bp]\<rparr>"
  let ?res1 = "(initial_result item)\<lparr>backup_path := Some ?bp\<rparr>"
  from there have fp: "fp \<noteq> []" by (auto simp: lookup_file_def split: if_splits)
  have src: "backup_source ?rm = Some fp" using rm by (simp add: backup_source_def)
  have t: "try_remediation w ?rm (initial_result item) = apply_remediation ?w1 ?rm ?res1"
    using rm(4) src there ro(2) by (rule try_remediation_backed_up)
  have neq: "?bp \<noteq> fp" by (rule backup_path_for_neq)
  have read: "read_text ?w1 fp = Inr (universal_newlines c)"
    using there neq fp by (simp add: read_text_def lookup_file_def)
  have ch: "apply_changes ?w1 cs (universal_newlines c) = Inr nc"
    using changed(1) by (simp add: apply_changes_cong [of ?w1 w])
  have wr: "write_if_changed ?w1 fp (universal_newlines c) nc ?res1
              = (Inl (PermissionError fp), ?res1, ?w1)"
    using changed(2) ro(1) fp by (simp add: write_if_changed_def write_text_def)
  have "handle_file_edit ?w1 ?rm ?res1 = (Inl (PermissionError fp), ?res1, ?w1)"
    using rm read ch wr by (simp add: handle_file_edit_def)
  with t rm show ?thesis by (simp add: apply_remediation_def)
qed

lemma read_only_host_facts:
  "changes (item_remediation item_V_72433)
     = Some [no_change\<lparr>regex := Some ''^Protocol.*'', replacement := Some ''Protocol 2''\<rparr>,
             no_change\<lparr>append_if_not_found := Some ''Protocol 2''\<rparr>]"
  "backup_required (item_remediation item_V_72433) = Some True"
  "lookup_file read_only_host sshd_config = Some ''PermitRootLogin yes''"
  "apply_changes read_only_host
     [no_change\<lparr>regex := Some ''^Protocol.*'', replacement := Some ''Protocol 2''\<rparr>,
      no_change\<lparr>append_if_not_found := Some ''Protocol 2''\<rparr>]
     (universal_newlines ''PermitRootLogin yes'')
   = Inr (''PermitRootLogin yes'' @ [LF] @ ''Protocol 2'')"
  "''PermitRootLogin yes'' @ [LF] @ ''Protocol 2'' \<noteq> universal_newlines ''PermitRootLogin yes''"
  "unwritable read_only_host sshd_config"
  "\<not> unwritable read_only_host
       (backup_path_for sshd_config (clock read_only_host (ticks read_only_host)))"
  "backup_path_for sshd_config (clock read_only_host (ticks read_only_host)) = example_backup_path"
proof -
  show "changes (item_remediation item_V_72433)
     = Some [no_change\<lparr>regex := Some ''^Protocol.*'', replacement := Some ''Protocol 2''\<rparr>,
             no_change\<lparr>append_if_not_found := Some ''Protocol 2''\<rparr>]"
    by (simp add: item_V_72433_def make_plan_item_def V_72433_def no_remediation_def)
  show "backup_required (item_remediation item_V_72433) = Some True"
    by (simp add: item_V_72433_def make_plan_item_def V_72433_def no_remediation_def)
  show "lookup_file read_only_host sshd_config = Some ''PermitRootLogin yes''"
    by (simp add: lookup_file_def read_only_host_def sshd_config_def)
  show "apply_changes read_only_host
     [no_change\<lparr>regex := Some ''^Protocol.*'', replacement := Some ''Protocol 2''\<rparr>,
      no_change\<lparr>append_if_not_found := Some ''Protocol 2''\<rparr>]
     (universal_newlines ''PermitRootLogin yes'')
   = Inr (''PermitRootLogin yes'' @ [LF] @ ''Protocol 2'')"
    using V_72433_changes_example [of read_only_host] by (simp add: CR_def)
  show "''PermitRootLogin yes'' @ [LF] @ ''Protocol 2'' \<noteq> universal_newlines ''PermitRootLogin yes''"
    by (simp add: CR_def)
  show "unwritable read_only_host sshd_config"
    by (simp add: read_only_host_def)
  show "\<not> unwritable read_only_host
       (backup_path_for sshd_config (clock read_only_host (ticks read_only_host)))"
    using backup_path_for_neq [of sshd_config] by (simp add: read_only_host_def)
  show "backup_path_for sshd_config (clock read_only_host (ticks read_only_host)) = example_backup_path"
    by (simp add: read_only_host_def stored_plan_host_def empty_host_def example_backup_path_for)
qed

text \<open>
  C7, as stated, fails. On the host whose \<open>sshd_config\<close> cannot be written, the write of
  the \<open>V-72433\<close> item raises inside the \<open>try\<close> block with the backup path recorded; the
  restore then raises too, and the exception leaves \<open>_execute_remediation_item\<close>: the item
  has no result.
\<close>

theorem restore_failure_leaves_item:
  "fst (try_remediation read_only_host (item_remediation item_V_72433) (initial_result item_V_72433))
     = Inl (PermissionError sshd_config)
   \<and> backup_path (fst (snd (try_remediation read_only_host (item_remediation item_V_72433)
                              (initial_result item_V_72433))))
     = Some example_backup_path
   \<and> fst (execute_remediation_item read_only_host item_V_72433)
     = Inl (PermissionError sshd_config)"
proof -
  from file_edit_unwritable_try [of item_V_72433 sshd_config _ read_only_host,
         OF item_V_72433_simps(1-3) read_only_host_facts(2,1,3,4,5,6,7)]
  obtain w1 where "try_remediation read_only_host (item_remediation item_V_72433)
                     (initial_result item_V_72433)
                   = (Inl (PermissionError sshd_config),
                      (initial_result item_V_72433)\<lparr>backup_path := Some example_backup_path\<rparr>,
                      w1)"
    by (auto simp: read_only_host_facts(8))
  moreover have "fst (execute_remediation_item read_only_host item_V_72433)
                   = Inl (PermissionError sshd_config)"
    by (rule file_edit_unwritable_escapes
          [OF item_V_72433_simps(1-3) read_only_host_facts(2,1,3,4,5,6,7)])
  ultimately show ?thesis by simp
qed


text \<open>A host with \<open>sshd_config\<close> where \<open>systemctl\<close> cannot be started.\<close>

definition no_systemctl_host :: world where
  "no_systemctl_host = ssh_host\<lparr>spawnable := (\<lambda>prog. prog \<noteq> ''systemctl'')\<rparr>"

lemma file_edit_restart_fails:
  assumes rm: "file_path rm = Some fp" "changes rm = Some cs" "service_restart rm = Some svc"
    and there: "lookup_file w fp = Some c"
    and changed: "apply_changes w cs (universal_newlines c) = Inr nc" "nc \<noteq> universal_newlines c"
    and ok: "\<not> unwritable w fp" "\<not> spawnable w ''systemctl''"
  shows "handle_file_edit w rm res =
           (Inl (FileNotFoundError ''systemctl''), add_change res (''Updated '' @ fp),
            w\<lparr>files := (files w)(fp \<mapsto> nc), trace := trace w @ [FileWritten fp nc]\<rparr>)"
proof -
  let ?w1 = "w\<lparr>files := (files w)(fp \<mapsto> nc), trace := trace w @ [FileWritten fp nc]\<rparr>"
  from there have fp: "fp \<noteq> []" by (auto simp: lookup_file_def split: if_splits)
  have read: "read_text w fp = Inr (universal_newlines c)"
    using there by (simp add: read_text_def)
  have wr: "write_if_changed w fp (universal_newlines c) nc res
              = (Inr (), add_change res (''Updated '' @ fp), ?w1)"
    using changed(2) ok(1) fp by (simp add: write_if_changed_def write_text_def)
  have rs: "restart_if_required ?w1 rm (add_change res (''Updated '' @ fp))
              = (Inl (FileNotFoundError ''systemctl''), add_change res (''Updated '' @ fp), ?w1)"
    using rm(3) ok(2) by (simp add: restart_if_required_def restart_service_def run_systemctl_def)
  show ?thesis
    using rm read changed(1) wr rs by (simp add: handle_file_edit_def)
qed

lemma no_systemctl_host_try:
  "\<exists>w1. try_remediation no_systemctl_host (item_remediation item_V_72433)
           (initial_result item_V_72433)
         = (Inl (FileNotFoundError ''systemctl''),
            add_change ((initial_result item_V_72433)\<lparr>backup_path := Some example_backup_path\<rparr>)
              (''Updated '' @ sshd_config),
            w1)"
proof -
  let ?rm = "item_remediation item_V_72433"
  let ?w = "no_systemctl_host"
  let ?c = "''PermitRootLogin yes''"
  let ?w1 = "?w\<lparr>ticks := Suc (ticks ?w),
                files := (files ?w)(backup_path_for sshd_config (clock ?w (ticks ?w)) \<mapsto> ?c),
                trace := trace ?w @ [FileCopied sshd_config
                                       (backup_path_for sshd_config (clock ?w (ticks ?w)))]\<rparr>"
  have bp: "backup_path_for sshd_config (clock ?w (ticks ?w)) = example_backup_path"
    by (simp add: no_systemctl_host_def ssh_host_def empty_host_def example_backup_path_for)
  have src: "backup_source ?rm = Some sshd_config"
    by (simp add: backup_source_def item_V_72433_simps)
  have there: "lookup_file ?w sshd_config = Some ?c"
    by (simp add: lookup_file_def no_systemctl_host_def ssh_host_def sshd_config_def)
  have wr: "\<not> unwritable ?w (backup_path_for sshd_config (clock ?w (ticks ?w)))"
    by (simp add: no_systemctl_host_def ssh_host_def empty_host_def)
  have t: "try_remediation ?w ?rm (initial_result item_V_72433)
             = apply_remediation ?w1 ?rm
                 ((initial_result item_V_72433)
                    \<lparr>backup_path := Some (backup_path_for sshd_config (clock ?w (ticks ?w)))\<rparr>)"
    using read_only_host_facts(2) src there wr by (rule try_remediation_backed_up)
  have there1: "lookup_file ?w1 sshd_config = Some ?c"
    using there backup_path_for_neq [of sshd_config "clock ?w (ticks ?w)"]
    by (auto simp: lookup_file_def split: if_splits)
  have ch: "apply_changes ?w1
              [no_change\<lparr>regex := Some ''^Protocol.*'', replacement := Some ''Protocol 2''\<rparr>,
               no_change\<lparr>append_if_not_found := Some ''Protocol 2''\<rparr>]
              (universal_newlines ?c)
            = Inr (?c @ [LF] @ ''Protocol 2'')"
    using V_72433_changes_example [of ?w1] by (simp add: CR_def)
  have sr: "service_restart ?rm = Some ''ssh''"
    by (simp add: item_V_72433_def make_plan_item_def V_72433_def no_remediation_def)
  have ok: "\<not> unwritable ?w1 sshd_config" "\<not> spawnable ?w1 ''systemctl''"
    by (simp_all add: no_systemctl_host_def ssh_host_def empty_host_def)
  from file_edit_restart_fails
         [OF item_V_72433_simps(3) read_only_host_facts(1) sr there1 ch read_only_host_facts(5) ok]
  have "handle_file_edit ?w1 ?rm
          ((initial_result item_V_72433)
             \<lparr>backup_path := Some (backup_path_for sshd_config (clock ?w (ticks ?w)))\<rparr>)
        = (Inl (FileNotFoundError ''systemctl''),
           add_change ((initial_result item_V_72433)
             \<lparr>backup_path := Some (backup_path_for sshd_config (clock ?w (ticks ?w)))\<rparr>)
             (''Updated '' @ sshd_config),
           ?w1\<lparr>files := (files ?w1)(sshd_config \<mapsto> ?c @ [LF] @ ''Protocol 2''),
                trace := trace ?w1 @ [FileWritten sshd_config (?c @ [LF] @ ''Protocol 2'')]\<rparr>)" .
  with t show ?thesis
    by (simp add: apply_remediation_def item_V_72433_simps bp)
qed

theorem item_failure_contained_witness:
  "\<exists>w'. execute_remediation_item no_systemctl_host item_V_72433
           = (Inr ((add_change ((initial_result item_V_72433)
                                  \<lparr>backup_path := Some example_backup_path\<rparr>)
                      (''Updated '' @ sshd_config))
                   \<lparr>res_error := Some (py_str (FileNotFoundError ''systemctl''))\<rparr>), w')
      \<and> lookup_file w' sshd_config = Some ''PermitRootLogin yes''"
proof -
  let ?res = "add_change ((initial_result item_V_72433)\<lparr>backup_path := Some example_backup_path\<rparr>)
                (''Updated '' @ sshd_config)"
  from no_systemctl_host_try obtain w1 where
    raised: "try_remediation no_systemctl_host (item_remediation item_V_72433)
               (initial_result item_V_72433)
             = (Inl (FileNotFoundError ''systemctl''), ?res, w1)"
    by blast
  have writable: "\<forall>t. restore_target (item_remediation item_V_72433) = Some t
                      \<longrightarrow> \<not> unwritable no_systemctl_host t"
    by (simp add: no_systemctl_host_def ssh_host_def empty_host_def)
  have bp: "backup_path ?res = Some example_backup_path" by (simp add: add_change_def)
  have tgt: "restore_target (item_remediation item_V_72433) = Some sshd_config"
    by (simp add: restore_target_def item_V_72433_simps sshd_config_def)
  have there: "lookup_file no_systemctl_host sshd_config = Some ''PermitRootLogin yes''"
    by (simp add: lookup_file_def no_systemctl_host_def ssh_host_def sshd_config_def)
  have other: "file_path (item_remediation item_V_72433) \<noteq> Some example_backup_path"
    by (simp add: item_V_72433_simps sshd_config_def example_backup_path_def)
  from item_failure_contained [OF raised writable] obtain w' where
    run: "execute_remediation_item no_systemctl_host item_V_72433
            = (Inr (?res\<lparr>res_error := Some (py_str (FileNotFoundError ''systemctl''))\<rparr>), w')"
    and restored: "\<forall>bp. backup_path ?res = Some bp \<longrightarrow>
                  (\<exists>src c. restore_target (item_remediation item_V_72433) = Some src
                     \<and> lookup_file no_systemctl_host src = Some c
                     \<and> (\<forall>c'. lookup_file w1 bp = Some c' \<longrightarrow> lookup_file w' src = Some c')
                     \<and> ((rtype (item_remediation item_V_72433) = ''file_edit''
                          \<or> rtype (item_remediation item_V_72433) = ''service_config'')
                         \<and> file_path (item_remediation item_V_72433) \<noteq> Some bp
                         \<longrightarrow> lookup_file w' src = Some c))"
    by blast
  from restored bp tgt there other item_V_72433_simps(1)
  have "lookup_file w' sshd_config = Some ''PermitRootLogin yes''"
    by auto
  with run show ?thesis by blast
qed



section \<open>Lines, and the change operations\<close>

lemma split_lf_Cons_lf: "split_lf (LF # s) = [] # split_lf s"
  by (subst split_lf.simps) simp

lemma split_lf_Cons_other:
  assumes "c \<noteq> LF"
  shows "split_lf (c # s) = (c # hd (split_lf s)) # tl (split_lf s)"
proof (cases "dropWhile (\<lambda>c. c \<noteq> LF) s")
  case Nil
  have d: "dropWhile (\<lambda>c. c \<noteq> LF) (c # s) = []" using Nil assms by simp
  have "split_lf s = [s]" by (subst split_lf.simps) (simp only: Nil list.case)
  moreover have "split_lf (c # s) = [c # s]"
    by (subst split_lf.simps) (simp only: d list.case)
  ultimately show ?thesis by simp
next
  case (Cons x rest)
  have d: "dropWhile (\<lambda>c. c \<noteq> LF) (c # s) = x # rest" using Cons assms by simp
  have t: "takeWhile (\<lambda>c. c \<noteq> LF) (c # s) = c # takeWhile (\<lambda>c. c \<noteq> LF) s"
    using assms by simp
  have "split_lf s = takeWhile (\<lambda>c. c \<noteq> LF) s # split_lf rest"
    by (subst split_lf.simps) (simp only: Cons list.case)
  moreover have "split_lf (c # s) = (c # takeWhile (\<lambda>c. c \<noteq> LF) s) # split_lf rest"
    by (subst split_lf.simps) (simp only: d t list.case)
  ultimately show ?thesis by simp
qed

lemma split_lf_Nil [simp]: "split_lf [] = [[]]"
  by (subst split_lf.simps) simp

lemma split_lf_not_Nil [simp]: "split_lf s \<noteq> []"
  by (subst split_lf.simps) (simp split: list.splits)

lemma split_lf_append:
  "LF \<notin> set x \<Longrightarrow> split_lf (x @ LF # rest) = x # split_lf rest"
proof (induction x)
  case Nil
  then show ?case by (simp add: split_lf_Cons_lf)
next
  case (Cons a x)
  then have "a \<noteq> LF" and "split_lf (x @ LF # rest) = x # split_lf rest" by auto
  then show ?case by (simp add: split_lf_Cons_other)
qed

lemma split_lf_no_lf_iff: "LF \<notin> set x \<Longrightarrow> split_lf x = [x]"
  by (rule split_lf_no_lf)

lemma split_lf_join:
  "ls \<noteq> [] \<Longrightarrow> \<forall>l \<in> set ls. LF \<notin> set l \<Longrightarrow> split_lf (py_join [LF] ls) = ls"
proof (induction ls)
  case Nil
  then show ?case by simp
next
  case (Cons x ls)
  show ?case
  proof (cases ls)
    case Nil
    with Cons.prems show ?thesis by (simp add: split_lf_no_lf)
  next
    case (Cons y ys)
    with Cons.IH Cons.prems have "split_lf (py_join [LF] ls) = ls" by simp
    with Cons Cons.prems show ?thesis by (simp add: split_lf_append)
  qed
qed

lemma join_split_lf: "py_join [LF] (split_lf s) = s"
proof (induction s)
  case Nil
  then show ?case by simp
next
  case (Cons c s)
  show ?case
  proof (cases "c = LF")
    case True
    with Cons show ?thesis
      by (cases "split_lf s") (simp_all add: split_lf_Cons_lf)
  next
    case False
    with Cons show ?thesis
      by (cases "split_lf s"; cases "tl (split_lf s)") (auto simp: split_lf_Cons_other)
  qed
qed

lemma split_lf_lines_no_lf: "l \<in> set (split_lf s) \<Longrightarrow> LF \<notin> set l"
proof (induction s arbitrary: l)
  case Nil
  then show ?case by simp
next
  case (Cons c s)
  show ?case
  proof (cases "c = LF")
    case True
    with Cons show ?thesis by (auto simp: split_lf_Cons_lf)
  next
    case False
    have "hd (split_lf s) \<in> set (split_lf s)" by simp
    with Cons.IH have h: "LF \<notin> set (hd (split_lf s))" by blast
    from Cons.prems False have "l = c # hd (split_lf s) \<or> l \<in> set (tl (split_lf s))"
      by (simp add: split_lf_Cons_other)
    then show ?thesis
    proof
      assume "l = c # hd (split_lf s)"
      with h False show ?thesis by auto
    next
      assume "l \<in> set (tl (split_lf s))"
      then have "l \<in> set (split_lf s)" by (rule list.set_sel(2) [rotated]) simp
      with Cons.IH show ?thesis by blast
    qed
  qed
qed


lemma str_contains_iff: "str_contains x s \<longleftrightarrow> (\<exists>pre post. s = pre @ x @ post)"
proof (induction s)
  case Nil
  then show ?case by simp
next
  case (Cons c cs)
  show ?case
  proof
    assume "str_contains x (c # cs)"
    then consider "prefix x (c # cs)" | "str_contains x cs" by auto
    then show "\<exists>pre post. c # cs = pre @ x @ post"
    proof cases
      case 1
      then obtain post where "c # cs = x @ post" by (auto simp: prefix_def)
      then have "c # cs = [] @ x @ post" by simp
      then show ?thesis by blast
    next
      case 2
      with Cons.IH obtain pre post where "cs = pre @ x @ post" by blast
      then have "c # cs = (c # pre) @ x @ post" by simp
      then show ?thesis by blast
    qed
  next
    assume "\<exists>pre post. c # cs = pre @ x @ post"
    then obtain pre post where e: "c # cs = pre @ x @ post" by blast
    show "str_contains x (c # cs)"
    proof (cases pre)
      case Nil
      with e have "prefix x (c # cs)" by (simp add: prefix_def)
      then show ?thesis by simp
    next
      case (Cons p pre')
      with e have "cs = pre' @ x @ post" by simp
      with Cons.IH have "str_contains x cs" by blast
      then show ?thesis by simp
    qed
  qed
qed

lemma line_in_join: "l \<in> set ls \<Longrightarrow> \<exists>pre post. py_join sep ls = pre @ l @ post"
proof (induction sep ls rule: py_join.induct)
  case (1 sep)
  then show ?case by simp
next
  case (2 sep x)
  then have "py_join sep [x] = [] @ l @ []" by simp
  then show ?case by blast
next
  case (3 sep x y ys)
  show ?case
  proof (cases "l = x")
    case True
    then have "py_join sep (x # y # ys) = [] @ l @ (sep @ py_join sep (y # ys))" by simp
    then show ?thesis by blast
  next
    case False
    with 3 obtain pre post where "py_join sep (y # ys) = pre @ l @ post" by auto
    then have "py_join sep (x # y # ys) = (x @ sep @ pre) @ l @ post" by simp
    then show ?thesis by blast
  qed
qed

lemma line_contained: "l \<in> set (split_lf s) \<Longrightarrow> str_contains l s"
  using line_in_join [of l "split_lf s" "[LF]"] by (simp add: join_split_lf str_contains_iff)

lemma line_start_literal_pattern:
  assumes "line_start_literal pat = Some lit"
  shows "pat = CHR ''^'' # lit @ ''.*''"
proof (cases pat)
  case Nil
  with assms show ?thesis by (simp add: line_start_literal_def)
next
  case (Cons c rest)
  with assms have c: "c = CHR ''^''" and d: "drop (length rest - 2) rest = ''.*''"
    and l: "lit = take (length rest - 2) rest"
    by (auto simp: line_start_literal_def Let_def split: if_splits)
  have "rest = take (length rest - 2) rest @ drop (length rest - 2) rest" by simp
  with d l have "rest = lit @ ''.*''" by simp
  with Cons c show ?thesis by simp
qed

lemma map_lines_no_lf:
  assumes "LF \<notin> set repl"
  shows "\<forall>l \<in> set (map (\<lambda>l. if prefix lit l then repl else l) (split_lf s)). LF \<notin> set l"
  using assms by (auto dest: split_lf_lines_no_lf)

lemma split_lf_sub_lines:
  assumes "LF \<notin> set repl"
  shows "split_lf (sub_lines lit repl s) = map (\<lambda>l. if prefix lit l then repl else l) (split_lf s)"
  unfolding sub_lines_def
  by (rule split_lf_join) (simp_all add: map_lines_no_lf [OF assms])

text \<open>The two kinds of change the catalog uses: a regex with its replacement, and a marker.\<close>

definition regex_change :: "string \<Rightarrow> string \<Rightarrow> change" where
  "regex_change pat repl = \<lparr>regex = Some pat, replacement = Some repl, append_if_not_found = None\<rparr>"

definition append_change :: "string \<Rightarrow> change" where
  "append_change a = \<lparr>regex = None, replacement = None, append_if_not_found = Some a\<rparr>"

lemma apply_change_regex:
  assumes "line_start_literal pat = Some lit" "CHR 0x5C \<notin> set repl"
  shows "apply_change w (regex_change pat repl) s = Inr (sub_lines lit repl s)"
  using assms by (simp add: apply_change_def regex_change_def re_compile_multiline_def)

lemma apply_change_append:
  "apply_change w (append_change a) s = Inr (if str_contains a s then s else s @ [LF] @ a)"
  by (simp add: apply_change_def append_change_def)

text \<open>
  C5, amended. A regex operation with a pattern \<open>^lit.*\<close> and a plain replacement
  substitutes every match: the lines of the result are the lines of the content, each line
  that starts with \<open>lit\<close> replaced. An append operation appends a line feed and the marker
  exactly when the marker does not occur in the content as a substring; so it appends
  nothing when a line of the content is the marker.
\<close>

theorem change_operations:
  "(line_start_literal pat = Some lit \<and> CHR 0x5C \<notin> set repl \<and> LF \<notin> set repl \<longrightarrow>
      pat = CHR ''^'' # lit @ ''.*''
      \<and> (\<exists>s'. apply_change w (regex_change pat repl) s = Inr s'
             \<and> split_lf s' = map (\<lambda>l. if prefix lit l then repl else l) (split_lf s)))
   \<and> apply_change w (append_change a) s
       = Inr (if str_contains a s then s else s @ [LF] @ a)
   \<and> (str_contains a s \<longleftrightarrow> (\<exists>pre post. s = pre @ a @ post))
   \<and> (a \<in> set (split_lf s) \<longrightarrow> apply_change w (append_change a) s = Inr s)"
proof (intro conjI impI)
  assume h: "line_start_literal pat = Some lit \<and> CHR 0x5C \<notin> set repl \<and> LF \<notin> set repl"
  then show "pat = CHR ''^'' # lit @ ''.*''" by (simp add: line_start_literal_pattern)
  from h have "apply_change w (regex_change pat repl) s = Inr (sub_lines lit repl s)"
    by (simp add: apply_change_regex)
  moreover from h have "split_lf (sub_lines lit repl s)
                          = map (\<lambda>l. if prefix lit l then repl else l) (split_lf s)"
    by (simp add: split_lf_sub_lines)
  ultimately show "\<exists>s'. apply_change w (regex_change pat repl) s = Inr s'
             \<and> split_lf s' = map (\<lambda>l. if prefix lit l then repl else l) (split_lf s)"
    by blast
next
  show "apply_change w (append_change a) s = Inr (if str_contains a s then s else s @ [LF] @ a)"
    by (rule apply_change_append)
next
  show "str_contains a s \<longleftrightarrow> (\<exists>pre post. s = pre @ a @ post)" by (rule str_contains_iff)
next
  assume "a \<in> set (split_lf s)"
  then have "str_contains a s" by (rule line_contained)
  then show "apply_change w (append_change a) s = Inr s" by (simp add: apply_change_append)
qed


text \<open>
  The regex operation as the specification words it: only the first match is substituted.
  For a pattern \<open>^lit.*\<close> that is the first line starting with \<open>lit\<close>.
\<close>

fun replace_first_line :: "string \<Rightarrow> string \<Rightarrow> string list \<Rightarrow> string list" where
  "replace_first_line lit repl [] = []"
| "replace_first_line lit repl (l # ls) =
     (if prefix lit l then repl # ls else l # replace_first_line lit repl ls)"

definition spec_sub_first :: "string \<Rightarrow> string \<Rightarrow> string \<Rightarrow> string" where
  "spec_sub_first lit repl s = py_join [LF] (replace_first_line lit repl (split_lf s))"

definition two_root_logins :: string where
  "two_root_logins = ''PermitRootLogin yes'' @ [LF] @ ''PermitRootLogin yes''"

lemma split_lf_two_root_logins:
  "split_lf two_root_logins = [''PermitRootLogin yes'', ''PermitRootLogin yes'']"
proof -
  have n: "LF \<notin> set ''PermitRootLogin yes''" by (simp add: LF_def)
  have e: "two_root_logins = ''PermitRootLogin yes'' @ LF # ''PermitRootLogin yes''"
    by (simp add: two_root_logins_def)
  have a: "split_lf (''PermitRootLogin yes'' @ LF # ''PermitRootLogin yes'')
             = ''PermitRootLogin yes'' # split_lf ''PermitRootLogin yes''"
    using n by (rule split_lf_append)
  have b: "split_lf ''PermitRootLogin yes'' = [''PermitRootLogin yes'']"
    using n by (rule split_lf_no_lf)
  show ?thesis by (simp only: e a b)
qed

text \<open>
  C5, as stated, fails. On two lines that both start with \<open>PermitRootLogin\<close> the regex
  operation of \<open>V-72435\<close> replaces both; substituting the first match only would leave
  the second line as it was.
\<close>

theorem regex_substitutes_every_match:
  "apply_change empty_host (regex_change ''^PermitRootLogin.*'' ''PermitRootLogin no'')
     two_root_logins
     = Inr (''PermitRootLogin no'' @ [LF] @ ''PermitRootLogin no'')
   \<and> spec_sub_first ''PermitRootLogin'' ''PermitRootLogin no'' two_root_logins
     = ''PermitRootLogin no'' @ [LF] @ ''PermitRootLogin yes''"
proof -
  have "apply_change empty_host (regex_change ''^PermitRootLogin.*'' ''PermitRootLogin no'')
          two_root_logins
        = Inr (sub_lines ''PermitRootLogin'' ''PermitRootLogin no'' two_root_logins)"
    by (rule apply_change_regex) (simp_all add: line_start_literal_PermitRootLogin)
  then show ?thesis
    by (simp add: sub_lines_def spec_sub_first_def split_lf_two_root_logins)
qed

theorem change_operations_witness:
  "\<exists>s'. apply_change empty_host (regex_change ''^PermitRootLogin.*'' ''PermitRootLogin no'')
            two_root_logins = Inr s'
      \<and> split_lf s' = [''PermitRootLogin no'', ''PermitRootLogin no'']"
proof -
  have h: "line_start_literal ''^PermitRootLogin.*'' = Some ''PermitRootLogin''
           \<and> CHR 0x5C \<notin> set ''PermitRootLogin no'' \<and> LF \<notin> set ''PermitRootLogin no''"
    by (simp add: line_start_literal_PermitRootLogin LF_def)
  from change_operations [where pat = "''^PermitRootLogin.*''" and lit = "''PermitRootLogin''"
         and repl = "''PermitRootLogin no''" and w = empty_host and s = two_root_logins] h
  obtain s' where "apply_change empty_host
                     (regex_change ''^PermitRootLogin.*'' ''PermitRootLogin no'') two_root_logins
                   = Inr s'"
    and "split_lf s' = map (\<lambda>l. if prefix ''PermitRootLogin'' l then ''PermitRootLogin no'' else l)
                         (split_lf two_root_logins)"
    by blast
  then show ?thesis by (simp add: split_lf_two_root_logins)
qed


section \<open>The settings upsert\<close>


text \<open>
  What \<open>_update_config_file\<close> makes of one line: the key a stripped line sets, the key of
  the settings a line sets if any, and the line written for it.
\<close>

definition line_key :: "string \<Rightarrow> string" where
  "line_key line = py_strip (takeWhile (\<lambda>c. c \<noteq> CHR ''='') line)"

definition line_sets :: "(string \<times> string) list \<Rightarrow> string \<Rightarrow> string option" where
  "line_sets st raw_line =
     (let line = py_strip raw_line
      in if CHR ''='' \<in> set line \<and> map_of st (line_key line) \<noteq> None
         then Some (line_key line) else None)"

definition setting_line :: "string \<times> string \<Rightarrow> string" where
  "setting_line kv = fst kv @ '' = '' @ snd kv"

definition upsert_line :: "(string \<times> string) list \<Rightarrow> string \<Rightarrow> string" where
  "upsert_line st raw_line =
     (case line_sets st raw_line of
        None \<Rightarrow> py_strip raw_line
      | Some key \<Rightarrow> (case map_of st key of None \<Rightarrow> py_strip raw_line
                                     | Some v \<Rightarrow> setting_line (key, v)))"

definition keys_set :: "(string \<times> string) list \<Rightarrow> string list \<Rightarrow> string list" where
  "keys_set st lines = List.map_filter (line_sets st) lines"

definition missing_settings ::
  "(string \<times> string) list \<Rightarrow> string list \<Rightarrow> (string \<times> string) list" where
  "missing_settings st lines = filter (\<lambda>kv. fst kv \<notin> set (keys_set st lines)) st"

definition upserted_lines :: "(string \<times> string) list \<Rightarrow> string list \<Rightarrow> string list" where
  "upserted_lines st lines = map (upsert_line st) lines @ map setting_line (missing_settings st lines)"

lemma update_lines_eq:
  "update_lines fp st lines (ul, found, msgs) =
     (ul @ map (upsert_line st) lines, found \<union> set (keys_set st lines),
      msgs @ map (\<lambda>k. ''Updated '' @ k @ '' in '' @ fp) (keys_set st lines))"
proof (induction lines arbitrary: ul found msgs)
  case Nil
  then show ?case by (simp add: keys_set_def)
next
  case (Cons raw lines)
  show ?case
  proof (cases "line_sets st raw")
    case None
    then have "update_lines fp st (raw # lines) (ul, found, msgs)
                 = update_lines fp st lines (ul @ [py_strip raw], found, msgs)"
      by (auto simp: line_sets_def line_key_def Let_def split: option.splits if_splits)
    with None Cons.IH show ?thesis
      by (simp add: upsert_line_def keys_set_def List.map_filter_simps)
  next
    case (Some key)
    then obtain v where v: "map_of st key = Some v"
      by (auto simp: line_sets_def Let_def split: if_splits)
    with Some have "update_lines fp st (raw # lines) (ul, found, msgs)
                 = update_lines fp st lines
                     (ul @ [key @ '' = '' @ v], insert key found,
                      msgs @ [''Updated '' @ key @ '' in '' @ fp])"
      by (auto simp: line_sets_def line_key_def Let_def split: option.splits if_splits)
    with Some v Cons.IH show ?thesis
      by (simp add: upsert_line_def keys_set_def List.map_filter_simps setting_line_def)
  qed
qed

lemma add_missing_eq:
  "add_missing fp found st (ul, msgs) =
     (ul @ map setting_line (filter (\<lambda>kv. fst kv \<notin> found) st),
      msgs @ map (\<lambda>kv. ''Added '' @ fst kv @ '' to '' @ fp) (filter (\<lambda>kv. fst kv \<notin> found) st))"
  by (induction fp found st "(ul, msgs)" arbitrary: ul msgs rule: add_missing.induct)
     (simp_all add: setting_line_def)

definition upsert_messages :: "string \<Rightarrow> (string \<times> string) list \<Rightarrow> string list \<Rightarrow> string list" where
  "upsert_messages fp st lines =
     map (\<lambda>k. ''Updated '' @ k @ '' in '' @ fp) (keys_set st lines)
     @ map (\<lambda>kv. ''Added '' @ fst kv @ '' to '' @ fp) (missing_settings st lines)"

lemma update_config_file_writes:
  assumes "lookup_file w fp = Some raw" "\<not> unwritable w fp"
  shows "update_config_file w fp st res =
           (Inr (),
            res\<lparr>changes_made := changes_made res
                   @ upsert_messages fp st (readlines (universal_newlines raw))\<rparr>,
            w\<lparr>files := (files w)(fp \<mapsto> py_join [LF]
                           (upserted_lines st (readlines (universal_newlines raw)))),
              trace := trace w @ [FileWritten fp (py_join [LF]
                           (upserted_lines st (readlines (universal_newlines raw))))]\<rparr>)"
proof -
  from assms(1) have fp: "fp \<noteq> []" by (auto simp: lookup_file_def split: if_splits)
  show ?thesis
    using assms fp
    by (simp add: update_config_file_def read_text_def update_lines_eq add_missing_eq
          write_text_def upserted_lines_def missing_settings_def upsert_messages_def)
qed


lemma upsert_line_other:
  "line_sets st raw_line = None \<Longrightarrow> upsert_line st raw_line = py_strip raw_line"
  by (simp add: upsert_line_def)

lemma upsert_line_match:
  "line_sets st raw_line = Some key \<Longrightarrow>
     \<exists>v. map_of st key = Some v \<and> upsert_line st raw_line = key @ '' = '' @ v"
  by (auto simp: upsert_line_def line_sets_def Let_def setting_line_def split: if_splits)

text \<open>
  C8 (as amended). A \<open>package_install\<close> whose \<open>apt-get\<close> returns 0, with a configuration
  file that exists and can be written: the handler succeeds; the configuration file then
  holds, joined by line feeds with none at the end, one line for each line read -- 
  \<open>key = value\<close> where the line sets a key of the settings, the line stripped of the white
  space at both its ends otherwise -- and after them one line \<open>key = value\<close> for each setting
  that no line set, in the order of the settings; every other file is as \<open>apt-get\<close> left it;
  and the result gains the description of each of these changes.
\<close>

theorem settings_upsert:
  assumes "package r = Some pkg" and "config_file r = Some fp" and "settings r = Some st"
    and "spawnable w ''apt-get''" and "apt_get_install w pkg (files w) = (0, err, fs)"
    and "fp \<noteq> []" and "fs fp = Some raw" and "\<not> unwritable w fp"
  shows "\<exists>res' w'.
           handle_package_installation w r res = (Inr (), res', w')
         \<and> files w' = fs(fp \<mapsto> py_join [LF]
                          (upserted_lines st (readlines (universal_newlines raw))))
         \<and> changes_made res' = changes_made res @ [''Installed package '' @ pkg]
                          @ upsert_messages fp st (readlines (universal_newlines raw))"
proof -
  let ?w1 = "w\<lparr>files := fs,
                trace := trace w @ [Spawned [''apt-get'', ''install'', ''-y'', pkg]]\<rparr>"
  have apt: "run_apt_get w pkg = (Inr (0, err), ?w1)"
    using assms(4,5) by (simp add: run_apt_get_def)
  have there: "lookup_file ?w1 fp = Some raw" "\<not> unwritable ?w1 fp"
    using assms(6,7,8) by (simp_all add: lookup_file_def)
  have "handle_package_installation w r res
          = update_config_file ?w1 fp st (add_change res (''Installed package '' @ pkg))"
    using assms(1,2,3) apt by (simp add: handle_package_installation_def Let_def)
  then show ?thesis
    unfolding update_config_file_writes [OF there]
    by (simp add: add_change_def)
qed

definition pwquality_conf :: string where
  "pwquality_conf = ''/etc/security/pwquality.conf''"

definition pwquality_text :: string where
  "pwquality_text = ''  # Password quality'' @ [LF] @ ''minlen=8'' @ [LF]"

definition pwquality_host :: world where
  "pwquality_host = empty_host\<lparr>files := [pwquality_conf \<mapsto> pwquality_text]\<rparr>"

definition pwquality_settings :: "(string \<times> string) list" where
  "pwquality_settings = [(''minlen'', ''14''), (''dcredit'', ''-1''), (''ucredit'', ''-1''),
                         (''lcredit'', ''-1''), (''ocredit'', ''-1'')]"

definition pwquality_upserted :: "string list" where
  "pwquality_upserted = [''# Password quality'', ''minlen = 14'', ''dcredit = -1'',
                         ''ucredit = -1'', ''lcredit = -1'', ''ocredit = -1'']"

definition pwquality_read :: "string list" where
  "pwquality_read = [''  # Password quality'' @ [LF], ''minlen=8'' @ [LF]]"

definition pwquality_messages :: "string list" where
  "pwquality_messages =
     [''Updated minlen in /etc/security/pwquality.conf'',
      ''Added dcredit to /etc/security/pwquality.conf'',
      ''Added ucredit to /etc/security/pwquality.conf'',
      ''Added lcredit to /etc/security/pwquality.conf'',
      ''Added ocredit to /etc/security/pwquality.conf'']"

lemma pwquality_lines:
  "readlines (universal_newlines pwquality_text) = pwquality_read"
  by code_simp

lemma pwquality_upsert_messages:
  "upsert_messages pwquality_conf pwquality_settings pwquality_read = pwquality_messages"
  by code_simp

lemma pwquality_line_sets:
  "line_sets pwquality_settings (''  # Password quality'' @ [LF]) = None"
  by code_simp

lemma pwquality_upserted_lines:
  "upserted_lines pwquality_settings pwquality_read = pwquality_upserted"
  by code_simp

lemma V_72427_simps:
  "package V_72427 = Some ''libpam-pwquality''"
  "config_file V_72427 = Some pwquality_conf"
  "settings V_72427 = Some pwquality_settings"
  by (simp_all add: V_72427_def no_remediation_def pwquality_conf_def pwquality_settings_def)

lemma pwquality_host_simps:
  "spawnable pwquality_host ''apt-get''"
  "apt_get_install pwquality_host ''libpam-pwquality'' (files pwquality_host)
     = (0, [], [pwquality_conf \<mapsto> pwquality_text])"
  "\<not> unwritable pwquality_host pwquality_conf"
  "pwquality_conf \<noteq> []"
  by (simp_all add: pwquality_host_def empty_host_def pwquality_conf_def)

text \<open>
  C8, as stated, fails. The first line of this configuration file sets no key of the
  settings, and it is not written back as it was read: the two spaces in front of it are
  gone.
\<close>

theorem upsert_strips_other_lines:
  "line_sets pwquality_settings (''  # Password quality'' @ [LF]) = None
   \<and> lookup_file pwquality_host pwquality_conf
       = Some (''  # Password quality'' @ [LF] @ ''minlen=8'' @ [LF])
   \<and> fst (handle_package_installation pwquality_host V_72427
             (initial_result (make_plan_item (failed_finding ''V-72427'') V_72427))) = Inr ()
   \<and> lookup_file (snd (snd (handle_package_installation pwquality_host V_72427
             (initial_result (make_plan_item (failed_finding ''V-72427'') V_72427)))))
         pwquality_conf
       = Some (''# Password quality'' @ [LF] @ ''minlen = 14'' @ [LF] @ ''dcredit = -1'' @ [LF]
               @ ''ucredit = -1'' @ [LF] @ ''lcredit = -1'' @ [LF] @ ''ocredit = -1'')"
proof -
  let ?res = "initial_result (make_plan_item (failed_finding ''V-72427'') V_72427)"
  let ?new = "py_join [LF] pwquality_upserted"
  have "\<exists>res' w'. handle_package_installation pwquality_host V_72427 ?res = (Inr (), res', w')
          \<and> files w' = [pwquality_conf \<mapsto> pwquality_text](pwquality_conf \<mapsto> ?new)"
  proof -
    have run: "update_config_file
            (pwquality_host\<lparr>files := [pwquality_conf \<mapsto> pwquality_text],
               trace := trace pwquality_host
                          @ [Spawned [''apt-get'', ''install'', ''-y'', ''libpam-pwquality'']]\<rparr>)
            pwquality_conf pwquality_settings res1
          = (Inr (),
             res1\<lparr>changes_made := changes_made res1 @ pwquality_messages\<rparr>,
             pwquality_host\<lparr>files := [pwquality_conf \<mapsto> pwquality_text],
               trace := trace pwquality_host
                          @ [Spawned [''apt-get'', ''install'', ''-y'', ''libpam-pwquality'']]\<rparr>
             \<lparr>files := [pwquality_conf \<mapsto> pwquality_text](pwquality_conf \<mapsto> ?new),
              trace := (trace pwquality_host
                          @ [Spawned [''apt-get'', ''install'', ''-y'', ''libpam-pwquality'']])
                       @ [FileWritten pwquality_conf ?new]\<rparr>)" for res1
      using update_config_file_writes
              [where w = "pwquality_host\<lparr>files := [pwquality_conf \<mapsto> pwquality_text],
                  trace := trace pwquality_host
                     @ [Spawned [''apt-get'', ''install'', ''-y'', ''libpam-pwquality'']]\<rparr>"
                 and fp = pwquality_conf and raw = pwquality_text
                 and st = pwquality_settings and res = res1]
      by (simp add: lookup_file_def pwquality_host_simps pwquality_lines
            pwquality_upserted_lines pwquality_upsert_messages)
    show ?thesis
      by (simp add: handle_package_installation_def V_72427_simps run_apt_get_def
            pwquality_host_simps Let_def run)
  qed
  then obtain res' w' where
    run: "handle_package_installation pwquality_host V_72427 ?res = (Inr (), res', w')"
    and fs: "files w' = [pwquality_conf \<mapsto> pwquality_text](pwquality_conf \<mapsto> ?new)"
    by blast
  have "lookup_file w' pwquality_conf = Some ?new"
    using fs by (simp add: lookup_file_def pwquality_host_simps)
  moreover have "lookup_file pwquality_host pwquality_conf = Some pwquality_text"
    by (simp add: lookup_file_def pwquality_host_simps pwquality_host_def)
  ultimately show ?thesis
    using run pwquality_line_sets
    by (simp add: pwquality_text_def pwquality_upserted_def)
qed

theorem settings_upsert_witness:
  "\<exists>res' w'.
     handle_package_installation pwquality_host V_72427
       (initial_result (make_plan_item (failed_finding ''V-72427'') V_72427))
       = (Inr (), res', w')
   \<and> files w' = [pwquality_conf \<mapsto> py_join [LF] pwquality_upserted]
   \<and> changes_made res' = [''Installed package libpam-pwquality'',
        ''Updated minlen in /etc/security/pwquality.conf'',
        ''Added dcredit to /etc/security/pwquality.conf'',
        ''Added ucredit to /etc/security/pwquality.conf'',
        ''Added lcredit to /etc/security/pwquality.conf'',
        ''Added ocredit to /etc/security/pwquality.conf'']"
  using settings_upsert [where w = pwquality_host and r = V_72427
        and pkg = "''libpam-pwquality''" and fp = pwquality_conf and st = pwquality_settings
        and err = "[]" and fs = "[pwquality_conf \<mapsto> pwquality_text]" and raw = pwquality_text
        and res = "initial_result (make_plan_item (failed_finding ''V-72427'') V_72427)"]
  by (simp add: V_72427_simps pwquality_host_simps pwquality_lines pwquality_upserted_lines
        pwquality_upsert_messages pwquality_messages_def initial_result_def)


section \<open>Applying an edit twice\<close>


lemma LF_neq_CR [simp]: "LF \<noteq> CR" "CR \<noteq> LF"
  by (simp_all add: LF_def CR_def)

lemma universal_newlines_no_cr: "CR \<notin> set s \<Longrightarrow> universal_newlines s = s"
  by (induction s rule: universal_newlines.induct) auto

lemma no_cr_universal_newlines: "CR \<notin> set (universal_newlines s)"
  by (induction s rule: universal_newlines.induct) auto

lemma set_split_lf: "l \<in> set (split_lf s) \<Longrightarrow> set l \<subseteq> set s"
  using line_in_join [of l "split_lf s" "[LF]"] by (auto simp: join_split_lf)

lemma py_join_avoids:
  "c \<notin> set sep \<Longrightarrow> \<forall>l \<in> set ls. c \<notin> set l \<Longrightarrow> c \<notin> set (py_join sep ls)"
  by (induction sep ls rule: py_join.induct) auto

lemma sub_lines_no_cr:
  assumes "CR \<notin> set s" "CR \<notin> set repl"
  shows "CR \<notin> set (sub_lines lit repl s)"
  unfolding sub_lines_def
proof (rule py_join_avoids)
  show "CR \<notin> set [LF]" by simp
  show "\<forall>l \<in> set (map (\<lambda>l. if prefix lit l then repl else l) (split_lf s)). CR \<notin> set l"
    using assms by (auto dest!: set_split_lf)
qed

lemma sub_lines_idem:
  assumes "prefix lit repl" "LF \<notin> set repl"
  shows "sub_lines lit repl (sub_lines lit repl s) = sub_lines lit repl s"
proof -
  have "sub_lines lit repl (sub_lines lit repl s)
          = py_join [LF] (map (\<lambda>l. if prefix lit l then repl else l)
                            (map (\<lambda>l. if prefix lit l then repl else l) (split_lf s)))"
    by (simp add: sub_lines_def [of lit repl "sub_lines lit repl s"] split_lf_sub_lines [OF assms(2)])
  also have "\<dots> = sub_lines lit repl s"
    using assms(1) by (simp add: sub_lines_def comp_def if_distrib cong: if_cong)
  finally show ?thesis .
qed

lemma split_lf_append_lf: "split_lf (a @ LF # b) = split_lf a @ split_lf b"
proof (induction a)
  case Nil
  then show ?case by (simp add: split_lf_Cons_lf)
next
  case (Cons c a)
  show ?case
  proof (cases "c = LF")
    case True
    with Cons show ?thesis by (simp add: split_lf_Cons_lf)
  next
    case False
    with Cons show ?thesis by (simp add: split_lf_Cons_other)
  qed
qed

lemma py_join_append:
  "xs \<noteq> [] \<Longrightarrow> ys \<noteq> [] \<Longrightarrow> py_join sep (xs @ ys) = py_join sep xs @ sep @ py_join sep ys"
proof (induction xs)
  case Nil
  then show ?case by simp
next
  case (Cons x xs)
  show ?case
  proof (cases xs)
    case Nil
    with Cons.prems show ?thesis by (cases ys) simp_all
  next
    case (Cons x' xs')
    with Cons.IH Cons.prems show ?thesis by simp
  qed
qed

lemma sub_lines_append:
  assumes "prefix lit repl" "LF \<notin> set repl"
  shows "sub_lines lit repl (s @ LF # repl) = sub_lines lit repl s @ LF # repl"
proof -
  have "split_lf (s @ LF # repl) = split_lf s @ [repl]"
    using assms(2) by (simp add: split_lf_append_lf split_lf_no_lf)
  then show ?thesis
    using assms(1) by (simp add: sub_lines_def py_join_append)
qed

text \<open>
  What the two change operations of a catalog entry compute together: every line that
  starts with the literal replaced, then the replacement appended if it occurs nowhere.
\<close>

definition replace_or_append :: "string \<Rightarrow> string \<Rightarrow> string \<Rightarrow> string" where
  "replace_or_append lit repl s =
     (if str_contains repl (sub_lines lit repl s) then sub_lines lit repl s
      else sub_lines lit repl s @ [LF] @ repl)"

lemma apply_changes_replace_or_append:
  assumes "line_start_literal pat = Some lit" "CHR 0x5C \<notin> set repl"
  shows "apply_changes w [regex_change pat repl, append_change repl] s
           = Inr (replace_or_append lit repl s)"
  using assms by (simp add: apply_change_regex apply_change_append replace_or_append_def)

lemma str_contains_appended: "str_contains x (s @ LF # x)"
  unfolding str_contains_iff by (rule exI [of _ "s @ [LF]"], rule exI [of _ "[]"]) simp

lemma replace_or_append_idem:
  assumes "prefix lit repl" "LF \<notin> set repl"
  shows "replace_or_append lit repl (replace_or_append lit repl s) = replace_or_append lit repl s"
proof (cases "str_contains repl (sub_lines lit repl s)")
  case True
  then show ?thesis
    by (simp add: replace_or_append_def sub_lines_idem [OF assms])
next
  case False
  then show ?thesis
    by (simp add: replace_or_append_def sub_lines_append [OF assms] sub_lines_idem [OF assms]
          str_contains_appended)
qed

lemma replace_or_append_no_cr:
  assumes "CR \<notin> set s" "CR \<notin> set repl"
  shows "CR \<notin> set (replace_or_append lit repl s)"
  using sub_lines_no_cr [OF assms, of lit] assms(2) by (simp add: replace_or_append_def)

text \<open>
  With the file named under the key \<open>file\<close>, the edit is idempotent: whatever the first
  application leaves, a second one reads it, computes the same text, writes nothing and
  records nothing.
\<close>

lemma file_edit_idempotent:
  assumes rm: "file_path rm = Some fp" "changes rm = Some [regex_change pat repl, append_change repl]"
      "service_restart rm = None"
    and pat: "line_start_literal pat = Some lit" "prefix lit repl"
      "CHR 0x5C \<notin> set repl" "LF \<notin> set repl" "CR \<notin> set repl"
    and there: "lookup_file w fp = Some c" "\<not> unwritable w fp"
  shows "\<exists>res1 w1. handle_file_edit w rm res = (Inr (), res1, w1)
           \<and> lookup_file w1 fp = Some (if replace_or_append lit repl (universal_newlines c)
                                            = universal_newlines c
                                        then c
                                        else replace_or_append lit repl (universal_newlines c))
           \<and> changes_made res1 = changes_made res
                @ (if replace_or_append lit repl (universal_newlines c) = universal_newlines c
                   then [] else [''Updated '' @ fp])
           \<and> handle_file_edit w1 rm res1 = (Inr (), res1, w1)"
proof -
  let ?s = "universal_newlines c"
  let ?n = "replace_or_append lit repl ?s"
  from there(1) have fp: "fp \<noteq> []" by (auto simp: lookup_file_def split: if_splits)
  have read: "read_text w fp = Inr ?s" using there(1) by (simp add: read_text_def)
  have ch: "apply_changes w' [regex_change pat repl, append_change repl] s
              = Inr (replace_or_append lit repl s)" for w' s
    using pat(1,3) by (rule apply_changes_replace_or_append)
  show ?thesis
  proof (cases "?n = ?s")
    case True
    have run: "handle_file_edit w rm res = (Inr (), res, w)"
      using rm read ch True
      by (simp add: handle_file_edit_def write_if_changed_def restart_if_required_def)
    with True there(1) show ?thesis by simp
  next
    case False
    let ?w1 = "w\<lparr>files := (files w)(fp \<mapsto> ?n), trace := trace w @ [FileWritten fp ?n]\<rparr>"
    let ?res1 = "add_change res (''Updated '' @ fp)"
    have run: "handle_file_edit w rm res = (Inr (), ?res1, ?w1)"
      using rm read ch False there(2) fp
      by (simp add: handle_file_edit_def write_if_changed_def restart_if_required_def
            write_text_def)
    have "CR \<notin> set ?n"
      using no_cr_universal_newlines pat(5) by (rule replace_or_append_no_cr)
    then have "universal_newlines ?n = ?n" by (rule universal_newlines_no_cr)
    then have read1: "read_text ?w1 fp = Inr ?n"
      using fp by (simp add: read_text_def lookup_file_def)
    have again: "handle_file_edit ?w1 rm ?res1 = (Inr (), ?res1, ?w1)"
      using rm read1 ch replace_or_append_idem [OF pat(2,4), of ?s]
      by (simp add: handle_file_edit_def write_if_changed_def restart_if_required_def)
    have "lookup_file ?w1 fp = Some ?n" using fp by (simp add: lookup_file_def)
    with run again False show ?thesis by (simp add: add_change_def)
  qed
qed


text \<open>
  The entry of \<open>V-72435\<close> with its file also under the key \<open>file\<close>, on the host whose
  \<open>/etc/ssh/sshd_config\<close> is \<open>PermitRootLogin yes\<close>: the first application writes once and
  records one change, the second writes nothing and records nothing.
\<close>

definition V_72435_with_file :: remediation where
  "V_72435_with_file = V_72435\<lparr>file_path := Some sshd_config\<rparr>"

lemma V_72435_with_file_twice:
  "\<exists>res1 w1.
      handle_file_edit ssh_host V_72435_with_file (initial_result item_V_72435)
        = (Inr (), res1, w1)
    \<and> lookup_file w1 sshd_config = Some ''PermitRootLogin no''
    \<and> changes_made res1 = [''Updated /etc/ssh/sshd_config'']
    \<and> handle_file_edit w1 V_72435_with_file res1 = (Inr (), res1, w1)"
proof -
  have rm: "file_path V_72435_with_file = Some sshd_config"
      "changes V_72435_with_file
         = Some [regex_change ''^PermitRootLogin.*'' ''PermitRootLogin no'',
                 append_change ''PermitRootLogin no'']"
      "service_restart V_72435_with_file = None"
    by (simp_all add: V_72435_with_file_def V_72435_def no_remediation_def no_change_def
          regex_change_def append_change_def)
  have pat: "prefix ''PermitRootLogin'' ''PermitRootLogin no''"
      "CHR 0x5C \<notin> set ''PermitRootLogin no''" "LF \<notin> set ''PermitRootLogin no''"
      "CR \<notin> set ''PermitRootLogin no''"
    by (simp_all add: LF_def CR_def)
  have there: "lookup_file ssh_host sshd_config = Some ''PermitRootLogin yes''"
      "\<not> unwritable ssh_host sshd_config"
    by (simp_all add: lookup_file_def ssh_host_def empty_host_def sshd_config_def)
  have u: "universal_newlines ''PermitRootLogin yes'' = ''PermitRootLogin yes''"
    by (simp add: CR_def)
  have "split_lf ''PermitRootLogin yes'' = [''PermitRootLogin yes'']"
    by (rule split_lf_no_lf) (simp add: LF_def)
  then have n: "replace_or_append ''PermitRootLogin'' ''PermitRootLogin no'' ''PermitRootLogin yes''
             = ''PermitRootLogin no''"
    by (simp add: replace_or_append_def sub_lines_def)
  from file_edit_idempotent
         [OF rm line_start_literal_PermitRootLogin pat there,
          of "initial_result item_V_72435", unfolded u n]
  show ?thesis
    by (simp add: initial_result_def sshd_config_def)
qed


section \<open>The edit of V-72435\<close>


lemma handle_file_edit_no_file_key:
  "file_path rm = None \<Longrightarrow> handle_file_edit w rm res = (Inl (KeyError ''file''), res, w)"
  by (simp add: handle_file_edit_def)

lemma handle_service_config_no_file_key:
  "file_path rm = None \<Longrightarrow> handle_service_config w rm res = (Inl (KeyError ''file''), res, w)"
  by (simp add: handle_service_config_def handle_file_edit_no_file_key)

lemma V_72435_simps:
  "rtype V_72435 = ''service_config''"
  "file_path V_72435 = None"
  "config_file V_72435 = Some sshd_config"
  "backup_required V_72435 = Some True"
  "item_remediation item_V_72435 = V_72435"
  by (simp_all add: V_72435_def no_remediation_def sshd_config_def item_V_72435_def
        make_plan_item_def)

lemma service_config_without_file_key:
  assumes rm: "rtype rm = ''service_config''" "file_path rm = None" "config_file rm = Some src"
      "backup_required rm = Some True" "item_remediation item = rm"
    and there: "lookup_file w src = Some c"
    and wr: "\<not> unwritable w (backup_path_for src (clock w (ticks w)))" "\<not> unwritable w src"
  shows "execute_remediation_item w item =
           (Inr ((initial_result item)
                   \<lparr>backup_path := Some (backup_path_for src (clock w (ticks w))),
                    res_error := Some (py_str (KeyError ''file''))\<rparr>),
            w\<lparr>ticks := Suc (ticks w),
              files := (files w)(backup_path_for src (clock w (ticks w)) \<mapsto> c, src \<mapsto> c),
              trace := trace w @ [FileCopied src (backup_path_for src (clock w (ticks w))),
                                  FileCopied (backup_path_for src (clock w (ticks w))) src]\<rparr>)"
proof -
  let ?bp = "backup_path_for src (clock w (ticks w))"
  let ?w1 = "w\<lparr>ticks := Suc (ticks w), files := (files w)(?bp \<mapsto> c),
                trace := trace w @ [FileCopied src ?bp]\<rparr>"
  let ?res1 = "(initial_result item)\<lparr>backup_path := Some ?bp\<rparr>"
  from there have src: "src \<noteq> []" by (auto simp: lookup_file_def split: if_splits)
  have bs: "backup_source rm = Some src"
    using rm(3) by (simp add: backup_source_def)
  have rt: "restore_target rm = Some src"
    using rm(3) src by (simp add: restore_target_def)
  have "try_remediation w rm (initial_result item) = apply_remediation ?w1 rm ?res1"
    using rm(4) bs there wr(1) by (rule try_remediation_backed_up)
  also have "\<dots> = (Inl (KeyError ''file''), ?res1, ?w1)"
    using rm(1,2) by (simp add: apply_remediation_def handle_service_config_no_file_key)
  finally have t: "try_remediation w rm (initial_result item)
                     = (Inl (KeyError ''file''), ?res1, ?w1)" .
  have bp: "?bp \<noteq> []" "?bp \<noteq> src"
    using backup_path_for_nonempty [of src "clock w (ticks w)"]
          backup_path_for_neq [of src "clock w (ticks w)"] by auto
  have "lookup_file ?w1 ?bp = Some c"
    using bp by (simp add: lookup_file_def)
  from restore_from_backup_copies [OF this rt bp(2)] wr(2)
  have r: "restore_from_backup ?w1 ?bp rm =
             (Inr (), ?w1\<lparr>files := (files ?w1)(src \<mapsto> c),
                          trace := trace ?w1 @ [FileCopied ?bp src]\<rparr>)"
    by simp
  show ?thesis
    using t r bp rm(5) by (simp add: execute_remediation_item_def Let_def)
qed

text \<open>
  C4 at its own example. The plan item of \<open>V-72435\<close>, on a host whose
  \<open>/etc/ssh/sshd_config\<close> is \<open>PermitRootLogin yes\<close>: the catalog entry gives the file under
  the key \<open>config_file\<close>, \<open>_handle_file_edit\<close> asks for the key \<open>file\<close>, and the first
  application already raises \<open>KeyError\<close> before the file is read. The item fails, nothing
  is written by the edit, no change is recorded; the file is copied to its backup and
  back, and still says \<open>PermitRootLogin yes\<close>.
\<close>

theorem V_72435_edit_raises_KeyError:
  "handle_file_edit ssh_host V_72435 (initial_result item_V_72435)
     = (Inl (KeyError ''file''), initial_result item_V_72435, ssh_host)
   \<and> backup_source V_72435 = Some sshd_config
   \<and> restore_target V_72435 = Some sshd_config
   \<and> execute_remediation_item ssh_host item_V_72435
     = (Inr \<lparr>res_finding_id = ''V-72435'', res_title = ''Finding V-72435'',
             res_status = ''failed'', changes_made = [],
             backup_path = Some example_backup_path,
             res_error = Some ([CHR 0x27] @ ''file'' @ [CHR 0x27])\<rparr>,
        ssh_host\<lparr>ticks := 1,
          files := [sshd_config \<mapsto> ''PermitRootLogin yes'',
                    example_backup_path \<mapsto> ''PermitRootLogin yes''],
          trace := [FileCopied sshd_config example_backup_path,
                    FileCopied example_backup_path sshd_config]\<rparr>)"
proof -
  have there: "lookup_file ssh_host sshd_config = Some ''PermitRootLogin yes''"
    by (simp add: lookup_file_def ssh_host_def sshd_config_def)
  have bp: "backup_path_for sshd_config (clock ssh_host (ticks ssh_host)) = example_backup_path"
    by (simp add: ssh_host_def empty_host_def example_backup_path_for)
  have wr: "\<not> unwritable ssh_host (backup_path_for sshd_config (clock ssh_host (ticks ssh_host)))"
      "\<not> unwritable ssh_host sshd_config"
    by (simp_all add: ssh_host_def empty_host_def)
  have neq: "example_backup_path \<noteq> sshd_config"
    using backup_path_for_neq [of sshd_config "clock ssh_host (ticks ssh_host)"] bp by simp
  have fs: "(files ssh_host)(example_backup_path \<mapsto> ''PermitRootLogin yes'',
                             sshd_config \<mapsto> ''PermitRootLogin yes'')
            = [sshd_config \<mapsto> ''PermitRootLogin yes'',
               example_backup_path \<mapsto> ''PermitRootLogin yes'']"
    using neq by (auto simp: ssh_host_def fun_eq_iff)
  have "execute_remediation_item ssh_host item_V_72435
          = (Inr ((initial_result item_V_72435)
                   \<lparr>backup_path := Some example_backup_path,
                    res_error := Some (py_str (KeyError ''file''))\<rparr>),
             ssh_host\<lparr>ticks := Suc (ticks ssh_host),
               files := (files ssh_host)(example_backup_path \<mapsto> ''PermitRootLogin yes'',
                                          sshd_config \<mapsto> ''PermitRootLogin yes''),
               trace := trace ssh_host @ [FileCopied sshd_config example_backup_path,
                                          FileCopied example_backup_path sshd_config]\<rparr>)"
    using service_config_without_file_key
            [OF V_72435_simps(1,2,3,4,5) there wr] by (simp only: bp)
  moreover have "ticks ssh_host = 0" "trace ssh_host = []"
    by (simp_all add: ssh_host_def empty_host_def)
  moreover have "initial_result item_V_72435
      = \<lparr>res_finding_id = ''V-72435'', res_title = ''Finding V-72435'',
         res_status = ''failed'', changes_made = [], backup_path = None, res_error = None\<rparr>"
    by (simp add: initial_result_def item_V_72435_def make_plan_item_def failed_finding_def)
  ultimately show ?thesis
    using fs
    by (simp add: handle_file_edit_no_file_key V_72435_simps backup_source_def
          restore_target_def sshd_config_def)
qed


section \<open>A sub-check that fails\<close>


lemma check_password_policy_failure:
  "read_text w ''/etc/pam.d/common-password'' = Inl e \<Longrightarrow>
     check_password_policy w =
       [\<lparr>severity = ''error'', rule_id = ''CHECK-ERROR'',
         title = ''Password Policy Check Error'', status = ''error'',
         description = ''Error checking password policy: '' @ py_str e,
         fix_text = ''Ensure proper permissions to read PAM configuration.'',
         check_type = ''password_policy''\<rparr>]"
  by (simp add: check_password_policy_def)

lemma check_ssh_config_failure:
  "read_text w ''/etc/ssh/sshd_config'' = Inl e \<Longrightarrow>
     check_ssh_config w =
       [\<lparr>severity = ''error'', rule_id = ''CHECK-ERROR'',
         title = ''SSH Configuration Check Error'', status = ''error'',
         description = ''Error checking SSH configuration: '' @ py_str e,
         fix_text = ''Ensure proper permissions to read SSH configuration.'',
         check_type = ''ssh_config''\<rparr>]"
  by (simp add: check_ssh_config_def)

lemma check_system_security_failure:
  "read_text w ''/etc/security/limits.conf'' = Inl e \<Longrightarrow>
     check_system_security w =
       [\<lparr>severity = ''error'', rule_id = ''CHECK-ERROR'',
         title = ''System Security Check Error'', status = ''error'',
         description = ''Error checking system security settings: '' @ py_str e,
         fix_text = ''Ensure proper permissions to read system configuration files.'',
         check_type = ''system_security''\<rparr>]"
  by (simp add: check_system_security_def)

lemma scan_never_info:
  assumes "f \<in> set (scan w)"
  shows "severity f \<noteq> ''info''"
    and "rule_id f = ''CHECK-ERROR'' \<Longrightarrow> severity f = ''error'' \<and> status f = ''error''"
  using assms
  by (auto simp: scan_def check_password_policy_def check_ssh_config_def
        check_system_security_def split: sum.splits if_splits)

lemma read_text_empty_host: "p \<noteq> [] \<Longrightarrow> read_text empty_host p = Inl (FileNotFoundError p)"
  by (simp add: read_text_def lookup_file_def empty_host_def)

text \<open>
  C2 at a host where none of the three files can be read. \<open>scan\<close> returns, with one
  finding in place of each sub-check: its \<open>rule_id\<close> is \<open>CHECK-ERROR\<close>, its status
  \<open>error\<close>, its description carries the failure; its severity is \<open>error\<close>, not \<open>info\<close>.
\<close>

theorem security_config_check_error_severity:
  "map rule_id (scan empty_host) = [''CHECK-ERROR'', ''CHECK-ERROR'', ''CHECK-ERROR'']
   \<and> map status (scan empty_host) = [''error'', ''error'', ''error'']
   \<and> map severity (scan empty_host) = [''error'', ''error'', ''error'']
   \<and> map check_type (scan empty_host) = [''password_policy'', ''ssh_config'', ''system_security'']
   \<and> map description (scan empty_host) =
       [''Error checking password policy: [Errno 2] No such file or directory: ''
          @ [CHR 0x27] @ ''/etc/pam.d/common-password'' @ [CHR 0x27],
        ''Error checking SSH configuration: [Errno 2] No such file or directory: ''
          @ [CHR 0x27] @ ''/etc/ssh/sshd_config'' @ [CHR 0x27],
        ''Error checking system security settings: [Errno 2] No such file or directory: ''
          @ [CHR 0x27] @ ''/etc/security/limits.conf'' @ [CHR 0x27]]"
proof -
  have "check_password_policy empty_host =
       [\<lparr>severity = ''error'', rule_id = ''CHECK-ERROR'',
         title = ''Password Policy Check Error'', status = ''error'',
         description = ''Error checking password policy: ''
                       @ py_str (FileNotFoundError ''/etc/pam.d/common-password''),
         fix_text = ''Ensure proper permissions to read PAM configuration.'',
         check_type = ''password_policy''\<rparr>]"
    by (rule check_password_policy_failure) (simp add: read_text_empty_host)
  moreover have "check_ssh_config empty_host =
       [\<lparr>severity = ''error'', rule_id = ''CHECK-ERROR'',
         title = ''SSH Configuration Check Error'', status = ''error'',
         description = ''Error checking SSH configuration: ''
                       @ py_str (FileNotFoundError ''/etc/ssh/sshd_config''),
         fix_text = ''Ensure proper permissions to read SSH configuration.'',
         check_type = ''ssh_config''\<rparr>]"
    by (rule check_ssh_config_failure) (simp add: read_text_empty_host)
  moreover have "check_system_security empty_host =
       [\<lparr>severity = ''error'', rule_id = ''CHECK-ERROR'',
         title = ''System Security Check Error'', status = ''error'',
         description = ''Error checking system security settings: ''
                       @ py_str (FileNotFoundError ''/etc/security/limits.conf''),
         fix_text = ''Ensure proper permissions to read system configuration files.'',
         check_type = ''system_security''\<rparr>]"
    by (rule check_system_security_failure) (simp add: read_text_empty_host)
  ultimately show ?thesis by (simp add: scan_def)
qed

end
